(* ===== verification/Prelude.thy ===== *)
theory Prelude
  imports
    Main
    "HOL-Library.State_Monad"
    "HOL-Library.Word"
    "HOL-Library.Multiset"
begin

text \<open>
  What the components of the development share: the names of its basic types, the
  sequential programs over an explicit state (the state monad of the library), loops over
  slices, and validity triples for such programs.

  A Go value of type \<^verbatim>\<open>error\<close> beside a result is the left part of a sum
  (\<open>'a result\<close>); an \<^verbatim>\<open>error\<close> alone is a \<open>string option\<close>, \<open>None\<close> for
  \<^verbatim>\<open>nil\<close>.  Times are nanoseconds since the epoch, durations are nanoseconds kept in the
  range of a 64-bit integer by \<open>wrap64\<close>.
\<close>

type_synonym time = int
type_synonym duration = int
type_synonym uuid = "128 word"
type_synonym 'a result = "string + 'a"

named_theorems run_simps \<open>equations that run a program of the development\<close>
named_theorems go_const \<open>constants of the source, unfolded where a proof evaluates them\<close>

section \<open>Programs over a state\<close>

abbreviation ret :: "'a \<Rightarrow> ('s, 'a) state" where
  "ret \<equiv> State_Monad.return"

definition exec :: "('s, 'a) state \<Rightarrow> 's \<Rightarrow> 's" where
  "exec m s = snd (run_state m s)"

definition gets :: "('s \<Rightarrow> 'a) \<Rightarrow> ('s, 'a) state" where
  "gets f = State (\<lambda>s. (f s, s))"

definition modify :: "('s \<Rightarrow> 's) \<Rightarrow> ('s, unit) state" where
  "modify f = State (\<lambda>s. ((), f s))"

text \<open>A statement under a condition, as a Go \<^verbatim>\<open>if\<close> without an \<^verbatim>\<open>else\<close>.\<close>

definition when_do :: "bool \<Rightarrow> ('s, unit) state \<Rightarrow> ('s, unit) state" where
  "when_do b m = (if b then m else ret ())"

text \<open>The loop over a slice.\<close>

fun for_each :: "'a list \<Rightarrow> ('a \<Rightarrow> ('s, unit) state) \<Rightarrow> ('s, unit) state" where
  "for_each [] f = ret ()"
| "for_each (x # xs) f = do { f x; for_each xs f }"

lemma run_gets [simp, run_simps]: "run_state (gets f) s = (f s, s)"
  by (simp add: gets_def)

lemma run_modify [simp, run_simps]: "run_state (modify f) s = ((), f s)"
  by (simp add: modify_def)

lemma run_when [run_simps]: "run_state (when_do b m) s = (if b then run_state m s else ((), s))"
  by (simp add: when_do_def)

lemma exec_bind [simp]:
  "exec (State_Monad.bind m f) s = exec (f (fst (run_state m s))) (exec m s)"
  by (simp add: exec_def split: prod.split)

lemma exec_simps [simp]:
  "exec (ret x) s = s" "exec (gets f) s = s" "exec (modify g) s = g s"
  by (simp_all add: exec_def)

lemma exec_when: "exec (when_do b m) s = (if b then exec m s else s)"
  by (simp add: exec_def run_when)

lemma exec_for_each_Cons:
  "exec (for_each (x # xs) f) s = exec (for_each xs f) (exec (f x) s)"
  by simp

lemma exec_for_each_append:
  "exec (for_each (xs @ ys) f) s = exec (for_each ys f) (exec (for_each xs f) s)"
  by (induction xs arbitrary: s) simp_all

lemma exec_eqI: "run_state m s = (a, t) \<Longrightarrow> exec m s = t"
  by (simp add: exec_def)

lemma run_unit: "\<exists>t. run_state m s = ((), t)"
  by (cases "run_state m s") simp

section \<open>Validity triples\<close>

text \<open>
  \<open>valid P m Q\<close>: from every state with \<open>P\<close>, the program ends in a state and with a
  result that satisfy \<open>Q\<close>.  Programs are total, so this is total correctness.
\<close>

definition valid :: "('s \<Rightarrow> bool) \<Rightarrow> ('s, 'a) state \<Rightarrow> ('a \<Rightarrow> 's \<Rightarrow> bool) \<Rightarrow> bool" where
  "valid P m Q \<longleftrightarrow> (\<forall>s. P s \<longrightarrow> (case run_state m s of (a, t) \<Rightarrow> Q a t))"

abbreviation preserves :: "('s \<Rightarrow> bool) \<Rightarrow> ('s, 'a) state \<Rightarrow> bool" where
  "preserves P m \<equiv> valid P m (\<lambda>_. P)"

lemma validI: "(\<And>s a t. P s \<Longrightarrow> run_state m s = (a, t) \<Longrightarrow> Q a t) \<Longrightarrow> valid P m Q"
  by (auto simp: valid_def split: prod.split)

lemma validD: "valid P m Q \<Longrightarrow> P s \<Longrightarrow> run_state m s = (a, t) \<Longrightarrow> Q a t"
  by (fastforce simp: valid_def)

lemma valid_exec: "valid P m (\<lambda>_. Q) \<Longrightarrow> P s \<Longrightarrow> Q (exec m s)"
  by (simp add: valid_def exec_def split_beta)

lemma valid_bind:
  assumes "valid P m R" "\<And>a. valid (R a) (f a) Q"
  shows "valid P (State_Monad.bind m f) Q"
  using assms by (fastforce simp: valid_def split: prod.splits)

lemma valid_ret: "(\<And>s. P s \<Longrightarrow> Q a s) \<Longrightarrow> valid P (ret a) Q"
  by (simp add: valid_def)

lemma valid_weaken:
  "valid P m Q \<Longrightarrow> (\<And>s. P' s \<Longrightarrow> P s) \<Longrightarrow> (\<And>a s. Q a s \<Longrightarrow> Q' a s) \<Longrightarrow> valid P' m Q'"
  by (fastforce simp: valid_def split: prod.splits)

lemma valid_pre_conj: "(B \<Longrightarrow> valid P m Q) \<Longrightarrow> valid (\<lambda>s. P s \<and> B) m Q"
  by (auto simp: valid_def)

lemma preserves_bind:
  "preserves P m \<Longrightarrow> (\<And>a. preserves P (f a)) \<Longrightarrow> preserves P (State_Monad.bind m f)"
  by (rule valid_bind)

lemma preserves_option:
  "(x = None \<Longrightarrow> preserves P m) \<Longrightarrow> (\<And>a. x = Some a \<Longrightarrow> preserves P (f a)) \<Longrightarrow>
     preserves P (case x of None \<Rightarrow> m | Some a \<Rightarrow> f a)"
  by (cases x) simp_all

lemma preserves_sum:
  "(\<And>e. x = Inl e \<Longrightarrow> preserves P (g e)) \<Longrightarrow> (\<And>a. x = Inr a \<Longrightarrow> preserves P (f a)) \<Longrightarrow>
     preserves P (case x of Inl e \<Rightarrow> g e | Inr a \<Rightarrow> f a)"
  by (cases x) simp_all

lemma preserves_ret: "preserves P (ret a)"
  by (simp add: valid_def)

lemma preserves_when: "preserves P m \<Longrightarrow> preserves P (when_do b m)"
  by (simp add: valid_def run_when)

lemma preserves_for_each: "(\<And>x. x \<in> set xs \<Longrightarrow> preserves P (f x)) \<Longrightarrow> preserves P (for_each xs f)"
proof (induction xs)
  case Nil
  show ?case by (simp add: valid_ret)
next
  case (Cons x xs)
  have "preserves P (f x)" "preserves P (for_each xs f)"
    using Cons by simp_all
  then show ?case by (auto intro: valid_bind)
qed

lemma preserves_if:
  "(b \<Longrightarrow> preserves P m) \<Longrightarrow> (\<not> b \<Longrightarrow> preserves P n) \<Longrightarrow> preserves P (if b then m else n)"
  by simp

lemma preserves_gets: "preserves P (gets f)"
  by (simp add: valid_def)

lemma preserves_modify: "(\<And>s. P s \<Longrightarrow> P (f s)) \<Longrightarrow> preserves P (modify f)"
  by (simp add: valid_def)

lemmas preserves_intros =
  preserves_bind preserves_ret preserves_when preserves_for_each preserves_if preserves_gets
  preserves_option preserves_sum

section \<open>Lists\<close>

lemma find_mset:
  assumes "mset xs = mset ys" "\<And>x y. x \<in> set ys \<Longrightarrow> y \<in> set ys \<Longrightarrow> P x \<Longrightarrow> P y \<Longrightarrow> x = y"
  shows "find P xs = find P ys"
proof (cases "find P ys")
  case None
  then have "find P xs = None"
    using assms(1) mset_eq_setD by (fastforce simp: find_None_iff)
  with None show ?thesis by simp
next
  case (Some y)
  then have y: "y \<in> set ys" "P y" by (auto simp: find_Some_iff)
  then obtain x where x: "find P xs = Some x"
    using assms(1) mset_eq_setD by (fastforce simp: find_None_iff not_None_eq [symmetric])
  then have "x \<in> set ys" "P x"
    using assms(1) mset_eq_setD by (auto simp: find_Some_iff dest: nth_mem)
  with y x Some assms(2) show ?thesis by auto
qed

text \<open>What a query selects from a permutation of a table (an unordered read, filtered, sorted and
  cut to a limit) are rows of the table.\<close>

lemma set_selected:
  assumes "mset xs = mset ys"
  shows "set (take m (sort_key f (filter P xs))) \<subseteq> set ys"
proof -
  have "set (take m (sort_key f (filter P xs))) \<subseteq> set (sort_key f (filter P xs))" by (rule set_take_subset)
  also have "\<dots> \<subseteq> set xs" by (simp add: filter_is_subset)
  also have "\<dots> = set ys" using assms by (rule mset_eq_setD)
  finally show ?thesis .
qed

lemma set_take_selected:
  "mset xs = mset ys \<Longrightarrow> set (take k (take m (sort_key f (filter P xs)))) \<subseteq> set ys"
  by (rule order_trans [OF set_take_subset set_selected])

lemma those_Some_iff: "those xs = Some ys \<longleftrightarrow> xs = map Some ys"
  by (induction xs arbitrary: ys) (auto split: option.splits)

lemma those_map_length: "those (map f xs) = Some ys \<Longrightarrow> length ys = length xs"
  by (metis length_map those_Some_iff)

end
