(* ===== verification/GoStd.thy ===== *)
theory GoStd
  imports Prelude "HOL-Library.Log_Nat"
begin

text \<open>
  What the source uses of the Go language and its standard library: 64-bit integers that
  wrap around, \<^verbatim>\<open>strconv.Atoi\<close> and \<^verbatim>\<open>fmt.Sprintf("%d")\<close>, the conversion of
  \<^verbatim>\<open>math.Pow(2, x)\<close> to an integer, and Unix seconds.  \<open>JSON\<close> values (the argument and
  result of \<^verbatim>\<open>encoding/json\<close>) are represented by their syntax trees: the byte encoding
  is not modelled.
\<close>

section \<open>64-bit integers\<close>

definition wrap64 :: "int \<Rightarrow> int" where
  "wrap64 x = (x + 2 ^ 63) mod 2 ^ 64 - 2 ^ 63"

definition in_int64 :: "int \<Rightarrow> bool" where
  "in_int64 x \<longleftrightarrow> - (2 ^ 63) \<le> x \<and> x < 2 ^ 63"

lemma wrap64_id: "in_int64 x \<Longrightarrow> wrap64 x = x"
  by (simp add: wrap64_def in_int64_def)

lemma wrap64_range: "in_int64 (wrap64 x)"
  by (simp add: wrap64_def in_int64_def)

lemma wrap64_cong: "wrap64 x mod 2 ^ 64 = x mod 2 ^ 64"
  by (simp add: wrap64_def mod_simps)

section \<open>Decimal numbers\<close>

definition digit :: "nat \<Rightarrow> char" where
  "digit n = char_of (48 + n)"

definition digit_val :: "char \<Rightarrow> nat option" where
  "digit_val c = (let k = of_char c :: nat in if 48 \<le> k \<and> k \<le> 57 then Some (k - 48) else None)"

fun dec :: "nat \<Rightarrow> string" where
  "dec n = (if n < 10 then [digit n] else dec (n div 10) @ [digit (n mod 10)])"

declare dec.simps [simp del]

definition fmt_d :: "int \<Rightarrow> string" where
  "fmt_d i = (if i < 0 then CHR ''-'' # dec (nat (- i)) else dec (nat i))"

datatype num_error = ErrSyntax | ErrRange

text \<open>
  \<^verbatim>\<open>strconv.ParseUint(s, 10, 64)\<close>: the loop checks a character before it checks the
  range, so a too long number is out of range even when a later character is not a digit.
\<close>

fun parse_uint_loop :: "nat \<Rightarrow> string \<Rightarrow> num_error + nat" where
  "parse_uint_loop n [] = Inr n"
| "parse_uint_loop n (c # cs) =
     (case digit_val c of
        None \<Rightarrow> Inl ErrSyntax
      | Some d \<Rightarrow> if n * 10 + d < 2 ^ 64 then parse_uint_loop (n * 10 + d) cs else Inl ErrRange)"

definition parse_uint :: "string \<Rightarrow> num_error + nat" where
  "parse_uint s = (if s = [] then Inl ErrSyntax else parse_uint_loop 0 s)"

text \<open>
  \<^verbatim>\<open>strconv.Atoi\<close> returns a value beside the error: 0 for a syntax error, the nearest
  representable number for a range error.
\<close>

definition Atoi :: "string \<Rightarrow> int \<times> num_error option" where
  "Atoi s =
     (let neg = (s \<noteq> [] \<and> hd s = CHR ''-'');
          body = (if s \<noteq> [] \<and> (hd s = CHR ''-'' \<or> hd s = CHR ''+'') then tl s else s)
      in case parse_uint body of
           Inl ErrSyntax \<Rightarrow> (0, Some ErrSyntax)
         | Inl ErrRange \<Rightarrow> (if neg then - (2 ^ 63) else 2 ^ 63 - 1, Some ErrRange)
         | Inr un \<Rightarrow>
             if \<not> neg \<and> 2 ^ 63 \<le> un then (2 ^ 63 - 1, Some ErrRange)
             else if neg \<and> 2 ^ 63 < un then (- (2 ^ 63), Some ErrRange)
             else (if neg then - int un else int un, None))"

lemma digit_val_digit [simp]: "n < 10 \<Longrightarrow> digit_val (digit n) = Some n"
  by (simp add: digit_val_def digit_def Let_def of_char_of)

lemma digit_not_sign: "n < 10 \<Longrightarrow> digit n \<noteq> CHR ''-'' \<and> digit n \<noteq> CHR ''+''"
proof -
  assume "n < 10"
  then have "digit_val (digit n) \<noteq> None" by simp
  moreover have "digit_val CHR ''-'' = None" "digit_val CHR ''+'' = None"
    by (simp_all add: digit_val_def)
  ultimately show ?thesis by metis
qed

lemma dec_nonempty [simp]: "dec n \<noteq> []"
  by (subst dec.simps) simp

lemma dec_digits: "c \<in> set (dec n) \<Longrightarrow> \<exists>d<10. c = digit d"
proof (induction n rule: dec.induct)
  case (1 n)
  have "n mod 10 < 10" by simp
  with 1 show ?case
    by (cases "n < 10") (force simp: dec.simps [of n])+
qed

lemma hd_dec: "hd (dec n) \<noteq> CHR ''-'' \<and> hd (dec n) \<noteq> CHR ''+''"
  using dec_digits [of "hd (dec n)" n] digit_not_sign by (metis dec_nonempty hd_in_set)

lemma parse_uint_loop_append:
  "parse_uint_loop k (xs @ ys) =
     (case parse_uint_loop k xs of Inl e \<Rightarrow> Inl e | Inr m \<Rightarrow> parse_uint_loop m ys)"
  by (induction k xs rule: parse_uint_loop.induct) (auto split: option.split)

lemma parse_uint_loop_dec: "n < 2 ^ 64 \<Longrightarrow> parse_uint_loop 0 (dec n) = Inr n"
proof (induction n rule: dec.induct)
  case (1 n)
  show ?case
  proof (cases "n < 10")
    case True
    then show ?thesis by (simp add: dec.simps [of n])
  next
    case False
    have "n div 10 < 2 ^ 64" using "1.prems" by simp
    with False "1.IH" have "parse_uint_loop 0 (dec (n div 10)) = Inr (n div 10)" by simp
    with False "1.prems" show ?thesis
      by (simp add: dec.simps [of n] parse_uint_loop_append)
  qed
qed

lemma Atoi_range: "in_int64 (fst (Atoi s))"
  by (auto simp: Atoi_def Let_def in_int64_def split: sum.split num_error.split)

lemma Atoi_fmt_d:
  assumes "in_int64 i"
  shows "Atoi (fmt_d i) = (i, None)"
proof (cases "i < 0")
  case True
  with assms have "nat (- i) < 2 ^ 64" "nat (- i) \<le> 2 ^ 63"
    by (simp_all add: in_int64_def nat_less_iff nat_le_iff)
  with True show ?thesis
    by (simp add: fmt_d_def Atoi_def parse_uint_def parse_uint_loop_dec)
next
  case False
  with assms have "nat i < 2 ^ 64" "\<not> 2 ^ 63 \<le> nat i"
    by (simp_all add: in_int64_def nat_less_iff le_nat_iff)
  with False hd_dec [of "nat i"] show ?thesis
    by (simp add: fmt_d_def Atoi_def parse_uint_def parse_uint_loop_dec)
qed

section \<open>Powers of two, seconds\<close>

text \<open>
  The conversion of the float \<^verbatim>\<open>math.Pow(2, float64(n))\<close> to an \<^verbatim>\<open>int64\<close>: it
  truncates towards 0, and what an out-of-range float becomes is left to the
  implementation by the language, so it is the argument \<open>oob\<close>.
\<close>

definition pow2_int64 :: "int \<Rightarrow> int \<Rightarrow> int" where
  "pow2_int64 oob n = (if n < 0 then 0 else if n < 63 then 2 ^ nat n else oob)"

definition time_Second :: duration where
  [go_const]: "time_Second = 1000000000"

definition Unix :: "time \<Rightarrow> int" where
  "Unix t = t div time_Second"

definition Sub :: "time \<Rightarrow> time \<Rightarrow> duration" where
  "Sub t u = (if t - u < - (2 ^ 63) then - (2 ^ 63) else if 2 ^ 63 \<le> t - u then 2 ^ 63 - 1 else t - u)"

definition Add :: "time \<Rightarrow> duration \<Rightarrow> time" where
  "Add t d = t + d"

text \<open>
  \<^verbatim>\<open>Duration.String\<close>: hours, minutes and seconds with a fraction whose trailing zeros are
  dropped; below a second the unit is milliseconds, microseconds or nanoseconds.
\<close>

fun pad_dec :: "nat \<Rightarrow> nat \<Rightarrow> string" where
  "pad_dec 0 n = []"
| "pad_dec (Suc k) n = pad_dec k (n div 10) @ [digit (n mod 10)]"

definition fmt_frac :: "nat \<Rightarrow> nat \<Rightarrow> string" where
  "fmt_frac n prec =
     (let f = rev (dropWhile (\<lambda>c. c = CHR ''0'') (rev (pad_dec prec (n mod 10 ^ prec))))
      in if f = [] then [] else CHR ''.'' # f)"

definition fmt_unit :: "nat \<Rightarrow> nat \<Rightarrow> string" where
  "fmt_unit n prec = dec (n div 10 ^ prec) @ fmt_frac n prec"

definition micro_sign :: string where
  "micro_sign = [char_of (194 :: nat), char_of (181 :: nat)]"

definition Duration_String :: "duration \<Rightarrow> string" where
  "Duration_String d =
     (let u = nat \<bar>d\<bar>; sign = (if d < 0 then ''-'' else '''');
          secs = u div 10 ^ 9
      in if u = 0 then ''0s''
         else if u < 10 ^ 3 then sign @ dec u @ ''ns''
         else if u < 10 ^ 6 then sign @ fmt_unit u 3 @ micro_sign @ ''s''
         else if u < 10 ^ 9 then sign @ fmt_unit u 6 @ ''ms''
         else sign @
              (if secs div 60 = 0 then ''''
               else (if secs div 3600 = 0 then '''' else dec (secs div 3600) @ ''h'') @
                    dec (secs div 60 mod 60) @ ''m'') @
              dec (secs mod 60) @ fmt_frac u 9 @ ''s'')"

lemma Unix_mono: "s \<le> t \<Longrightarrow> Unix s \<le> Unix t"
  by (simp add: Unix_def time_Second_def zdiv_mono1)

section \<open>Floating point\<close>

text \<open>
  \<^verbatim>\<open>float64(n)\<close> of an integer: 53 bits of precision, rounded to nearest with ties to
  even.  The result is again an integer.
\<close>

definition f64_nat :: "nat \<Rightarrow> nat" where
  "f64_nat a =
     (let s = 2 ^ (floorlog 2 a - 53); q = a div s; r = a mod s
      in if 2 * r < s \<or> (2 * r = s \<and> even q) then q * s else (q + 1) * s)"

definition f64_int :: "int \<Rightarrow> int" where
  "f64_int n = sgn n * int (f64_nat (nat \<bar>n\<bar>))"

lemma f64_nat_exact: "a < 2 ^ 53 \<Longrightarrow> f64_nat a = a"
proof -
  assume "a < 2 ^ 53"
  then have "floorlog 2 a \<le> 53" by (intro floorlog_leI) auto
  then show ?thesis by (simp add: f64_nat_def)
qed

lemma f64_int_exact:
  assumes "\<bar>n\<bar> < 2 ^ 53"
  shows "f64_int n = n"
proof -
  have "nat \<bar>n\<bar> < 2 ^ 53" using assms by (simp add: nat_less_iff)
  then show ?thesis by (simp add: f64_int_def f64_nat_exact sgn_if)
qed

text \<open>A quotient of naturals rounded to nearest, ties to even.\<close>

definition round_div :: "nat \<Rightarrow> nat \<Rightarrow> nat" where
  "round_div a b =
     (let q = a div b; r = a mod b in if 2 * r < b \<or> (2 * r = b \<and> even q) then q else q + 1)"

lemma round_div_bounds:
  assumes "0 < b"
  shows "a div b \<le> round_div a b" "2 * (b * round_div a b) \<le> 2 * a + b"
proof -
  have r: "round_div a b = a div b \<or> (round_div a b = a div b + 1 \<and> b \<le> 2 * (a mod b))"
    by (auto simp: round_div_def Let_def)
  then show "a div b \<le> round_div a b" by linarith
  obtain x where x: "x = b * (a div b)" by simp
  have a: "x + a mod b = a" by (simp add: x)
  have "b * round_div a b = x \<or> (b * round_div a b = x + b \<and> b \<le> 2 * (a mod b))"
    using r by (auto simp: x)
  then show "2 * (b * round_div a b) \<le> 2 * a + b" using a by linarith
qed

section \<open>JSON values\<close>

datatype json =
    JNull
  | JBool bool
  | JNum string
  | JStr string
  | JTime time
  | JArr "json list"
  | JObj "(string \<times> json) list"

end
