(* ===== verification/Job.thy ===== *)
theory Job
  imports GoStd
begin

text \<open>
  The package \<^verbatim>\<open>model\<close> (\<^verbatim>\<open>src/internal/model/job.go\<close>): the job record, the status
  constants with their table of allowed transitions, and the retry delay.  A status is a Go
  string type, so any string is a value of it.  A JSON payload is \<open>None\<close> for a
  \<^verbatim>\<open>nil\<close> raw message.
\<close>

type_synonym JobStatus = string

definition StatusPending :: JobStatus where [go_const]: "StatusPending = ''pending''"
definition StatusScheduled :: JobStatus where [go_const]: "StatusScheduled = ''scheduled''"
definition StatusRunning :: JobStatus where [go_const]: "StatusRunning = ''running''"
definition StatusCompleted :: JobStatus where [go_const]: "StatusCompleted = ''completed''"
definition StatusFailed :: JobStatus where [go_const]: "StatusFailed = ''failed''"
definition StatusRetrying :: JobStatus where [go_const]: "StatusRetrying = ''retrying''"
definition StatusDead :: JobStatus where [go_const]: "StatusDead = ''dead''"
definition StatusCancelled :: JobStatus where [go_const]: "StatusCancelled = ''cancelled''"

definition validStatuses :: "JobStatus \<rightharpoonup> bool" where
  "validStatuses =
     [StatusPending \<mapsto> True, StatusScheduled \<mapsto> True, StatusRunning \<mapsto> True,
      StatusCompleted \<mapsto> True, StatusFailed \<mapsto> True, StatusRetrying \<mapsto> True,
      StatusDead \<mapsto> True, StatusCancelled \<mapsto> True]"

definition allowedTransitions :: "JobStatus \<rightharpoonup> JobStatus list" where
  "allowedTransitions =
     [StatusPending \<mapsto> [StatusRunning, StatusScheduled, StatusCancelled],
      StatusScheduled \<mapsto> [StatusRunning, StatusCancelled],
      StatusRunning \<mapsto> [StatusCompleted, StatusFailed, StatusCancelled],
      StatusFailed \<mapsto> [StatusRetrying, StatusDead],
      StatusRetrying \<mapsto> [StatusRunning],
      StatusDead \<mapsto> [StatusPending]]"

text \<open>A missing key of a Go map reads as the zero value: \<^verbatim>\<open>false\<close>, the empty slice.\<close>

definition IsValid :: "JobStatus \<Rightarrow> bool" where
  "IsValid s = (case validStatuses s of None \<Rightarrow> False | Some b \<Rightarrow> b)"

fun transition_loop :: "JobStatus list \<Rightarrow> JobStatus \<Rightarrow> bool" where
  "transition_loop [] target = False"
| "transition_loop (a # as) target = (if a = target then True else transition_loop as target)"

definition CanTransitionTo :: "JobStatus \<Rightarrow> JobStatus \<Rightarrow> bool" where
  "CanTransitionTo s target =
     transition_loop (case allowedTransitions s of None \<Rightarrow> [] | Some as \<Rightarrow> as) target"

definition BackoffDuration :: "int \<Rightarrow> int \<Rightarrow> duration" where
  "BackoffDuration oob retryCount = wrap64 (pow2_int64 oob retryCount * time_Second)"

record Job =
  ID :: uuid
  Queue :: string
  Type :: string
  Payload :: "json option"
  Status :: JobStatus
  MaxRetries :: int
  RetryCount :: int
  RunAt :: "time option"
  StartedAt :: "time option"
  CompletedAt :: "time option"
  Error :: string
  CreatedAt :: time
  UpdatedAt :: time

section \<open>The status table\<close>

definition statuses :: "JobStatus list" where
  "statuses = [StatusPending, StatusScheduled, StatusRunning, StatusCompleted, StatusFailed,
               StatusRetrying, StatusDead, StatusCancelled]"

lemma transition_loop_iff: "transition_loop as t \<longleftrightarrow> t \<in> set as"
  by (induction as) auto

lemma statuses_distinct: "distinct statuses"
  by (simp add: statuses_def go_const)

lemma IsValid_iff: "IsValid s \<longleftrightarrow> s \<in> set statuses"
  by (auto simp: IsValid_def validStatuses_def statuses_def)

lemma CanTransitionTo_iff:
  "CanTransitionTo s t \<longleftrightarrow>
     s = StatusPending \<and> t \<in> {StatusRunning, StatusScheduled, StatusCancelled} \<or>
     s = StatusScheduled \<and> t \<in> {StatusRunning, StatusCancelled} \<or>
     s = StatusRunning \<and> t \<in> {StatusCompleted, StatusFailed, StatusCancelled} \<or>
     s = StatusFailed \<and> t \<in> {StatusRetrying, StatusDead} \<or>
     s = StatusRetrying \<and> t = StatusRunning \<or>
     s = StatusDead \<and> t = StatusPending"
  by (auto simp: CanTransitionTo_def allowedTransitions_def transition_loop_iff go_const)

lemma CanTransitionTo_cancel:
  "CanTransitionTo s StatusCancelled \<longleftrightarrow> s \<in> {StatusPending, StatusScheduled, StatusRunning}"
  by (auto simp: CanTransitionTo_iff go_const)

text \<open>
  The lifecycle the table describes: what a job's status may become over any number of
  allowed changes.
\<close>

inductive lifecycle :: "JobStatus \<Rightarrow> JobStatus \<Rightarrow> bool" where
  lifecycle_refl: "lifecycle s s"
| lifecycle_step: "lifecycle s t \<Longrightarrow> CanTransitionTo t u \<Longrightarrow> lifecycle s u"

lemma lifecycle_trans: "lifecycle t u \<Longrightarrow> lifecycle s t \<Longrightarrow> lifecycle s u"
  by (induction rule: lifecycle.induct) (auto intro: lifecycle.intros)

lemma lifecycle_one: "CanTransitionTo s t \<Longrightarrow> lifecycle s t"
  by (rule lifecycle_step [OF lifecycle_refl])

lemma lifecycle_valid: "lifecycle s t \<Longrightarrow> IsValid s \<Longrightarrow> IsValid t"
  by (induction rule: lifecycle.induct) (auto simp: CanTransitionTo_iff IsValid_iff statuses_def)

lemma lifecycle_terminal:
  "lifecycle s t \<Longrightarrow> s \<in> {StatusCompleted, StatusCancelled} \<Longrightarrow> t = s"
  by (induction rule: lifecycle.induct) (auto simp: CanTransitionTo_iff go_const)

lemma pending_steps:
  "CanTransitionTo StatusPending StatusScheduled" "CanTransitionTo StatusPending StatusRunning"
  "CanTransitionTo StatusPending StatusCancelled" "CanTransitionTo StatusRunning StatusCompleted"
  "CanTransitionTo StatusRunning StatusFailed" "CanTransitionTo StatusFailed StatusRetrying"
  "CanTransitionTo StatusFailed StatusDead"
  by (simp_all add: CanTransitionTo_iff)

lemma lifecycle_from_pending: "t \<in> set statuses \<Longrightarrow> lifecycle StatusPending t"
proof -
  note step = lifecycle_step [OF _ pending_steps(4)] lifecycle_step [OF _ pending_steps(5)]
    lifecycle_step [OF _ pending_steps(6)] lifecycle_step [OF _ pending_steps(7)]
  have "lifecycle StatusPending StatusRunning" "lifecycle StatusPending StatusScheduled"
    "lifecycle StatusPending StatusCancelled"
    by (rule lifecycle_one, rule pending_steps)+
  then show "t \<in> set statuses \<Longrightarrow> lifecycle StatusPending t"
    using step [of StatusPending] lifecycle_refl [of StatusPending] by (auto simp: statuses_def)
qed

definition next_status :: "JobStatus \<rightharpoonup> JobStatus" where
  "next_status s = (case allowedTransitions s of Some (t # _) \<Rightarrow> Some t | _ \<Rightarrow> None)"

lemma next_status_step: "next_status s = Some t \<Longrightarrow> CanTransitionTo s t"
  by (auto simp: next_status_def CanTransitionTo_def split: option.splits list.splits)

lemma next_status_statuses:
  "map next_status statuses =
     [Some StatusRunning, Some StatusRunning, Some StatusCompleted, None, Some StatusRetrying,
      Some StatusRunning, Some StatusPending, None]"
  by (simp add: next_status_def statuses_def allowedTransitions_def go_const)

lemma next_status_valid:
  assumes "IsValid s" "s \<noteq> StatusCompleted" "s \<noteq> StatusCancelled"
  shows "\<exists>t. next_status s = Some t \<and> t \<noteq> s"
proof -
  have "list_all (\<lambda>s. s = StatusCompleted \<or> s = StatusCancelled \<or>
                    next_status s \<notin> {None, Some s}) statuses"
    using next_status_statuses by (simp add: statuses_def) (simp add: go_const)
  with assms show ?thesis by (auto simp: list_all_iff IsValid_iff)
qed


section \<open>The retry delay\<close>

lemma seconds_in_int64: "0 \<le> p \<Longrightarrow> p \<le> 8589934592 \<Longrightarrow> in_int64 (p * time_Second)"
  by (simp add: in_int64_def time_Second_def)

lemma seconds_not_in_int64: "17179869184 \<le> p \<Longrightarrow> \<not> in_int64 (p * time_Second)"
  by (simp add: in_int64_def time_Second_def)

lemma BackoffDuration_small:
  assumes "0 \<le> n" "n \<le> 33"
  shows "BackoffDuration oob n = 2 ^ nat n * time_Second"
proof -
  have "(2::int) ^ nat n \<le> 2 ^ 33"
    using assms by (intro power_increasing) auto
  moreover have "(0::int) \<le> 2 ^ nat n" by simp
  ultimately have "in_int64 (2 ^ nat n * time_Second)"
    by (intro seconds_in_int64) simp_all
  with assms show ?thesis
    by (simp add: BackoffDuration_def pow2_int64_def wrap64_id)
qed

lemma BackoffDuration_large:
  assumes "34 \<le> n" "n < 63"
  shows "BackoffDuration oob n \<noteq> 2 ^ nat n * time_Second"
proof
  assume eq: "BackoffDuration oob n = 2 ^ nat n * time_Second"
  have "(2::int) ^ 34 \<le> 2 ^ nat n"
    using assms by (intro power_increasing) auto
  then have "\<not> in_int64 (2 ^ nat n * time_Second)"
    by (intro seconds_not_in_int64) simp
  moreover have "in_int64 (BackoffDuration oob n)"
    by (simp add: BackoffDuration_def wrap64_range)
  ultimately show False using eq by simp
qed



end
