(* ===== verification/Sql.thy ===== *)
theory Sql
  imports Job
begin

text \<open>
  The SQL the storage package sends, as a language: the \<^verbatim>\<open>jobs\<close> table of the migration
  \<^verbatim>\<open>000001_create_jobs_table.up.sql\<close>, the statements of
  \<^verbatim>\<open>src/internal/storage/postgres.go\<close> as syntax, and what such a statement does to the
  table.  Conditions have SQL's three truth values.  What a statement reads of its server
  is the record \<open>pgenv\<close>: the value of \<^verbatim>\<open>now()\<close>, the generated key, the input
  conversions, the order in which rows are scanned, the collation, and the date functions.
\<close>

section \<open>The table\<close>

datatype column =
    C_id | C_queue | C_type | C_payload | C_status | C_max_retries | C_retry_count
  | C_run_at | C_started_at | C_completed_at | C_error | C_created_at | C_updated_at

datatype val =
    VNull
  | VUuid uuid
  | VText string
  | VInt int
  | VTime time
  | VJson json

type_synonym row = "column \<Rightarrow> val"
type_synonym table = "row list"

definition jobs_columns :: "column list" where
  "jobs_columns =
     [C_id, C_queue, C_type, C_payload, C_status, C_max_retries, C_retry_count,
      C_run_at, C_started_at, C_completed_at, C_error, C_created_at, C_updated_at]"

text \<open>A \<^verbatim>\<open>VARCHAR(n)\<close> counts characters, a string is its UTF-8 bytes.\<close>

definition utf8_length :: "string \<Rightarrow> nat" where
  "utf8_length s = length (filter (\<lambda>c. (of_char c :: nat) < 128 \<or> 192 \<le> (of_char c :: nat)) s)"

definition in_int4 :: "int \<Rightarrow> bool" where
  "in_int4 n \<longleftrightarrow> - (2 ^ 31) \<le> n \<and> n < 2 ^ 31"

text \<open>The type and the \<^verbatim>\<open>NOT NULL\<close> constraint of each column.\<close>

fun col_accepts :: "column \<Rightarrow> val \<Rightarrow> bool" where
  "col_accepts C_id v = (case v of VUuid _ \<Rightarrow> True | _ \<Rightarrow> False)"
| "col_accepts C_queue v = (case v of VText s \<Rightarrow> utf8_length s \<le> 255 | _ \<Rightarrow> False)"
| "col_accepts C_type v = (case v of VText s \<Rightarrow> utf8_length s \<le> 255 | _ \<Rightarrow> False)"
| "col_accepts C_payload v = (case v of VJson _ \<Rightarrow> True | _ \<Rightarrow> False)"
| "col_accepts C_status v = (case v of VText s \<Rightarrow> utf8_length s \<le> 20 | _ \<Rightarrow> False)"
| "col_accepts C_max_retries v = (case v of VInt n \<Rightarrow> in_int4 n | _ \<Rightarrow> False)"
| "col_accepts C_retry_count v = (case v of VInt n \<Rightarrow> in_int4 n | _ \<Rightarrow> False)"
| "col_accepts C_run_at v = (case v of VNull \<Rightarrow> True | VTime _ \<Rightarrow> True | _ \<Rightarrow> False)"
| "col_accepts C_started_at v = (case v of VNull \<Rightarrow> True | VTime _ \<Rightarrow> True | _ \<Rightarrow> False)"
| "col_accepts C_completed_at v = (case v of VNull \<Rightarrow> True | VTime _ \<Rightarrow> True | _ \<Rightarrow> False)"
| "col_accepts C_error v = (case v of VText _ \<Rightarrow> True | _ \<Rightarrow> False)"
| "col_accepts C_created_at v = (case v of VTime _ \<Rightarrow> True | _ \<Rightarrow> False)"
| "col_accepts C_updated_at v = (case v of VTime _ \<Rightarrow> True | _ \<Rightarrow> False)"

definition row_ok :: "row \<Rightarrow> bool" where
  "row_ok r = list_all (\<lambda>c. col_accepts c (r c)) jobs_columns"

text \<open>The constraints of the table: the columns', and \<^verbatim>\<open>id\<close> as primary key.\<close>

definition schema_ok :: "table \<Rightarrow> bool" where
  "schema_ok t \<longleftrightarrow> list_all row_ok t \<and> distinct (map (\<lambda>r. r C_id) t)"

section \<open>Statements\<close>

text \<open>\<open>Param n\<close> is the placeholder \<^verbatim>\<open>$n\<close>; \<open>Ago e\<close> is \<^verbatim>\<open>now() - e::interval\<close>.\<close>

datatype sexpr = Param nat | Lit val | Col column | Coalesce sexpr sexpr | Now | Ago sexpr

datatype scond =
    CTrue
  | CEq column sexpr
  | CLt column sexpr
  | CGt column sexpr
  | CIsNull column
  | CIn column "val list"
  | CAnd scond scond

datatype gexpr = GCol column | GTrunc sexpr column

datatype sql =
    Insert "(column \<times> sexpr) list" "column list"
  | Update "(column \<times> sexpr) list" scond
  | Delete scond
  | Select "column list" scond "(column \<times> bool) option" "sexpr option" "sexpr option"
  | SelectCount scond
  | SelectGroup "gexpr list" scond "nat option"

record pgenv =
  now_at :: time
  fresh_id :: uuid
  jsonb_in :: "json \<Rightarrow> json option"
  ts_in :: "time \<Rightarrow> time"
  scan :: "table \<Rightarrow> table"
  text_rank :: "string \<Rightarrow> int"
  interval_in :: "string \<Rightarrow> duration option"
  date_trunc :: "string \<Rightarrow> (time \<Rightarrow> time) option"

text \<open>The number of placeholders of a statement: the largest index that occurs in it.\<close>

fun np_sx :: "sexpr \<Rightarrow> nat" where
  "np_sx (Param n) = n"
| "np_sx (Coalesce a b) = max (np_sx a) (np_sx b)"
| "np_sx (Ago a) = np_sx a"
| "np_sx _ = 0"

fun np_cond :: "scond \<Rightarrow> nat" where
  "np_cond (CEq _ e) = np_sx e"
| "np_cond (CLt _ e) = np_sx e"
| "np_cond (CGt _ e) = np_sx e"
| "np_cond (CAnd a b) = max (np_cond a) (np_cond b)"
| "np_cond _ = 0"

definition np_opt :: "sexpr option \<Rightarrow> nat" where
  "np_opt e = (case e of None \<Rightarrow> 0 | Some x \<Rightarrow> np_sx x)"

fun np_sets :: "(column \<times> sexpr) list \<Rightarrow> nat" where
  "np_sets [] = 0"
| "np_sets ((_, e) # xs) = max (np_sx e) (np_sets xs)"

fun np_group :: "gexpr list \<Rightarrow> nat" where
  "np_group [] = 0"
| "np_group (GCol _ # gs) = np_group gs"
| "np_group (GTrunc e _ # gs) = max (np_sx e) (np_group gs)"

fun np_sql :: "sql \<Rightarrow> nat" where
  "np_sql (Insert sets _) = np_sets sets"
| "np_sql (Update sets c) = max (np_sets sets) (np_cond c)"
| "np_sql (Delete c) = np_cond c"
| "np_sql (Select _ c _ l off) = max (np_cond c) (max (np_opt l) (np_opt off))"
| "np_sql (SelectCount c) = np_cond c"
| "np_sql (SelectGroup gs c _) = max (np_group gs) (np_cond c)"

section \<open>Evaluation\<close>

text \<open>
  Text the server accepts: well-formed UTF-8 without the null character.
\<close>

definition cont_byte :: "nat \<Rightarrow> bool" where
  "cont_byte b \<longleftrightarrow> 128 \<le> b \<and> b \<le> 191"

fun utf8_ok :: "nat list \<Rightarrow> bool" where
  "utf8_ok [] = True"
| "utf8_ok (a # bs) =
     (if a < 128 then utf8_ok bs
      else case bs of
             [] \<Rightarrow> False
           | b # cs \<Rightarrow>
               (if 194 \<le> a \<and> a \<le> 223 then cont_byte b \<and> utf8_ok cs
                else case cs of
                       [] \<Rightarrow> False
                     | c # ds \<Rightarrow>
                         (if 224 \<le> a \<and> a \<le> 239
                          then cont_byte b \<and> (a = 224 \<longrightarrow> 160 \<le> b) \<and> (a = 237 \<longrightarrow> b \<le> 159) \<and>
                               cont_byte c \<and> utf8_ok ds
                          else case ds of
                                 [] \<Rightarrow> False
                               | d # es \<Rightarrow>
                                   240 \<le> a \<and> a \<le> 244 \<and> cont_byte b \<and> (a = 240 \<longrightarrow> 144 \<le> b) \<and>
                                   (a = 244 \<longrightarrow> b \<le> 143) \<and> cont_byte c \<and> cont_byte d \<and> utf8_ok es)))"

definition text_ok :: "string \<Rightarrow> bool" where
  "text_ok s \<longleftrightarrow> utf8_ok (map of_char s) \<and> CHR 0x00 \<notin> set s"

text \<open>
  How an argument enters the server: text and JSON are checked, JSON is normalised, a time is
  rounded.
\<close>

fun conv :: "pgenv \<Rightarrow> val \<Rightarrow> val option" where
  "conv env (VJson j) = map_option VJson (jsonb_in env j)"
| "conv env (VTime t) = Some (VTime (ts_in env t))"
| "conv env (VText s) = (if text_ok s then Some (VText s) else None)"
| "conv env v = Some v"

text \<open>Text that is cast to an interval or names a time unit is checked before the rows are read.\<close>

fun casts_sx :: "pgenv \<Rightarrow> val list \<Rightarrow> sexpr \<Rightarrow> bool" where
  "casts_sx env args (Ago (Param n)) =
     (case args ! (n - 1) of VText s \<Rightarrow> interval_in env s \<noteq> None | _ \<Rightarrow> False)"
| "casts_sx env args (Ago _) = False"
| "casts_sx env args _ = True"

fun casts_cond :: "pgenv \<Rightarrow> val list \<Rightarrow> scond \<Rightarrow> bool" where
  "casts_cond env args (CEq _ e) = casts_sx env args e"
| "casts_cond env args (CLt _ e) = casts_sx env args e"
| "casts_cond env args (CGt _ e) = casts_sx env args e"
| "casts_cond env args (CAnd a b) = (casts_cond env args a \<and> casts_cond env args b)"
| "casts_cond env args _ = True"

fun eval_sx :: "pgenv \<Rightarrow> val list \<Rightarrow> row \<Rightarrow> sexpr \<Rightarrow> val" where
  "eval_sx env args r (Param n) = args ! (n - 1)"
| "eval_sx env args r (Lit v) = v"
| "eval_sx env args r (Col c) = r c"
| "eval_sx env args r (Coalesce a b) =
     (if eval_sx env args r a = VNull then eval_sx env args r b else eval_sx env args r a)"
| "eval_sx env args r Now = VTime (now_at env)"
| "eval_sx env args r (Ago e) =
     (case eval_sx env args r e of
        VText s \<Rightarrow> (case interval_in env s of Some d \<Rightarrow> VTime (now_at env - d) | None \<Rightarrow> VNull)
      | _ \<Rightarrow> VNull)"

definition sql_eq :: "val \<Rightarrow> val \<Rightarrow> bool option" where
  "sql_eq a b = (if a = VNull \<or> b = VNull then None else Some (a = b))"

fun sql_less :: "val \<Rightarrow> val \<Rightarrow> bool option" where
  "sql_less (VTime a) (VTime b) = Some (a < b)"
| "sql_less (VInt a) (VInt b) = Some (a < b)"
| "sql_less _ _ = None"

fun sql_and :: "bool option \<Rightarrow> bool option \<Rightarrow> bool option" where
  "sql_and (Some False) _ = Some False"
| "sql_and _ (Some False) = Some False"
| "sql_and (Some True) b = b"
| "sql_and None _ = None"

fun eval_cond :: "pgenv \<Rightarrow> val list \<Rightarrow> row \<Rightarrow> scond \<Rightarrow> bool option" where
  "eval_cond env args r CTrue = Some True"
| "eval_cond env args r (CEq c e) = sql_eq (r c) (eval_sx env args r e)"
| "eval_cond env args r (CLt c e) = sql_less (r c) (eval_sx env args r e)"
| "eval_cond env args r (CGt c e) = sql_less (eval_sx env args r e) (r c)"
| "eval_cond env args r (CIsNull c) = Some (r c = VNull)"
| "eval_cond env args r (CIn c vs) = (if r c = VNull then None else Some (r c \<in> set vs))"
| "eval_cond env args r (CAnd a b) = sql_and (eval_cond env args r a) (eval_cond env args r b)"

text \<open>A row is selected where the condition is true, not where it is unknown.\<close>

definition matches :: "pgenv \<Rightarrow> val list \<Rightarrow> scond \<Rightarrow> row \<Rightarrow> bool" where
  "matches env args c r \<longleftrightarrow> eval_cond env args r c = Some True"

fun col_default :: "pgenv \<Rightarrow> column \<Rightarrow> val" where
  "col_default env C_id = VUuid (fresh_id env)"
| "col_default env C_payload = VJson (JObj [])"
| "col_default env C_status = VText ''pending''"
| "col_default env C_max_retries = VInt 3"
| "col_default env C_retry_count = VInt 0"
| "col_default env C_error = VText ''''"
| "col_default env C_created_at = VTime (now_at env)"
| "col_default env C_updated_at = VTime (now_at env)"
| "col_default env _ = VNull"

definition insert_row :: "pgenv \<Rightarrow> val list \<Rightarrow> (column \<times> sexpr) list \<Rightarrow> row" where
  "insert_row env args sets =
     (\<lambda>c. case map_of sets c of
            Some e \<Rightarrow> eval_sx env args (\<lambda>_. VNull) e
          | None \<Rightarrow> col_default env c)"

definition update_row :: "pgenv \<Rightarrow> val list \<Rightarrow> (column \<times> sexpr) list \<Rightarrow> row \<Rightarrow> row" where
  "update_row env args sets r =
     (\<lambda>c. case map_of sets c of Some e \<Rightarrow> eval_sx env args r e | None \<Rightarrow> r c)"

fun ord_key :: "pgenv \<Rightarrow> val \<Rightarrow> int" where
  "ord_key env (VTime t) = t"
| "ord_key env (VInt n) = n"
| "ord_key env (VText s) = text_rank env s"
| "ord_key env _ = 0"

text \<open>\<^verbatim>\<open>ASC\<close> puts nulls last, \<^verbatim>\<open>DESC\<close> puts them first.\<close>

definition order_by :: "pgenv \<Rightarrow> (column \<times> bool) option \<Rightarrow> table \<Rightarrow> table" where
  "order_by env ord rs =
     (case ord of
        None \<Rightarrow> rs
      | Some (c, asc) \<Rightarrow>
          let nulls = filter (\<lambda>r. r c = VNull) rs; vals = filter (\<lambda>r. r c \<noteq> VNull) rs
          in if asc then sort_key (\<lambda>r. ord_key env (r c)) vals @ nulls
             else nulls @ sort_key (\<lambda>r. - ord_key env (r c)) vals)"

text \<open>\<^verbatim>\<open>LIMIT\<close> and \<^verbatim>\<open>OFFSET\<close>: a negative number is an error.\<close>

definition bound_val :: "pgenv \<Rightarrow> val list \<Rightarrow> sexpr option \<Rightarrow> nat option option" where
  "bound_val env args e =
     (case e of
        None \<Rightarrow> Some None
      | Some x \<Rightarrow>
          (case eval_sx env args (\<lambda>_. VNull) x of
             VInt n \<Rightarrow> if n < 0 then None else Some (Some (nat n))
           | _ \<Rightarrow> None))"

definition slice :: "nat option \<Rightarrow> nat option \<Rightarrow> 'a list \<Rightarrow> 'a list" where
  "slice lm off xs =
     (let ys = (case off of None \<Rightarrow> xs | Some n \<Rightarrow> drop n xs)
      in case lm of None \<Rightarrow> ys | Some n \<Rightarrow> take n ys)"

fun group_val :: "pgenv \<Rightarrow> val list \<Rightarrow> row \<Rightarrow> gexpr \<Rightarrow> val" where
  "group_val env args r (GCol c) = r c"
| "group_val env args r (GTrunc e c) =
     (case (eval_sx env args r e, r c) of
        (VText u, VTime t) \<Rightarrow> (case date_trunc env u of Some f \<Rightarrow> VTime (f t) | None \<Rightarrow> VNull)
      | _ \<Rightarrow> VNull)"

definition group_ok :: "pgenv \<Rightarrow> val list \<Rightarrow> gexpr list \<Rightarrow> bool" where
  "group_ok env args gs =
     list_all (\<lambda>g. case g of
                     GCol _ \<Rightarrow> True
                   | GTrunc e _ \<Rightarrow>
                       (case eval_sx env args (\<lambda>_. VNull) e of
                          VText u \<Rightarrow> date_trunc env u \<noteq> None
                        | _ \<Rightarrow> False)) gs"

definition group_rows :: "pgenv \<Rightarrow> val list \<Rightarrow> gexpr list \<Rightarrow> table \<Rightarrow> val list list" where
  "group_rows env args gs rs =
     (let key = (\<lambda>r. map (group_val env args r) gs)
      in map (\<lambda>k. k @ [VInt (int (length (filter (\<lambda>r. key r = k) rs)))]) (remdups (map key rs)))"

definition order_groups :: "pgenv \<Rightarrow> nat option \<Rightarrow> val list list \<Rightarrow> val list list" where
  "order_groups env ord gs =
     (case ord of None \<Rightarrow> gs | Some i \<Rightarrow> sort_key (\<lambda>g. ord_key env (g ! i)) gs)"

text \<open>
  What a statement does: the rows it returns, the number of rows it affects and the table
  it leaves, or \<open>None\<close> where the server rejects it (which leaves the table as it is).
\<close>

fun run_stmt :: "pgenv \<Rightarrow> sql \<Rightarrow> val list \<Rightarrow> table \<Rightarrow> (val list list \<times> nat \<times> table) option" where
  "run_stmt env (Insert sets cols) args t =
     (let r = insert_row env args sets; t' = t @ [r]
      in if schema_ok t' then Some ([map r cols], 1, t') else None)"
| "run_stmt env (Update sets c) args t =
     (let t' = map (\<lambda>r. if matches env args c r then update_row env args sets r else r) t
      in if schema_ok t' then Some ([], length (filter (matches env args c) t), t') else None)"
| "run_stmt env (Delete c) args t =
     Some ([], length (filter (matches env args c) t), filter (\<lambda>r. \<not> matches env args c r) t)"
| "run_stmt env (Select cols c ord lm off) args t =
     (case (bound_val env args lm, bound_val env args off) of
        (Some l, Some n) \<Rightarrow>
          let rs = slice l n (order_by env ord (filter (matches env args c) (scan env t)))
          in Some (map (\<lambda>r. map r cols) rs, length rs, t)
      | _ \<Rightarrow> None)"
| "run_stmt env (SelectCount c) args t =
     Some ([[VInt (int (length (filter (matches env args c) t)))]], 1, t)"
| "run_stmt env (SelectGroup gs c ord) args t =
     (if group_ok env args gs then
        let rs = order_groups env ord (group_rows env args gs (filter (matches env args c) (scan env t)))
        in Some (rs, length rs, t)
      else None)"

fun casts_sql :: "pgenv \<Rightarrow> val list \<Rightarrow> sql \<Rightarrow> bool" where
  "casts_sql env args (Update _ c) = casts_cond env args c"
| "casts_sql env args (Delete c) = casts_cond env args c"
| "casts_sql env args (Select _ c _ _ _) = casts_cond env args c"
| "casts_sql env args (SelectCount c) = casts_cond env args c"
| "casts_sql env args (SelectGroup _ c _) = casts_cond env args c"
| "casts_sql env args (Insert _ _) = True"

definition run_sql :: "pgenv \<Rightarrow> sql \<Rightarrow> val list \<Rightarrow> table \<Rightarrow> (val list list \<times> nat \<times> table) option" where
  "run_sql env q args t =
     (if np_sql q \<noteq> length args then None
      else case those (map (conv env) args) of
             None \<Rightarrow> None
           | Some as \<Rightarrow> if casts_sql env as q then run_stmt env q as t else None)"

section \<open>Facts\<close>

lemma sql_and_True [simp]: "sql_and a b = Some True \<longleftrightarrow> a = Some True \<and> b = Some True"
  by (cases "(a, b)" rule: sql_and.cases) auto

lemma matches_less [simp]:
  "matches env args (CLt c e) r \<longleftrightarrow> sql_less (r c) (eval_sx env args r e) = Some True"
  "matches env args (CGt c e) r \<longleftrightarrow> sql_less (eval_sx env args r e) (r c) = Some True"
  by (simp_all add: matches_def)

lemma matches_simps [simp]:
  "matches env args CTrue r"
  "matches env args (CEq c e) r \<longleftrightarrow> r c \<noteq> VNull \<and> r c = eval_sx env args r e"
  "matches env args (CAnd a b) r \<longleftrightarrow> matches env args a r \<and> matches env args b r"
  "matches env args (CIsNull c) r \<longleftrightarrow> r c = VNull"
  "matches env args (CIn c vs) r \<longleftrightarrow> r c \<noteq> VNull \<and> r c \<in> set vs"
  by (auto simp: matches_def sql_eq_def)

lemma sql_less_True: "sql_less a b = Some True \<longleftrightarrow>
   (\<exists>x y. a = VTime x \<and> b = VTime y \<and> x < y) \<or> (\<exists>x y. a = VInt x \<and> b = VInt y \<and> x < y)"
  by (cases "(a, b)" rule: sql_less.cases) auto

lemma set_order_by [simp]: "set (order_by env ord rs) = set rs"
  by (auto simp: order_by_def Let_def split: option.split prod.split)

lemma mset_order_by [simp]: "mset (order_by env ord rs) = mset rs"
proof -
  have "mset (filter (\<lambda>r. r c = VNull) rs) + mset (filter (\<lambda>r. r c \<noteq> VNull) rs) = mset rs" for c
    by (simp add: multiset_partition [symmetric])
  then show ?thesis
    by (auto simp: order_by_def Let_def add.commute split: option.split)
qed

lemma length_order_by [simp]: "length (order_by env ord rs) = length rs"
  by (metis mset_order_by size_mset)

lemma those_map_Some [simp]: "those (map Some xs) = Some xs"
  by (simp add: those_Some_iff)

lemma run_sql_Some:
  "run_sql env q args t = Some x \<longleftrightarrow>
     np_sql q = length args \<and>
     (\<exists>as. map (conv env) args = map Some as \<and> casts_sql env as q \<and> run_stmt env q as t = Some x)"
  by (auto simp: run_sql_def those_Some_iff split: option.splits)

lemma run_stmt_schema:
  "run_stmt env q as t = Some (rs, n, t') \<Longrightarrow> schema_ok t \<Longrightarrow> schema_ok t'"
  by (cases q)
     (auto simp: Let_def schema_ok_def list_all_iff distinct_map_filter
           split: if_splits option.splits)

lemma run_sql_schema:
  "run_sql env q args t = Some (rs, n, t') \<Longrightarrow> schema_ok t \<Longrightarrow> schema_ok t'"
  by (auto simp: run_sql_Some intro: run_stmt_schema)

text \<open>Statements that only read.\<close>

fun is_select :: "sql \<Rightarrow> bool" where
  "is_select (Select _ _ _ _ _) = True"
| "is_select (SelectCount _) = True"
| "is_select (SelectGroup _ _ _) = True"
| "is_select _ = False"

lemma run_sql_select:
  "run_sql env q args t = Some (rs, n, t') \<Longrightarrow> is_select q \<Longrightarrow> t' = t"
  by (cases q) (auto simp: run_sql_Some Let_def split: if_splits option.splits)

end
