(* ===== verification/Postgres.thy ===== *)
theory Postgres
  imports Sql
begin

text \<open>
  The PostgreSQL server behind the connection pool (the package \<^verbatim>\<open>pgxpool\<close>): it is a
  parameter of the development.  A pool is a record of the calls the source makes, over a
  server state of any type; the locale \<open>postgres\<close> states what the source relies on.  A
  call may fail at any time, before or after the statement took effect; a row stream may
  break off.  The last section is a server in memory that satisfies the contract: it runs
  the statements on a table and fails where a script says so.
\<close>

record 'd pgxpool =
  Exec :: "sql \<Rightarrow> val list \<Rightarrow> 'd \<Rightarrow> nat result \<times> 'd"
  QueryRow :: "sql \<Rightarrow> val list \<Rightarrow> 'd \<Rightarrow> val list result \<times> 'd"
  Query :: "sql \<Rightarrow> val list \<Rightarrow> 'd \<Rightarrow> (val list list \<times> string option) result \<times> 'd"
  Ping :: "'d \<Rightarrow> string option \<times> 'd"

text \<open>
  The laws.  \<open>tbl\<close> is the table in a server state, \<open>env\<close> what the next statement reads
  of the server, \<open>up\<close> a state from which the server answers every call, now and later.
  \<^item> A call that succeeds ran the statement once; one that fails ran it once or not at all.
  \<^item> \<^verbatim>\<open>QueryRow\<close> delivers the first row; \<^verbatim>\<open>Query\<close> delivers the rows, or only the first
    of them together with the error that \<^verbatim>\<open>rows.Err()\<close> reports.  An error of the execution is
    reported in this way too, not by \<^verbatim>\<open>Query\<close> itself: no row, and the error in \<^verbatim>\<open>rows.Err()\<close>.
  \<^item> A scan visits every row once, in some order.
\<close>

locale postgres =
  fixes P :: "'d pgxpool"
    and tbl :: "'d \<Rightarrow> table"
    and env :: "'d \<Rightarrow> pgenv"
    and up :: "'d \<Rightarrow> bool"
  assumes exec_ok:
      "Exec P q as d = (Inr n, d') \<Longrightarrow> \<exists>rs. run_sql (env d) q as (tbl d) = Some (rs, n, tbl d')"
    and exec_fail:
      "Exec P q as d = (Inl e, d') \<Longrightarrow>
         tbl d' = tbl d \<or> (\<exists>rs n. run_sql (env d) q as (tbl d) = Some (rs, n, tbl d'))"
    and row_ok:
      "QueryRow P q as d = (Inr r, d') \<Longrightarrow>
         \<exists>rs n. run_sql (env d) q as (tbl d) = Some (r # rs, n, tbl d')"
    and row_fail:
      "QueryRow P q as d = (Inl e, d') \<Longrightarrow>
         tbl d' = tbl d \<or> (\<exists>rs n. run_sql (env d) q as (tbl d) = Some (rs, n, tbl d'))"
    and query_ok:
      "Query P q as d = (Inr (rs, None), d') \<Longrightarrow>
         \<exists>n. run_sql (env d) q as (tbl d) = Some (rs, n, tbl d')"
    and query_cut:
      "Query P q as d = (Inr (rs, Some e), d') \<Longrightarrow>
         (\<exists>rs' n. run_sql (env d) q as (tbl d) = Some (rs @ rs', n, tbl d')) \<or>
         (run_sql (env d) q as (tbl d) = None \<and> rs = [] \<and> tbl d' = tbl d)"
    and query_fail:
      "Query P q as d = (Inl e, d') \<Longrightarrow>
         tbl d' = tbl d \<or> (\<exists>rs n. run_sql (env d) q as (tbl d) = Some (rs, n, tbl d'))"
    and ping_tbl: "Ping P d = (x, d') \<Longrightarrow> tbl d' = tbl d"
    and scan_perm: "mset (scan (env d) t) = mset t"
    and up_exec:
      "up d \<Longrightarrow> run_sql (env d) q as (tbl d) = Some (rs, n, t) \<Longrightarrow>
         \<exists>d'. Exec P q as d = (Inr n, d') \<and> up d'"
    and up_row:
      "up d \<Longrightarrow> run_sql (env d) q as (tbl d) = Some (r # rs, n, t) \<Longrightarrow>
         \<exists>d'. QueryRow P q as d = (Inr r, d') \<and> up d'"
    and up_row_none:
      "up d \<Longrightarrow> run_sql (env d) q as (tbl d) = Some ([], n, t) \<Longrightarrow>
         \<exists>e d'. QueryRow P q as d = (Inl e, d') \<and> up d'"
    and up_query:
      "up d \<Longrightarrow> run_sql (env d) q as (tbl d) = Some (rs, n, t) \<Longrightarrow>
         \<exists>d'. Query P q as d = (Inr (rs, None), d') \<and> up d'"
    and up_query_rejected:
      "up d \<Longrightarrow> run_sql (env d) q as (tbl d) = None \<Longrightarrow> np_sql q = length as \<Longrightarrow>
         \<exists>e d'. Query P q as d = (Inr ([], Some e), d') \<and> up d'"
    and up_after_exec: "up d \<Longrightarrow> Exec P q as d = (xe, d') \<Longrightarrow> up d'"
    and up_after_row: "up d \<Longrightarrow> QueryRow P q as d = (xr, d') \<Longrightarrow> up d'"
    and up_after_query: "up d \<Longrightarrow> Query P q as d = (xq, d') \<Longrightarrow> up d'"
    and up_after_ping: "up d \<Longrightarrow> Ping P d = (xp, d') \<Longrightarrow> up d'"
begin

lemma exec_effect:
  assumes "Exec P q as d = (x, d')"
  shows "tbl d' = tbl d \<or> (\<exists>rs n. run_sql (env d) q as (tbl d) = Some (rs, n, tbl d'))"
  using assms exec_ok exec_fail by (cases x) blast+

lemma row_effect:
  assumes "QueryRow P q as d = (x, d')"
  shows "tbl d' = tbl d \<or> (\<exists>rs n. run_sql (env d) q as (tbl d) = Some (rs, n, tbl d'))"
  using assms row_ok row_fail by (cases x) blast+

lemma query_effect:
  assumes "Query P q as d = (x, d')"
  shows "tbl d' = tbl d \<or> (\<exists>rs n. run_sql (env d) q as (tbl d) = Some (rs, n, tbl d'))"
proof (cases x)
  case (Inl e)
  with assms show ?thesis using query_fail by blast
next
  case (Inr y)
  obtain rs eo where "y = (rs, eo)" by (cases y)
  with Inr assms show ?thesis using query_ok query_cut by (cases eo) blast+
qed

lemma query_prefix:
  assumes "Query P q as d = (Inr (rs, eo), d')" "run_sql (env d) q as (tbl d) = Some (all, n, t)"
  shows "\<exists>rs'. all = rs @ rs' \<and> (eo = None \<longrightarrow> rs' = [])"
proof (cases eo)
  case None
  with assms query_ok [of q as d rs d'] show ?thesis by auto
next
  case (Some e)
  with assms query_cut [of q as d rs e d'] show ?thesis by auto
qed

lemma exec_schema: "Exec P q as d = (x, d') \<Longrightarrow> schema_ok (tbl d) \<Longrightarrow> schema_ok (tbl d')"
  using exec_effect run_sql_schema by metis

lemma row_schema: "QueryRow P q as d = (x, d') \<Longrightarrow> schema_ok (tbl d) \<Longrightarrow> schema_ok (tbl d')"
  using row_effect run_sql_schema by metis

lemma query_schema: "Query P q as d = (x, d') \<Longrightarrow> schema_ok (tbl d) \<Longrightarrow> schema_ok (tbl d')"
  using query_effect run_sql_schema by metis

lemma row_select: "QueryRow P q as d = (x, d') \<Longrightarrow> is_select q \<Longrightarrow> tbl d' = tbl d"
  using row_effect run_sql_select by metis

lemma query_select: "Query P q as d = (x, d') \<Longrightarrow> is_select q \<Longrightarrow> tbl d' = tbl d"
  using query_effect run_sql_select by metis

lemma set_scan [simp]: "set (scan (env d) t) = set t"
  using scan_perm mset_eq_setD by blast

end

section \<open>A server in memory\<close>

datatype fault = NoFault | Refuse string | Lose string | Cut nat string

record pgmem =
  m_tbl :: table
  m_clock :: "nat \<Rightarrow> time"
  m_ids :: "nat \<Rightarrow> uuid"
  m_step :: nat
  m_faults :: "fault list"

definition mem_env :: "pgmem \<Rightarrow> pgenv" where
  "mem_env d =
     \<lparr>now_at = m_clock d (m_step d), fresh_id = m_ids d (m_step d), jsonb_in = Some,
      ts_in = (\<lambda>t. t div 1000 * 1000), scan = (\<lambda>t. t), text_rank = (\<lambda>s. int (length s)),
      interval_in = (\<lambda>s. if s = ''1h0m0s'' then Some (3600 * time_Second) else None),
      date_trunc = (\<lambda>u. if u = ''minute''
                        then Some (\<lambda>t. t div (60 * time_Second) * (60 * time_Second)) else None)\<rparr>"

definition mem_fault :: "pgmem \<Rightarrow> fault" where
  "mem_fault d = (case m_faults d of [] \<Rightarrow> NoFault | f # _ \<Rightarrow> f)"

definition mem_next :: "pgmem \<Rightarrow> pgmem" where
  "mem_next d = d\<lparr>m_step := Suc (m_step d), m_faults := tl (m_faults d)\<rparr>"

definition mem_call :: "(val list list \<Rightarrow> nat \<Rightarrow> fault \<Rightarrow> 'a result) \<Rightarrow> sql \<Rightarrow> val list \<Rightarrow> pgmem \<Rightarrow> 'a result \<times> pgmem" where
  "mem_call f q as d =
     (case mem_fault d of
        Refuse e \<Rightarrow> (Inl e, mem_next d)
      | fl \<Rightarrow>
          (case run_sql (mem_env d) q as (m_tbl d) of
             None \<Rightarrow> (Inl ''rejected'', mem_next d)
           | Some (rs, n, t) \<Rightarrow>
               ((case fl of Lose e \<Rightarrow> Inl e | _ \<Rightarrow> f rs n fl), (mem_next d)\<lparr>m_tbl := t\<rparr>)))"

text \<open>A query that is rejected reports its error at the end of the rows.\<close>

definition mem_query :: "sql \<Rightarrow> val list \<Rightarrow> pgmem \<Rightarrow> (val list list \<times> string option) result \<times> pgmem" where
  "mem_query q as d =
     (case mem_fault d of
        Refuse e \<Rightarrow> (Inl e, mem_next d)
      | fl \<Rightarrow>
          (case run_sql (mem_env d) q as (m_tbl d) of
             None \<Rightarrow> (Inr ([], Some ''rejected''), mem_next d)
           | Some (rs, n, t) \<Rightarrow>
               ((case fl of Lose e \<Rightarrow> Inl e | Cut k e \<Rightarrow> Inr (take k rs, Some e) | _ \<Rightarrow> Inr (rs, None)),
                (mem_next d)\<lparr>m_tbl := t\<rparr>)))"

definition mem_pool :: "pgmem pgxpool" where
  "mem_pool =
     \<lparr>Exec = mem_call (\<lambda>rs n fl. Inr n),
      QueryRow = mem_call (\<lambda>rs n fl. case rs of [] \<Rightarrow> Inl ''no rows in result set'' | r # _ \<Rightarrow> Inr r),
      Query = mem_query,
      Ping = (\<lambda>d. (case mem_fault d of NoFault \<Rightarrow> None | _ \<Rightarrow> Some ''ping failed'', mem_next d))\<rparr>"

definition mem_up :: "pgmem \<Rightarrow> bool" where
  "mem_up d \<longleftrightarrow> m_faults d = []"

lemma mem_next_simps [simp]:
  "m_tbl (mem_next d) = m_tbl d" "mem_up d \<Longrightarrow> mem_up (mem_next d)"
  "mem_up ((mem_next d)\<lparr>m_tbl := t\<rparr>) = mem_up (mem_next d)"
  by (simp_all add: mem_next_def mem_up_def)

lemma mem_call_effect:
  "mem_call f q as d = (x, d') \<Longrightarrow>
     m_tbl d' = m_tbl d \<or> (\<exists>rs n. run_sql (mem_env d) q as (m_tbl d) = Some (rs, n, m_tbl d'))"
  by (auto simp: mem_call_def split: fault.splits option.splits)

lemma mem_call_ok:
  "mem_call f q as d = (Inr a, d') \<Longrightarrow>
     \<exists>rs n. run_sql (mem_env d) q as (m_tbl d) = Some (rs, n, m_tbl d') \<and> f rs n (mem_fault d) = Inr a"
  by (auto simp: mem_call_def split: fault.splits option.splits)

lemma mem_call_up:
  "mem_up d \<Longrightarrow> run_sql (mem_env d) q as (m_tbl d) = Some (rs, n, t) \<Longrightarrow>
     mem_call f q as d = (f rs n NoFault, (mem_next d)\<lparr>m_tbl := t\<rparr>)"
  by (simp add: mem_call_def mem_up_def mem_fault_def)

lemma mem_call_stays: "mem_up d \<Longrightarrow> mem_call f q as d = (x, d') \<Longrightarrow> mem_up d'"
  by (auto simp: mem_call_def split: fault.splits option.splits)

interpretation mem: postgres mem_pool m_tbl mem_env mem_up
proof (unfold_locales, goal_cases)
  case (1 q as d n d')
  then show ?case using mem_call_ok by (fastforce simp: mem_pool_def)
next
  case (2 q as d e d')
  then show ?case using mem_call_effect by (fastforce simp: mem_pool_def)
next
  case (3 q as d r d')
  then show ?case using mem_call_ok by (fastforce simp: mem_pool_def split: list.splits)
next
  case (4 q as d e d')
  then show ?case using mem_call_effect by (fastforce simp: mem_pool_def)
next
  case (5 q as d rs d')
  then show ?case by (auto simp: mem_pool_def mem_query_def split: fault.splits option.splits)
next
  case (6 q as d rs e d')
  then show ?case
    by (auto simp: mem_pool_def mem_query_def split: fault.splits option.splits) (metis append_take_drop_id)
next
  case (7 q as d e d')
  then show ?case by (auto simp: mem_pool_def mem_query_def split: fault.splits option.splits)
next
  case (8 d x d')
  then show ?case by (auto simp: mem_pool_def)
next
  case (9 d t)
  show ?case by (simp add: mem_env_def)
next
  case (13 d q as rs n t)
  then show ?case by (auto simp: mem_pool_def mem_query_def mem_up_def mem_fault_def mem_next_def)
next
  case (14 d q as)
  then show ?case by (auto simp: mem_pool_def mem_query_def mem_up_def mem_fault_def mem_next_def)
next
  case (15 d q as x d')
  then show ?case using mem_call_stays by (simp add: mem_pool_def)
next
  case (16 d q as y d')
  then show ?case using mem_call_stays by (simp add: mem_pool_def)
next
  case (17 d q as z d')
  then show ?case by (auto simp: mem_pool_def mem_query_def split: fault.splits option.splits)
next
  case (18 d p d')
  then show ?case by (auto simp: mem_pool_def)
qed (auto simp: mem_pool_def mem_call_up)

end
