(* ===== verification/Redis.thy ===== *)
theory Redis
  imports
    GoStd
    "HOL-Library.Char_ord"
    "HOL-Library.List_Lexorder"
    "HOL-Library.Product_Lexorder"
begin

text \<open>
  The Redis server behind the client package \<^verbatim>\<open>go-redis\<close>: a parameter of the development,
  like the PostgreSQL server.  A client is a record of the calls the source makes, over a
  server state of any type; the locale \<open>redis\<close> states the documented effect of each
  command on the key space (lists and sorted sets) and on the messages published.  A call
  may fail before or after it took effect.  The last section is a server in memory.
\<close>

section \<open>The key space and the commands\<close>

record keyspace =
  lists :: "string \<Rightarrow> string list"
  zsets :: "string \<Rightarrow> (string \<times> int) list"

definition LPUSH :: "string \<Rightarrow> string \<Rightarrow> keyspace \<Rightarrow> keyspace" where
  "LPUSH k v ks = ks\<lparr>lists := (lists ks)(k := v # lists ks k)\<rparr>"

text \<open>\<^verbatim>\<open>BRPOP\<close> takes from the right end of the first of the keys whose list is not empty.\<close>

fun BRPOP :: "string list \<Rightarrow> keyspace \<Rightarrow> (string \<times> string \<times> keyspace) option" where
  "BRPOP [] ks = None"
| "BRPOP (k # keys) ks =
     (if lists ks k = [] then BRPOP keys ks
      else Some (k, last (lists ks k), ks\<lparr>lists := (lists ks)(k := butlast (lists ks k))\<rparr>))"

text \<open>A sorted set has one score per member; adding a member again replaces its score.\<close>

definition ZADD :: "string \<Rightarrow> int \<Rightarrow> string \<Rightarrow> keyspace \<Rightarrow> keyspace" where
  "ZADD k s m ks =
     ks\<lparr>zsets := (zsets ks)(k := (m, s) # filter (\<lambda>p. fst p \<noteq> m) (zsets ks k))\<rparr>"

datatype score_bound = NegInf | Fin int

definition score_bound :: "string \<Rightarrow> score_bound option" where
  "score_bound s =
     (if s = ''-inf'' then Some NegInf
      else case Atoi s of (n, None) \<Rightarrow> Some (Fin (f64_int n)) | _ \<Rightarrow> None)"

fun in_bounds :: "score_bound \<Rightarrow> score_bound \<Rightarrow> int \<Rightarrow> bool" where
  "in_bounds lo hi s =
     ((case lo of NegInf \<Rightarrow> True | Fin l \<Rightarrow> l \<le> s) \<and> (case hi of NegInf \<Rightarrow> False | Fin h \<Rightarrow> s \<le> h))"

text \<open>Members in the order of their scores, equal scores in the order of the bytes.\<close>

definition ZRANGEBYSCORE :: "string \<Rightarrow> string \<Rightarrow> string \<Rightarrow> keyspace \<Rightarrow> string list option" where
  "ZRANGEBYSCORE k lo hi ks =
     (case (score_bound lo, score_bound hi) of
        (Some l, Some h) \<Rightarrow>
          Some (map fst (sort_key (\<lambda>p. (snd p, fst p)) (filter (\<lambda>p. in_bounds l h (snd p)) (zsets ks k))))
      | _ \<Rightarrow> None)"

definition ZREMRANGEBYSCORE :: "string \<Rightarrow> string \<Rightarrow> string \<Rightarrow> keyspace \<Rightarrow> keyspace option" where
  "ZREMRANGEBYSCORE k lo hi ks =
     (case (score_bound lo, score_bound hi) of
        (Some l, Some h) \<Rightarrow>
          Some (ks\<lparr>zsets := (zsets ks)(k := filter (\<lambda>p. \<not> in_bounds l h (snd p)) (zsets ks k))\<rparr>)
      | _ \<Rightarrow> None)"

text \<open>A Lua script over the commands, run atomically: \<open>None\<close> where a command raises.\<close>

type_synonym script = "string list \<Rightarrow> string list \<Rightarrow> keyspace \<Rightarrow> (string list \<times> keyspace) option"

section \<open>The client and its contract\<close>

datatype reply = RNil | RErr string | RVals "string list"

record 'r redis_client =
  LPush :: "string \<Rightarrow> string \<Rightarrow> 'r \<Rightarrow> string option \<times> 'r"
  BRPop :: "duration \<Rightarrow> string list \<Rightarrow> 'r \<Rightarrow> reply \<times> 'r"
  LLen :: "string \<Rightarrow> 'r \<Rightarrow> int result \<times> 'r"
  ZAdd :: "string \<Rightarrow> int \<Rightarrow> string \<Rightarrow> 'r \<Rightarrow> string option \<times> 'r"
  RunScript :: "script \<Rightarrow> string list \<Rightarrow> string list \<Rightarrow> 'r \<Rightarrow> reply \<times> 'r"
  Publish :: "string \<Rightarrow> json \<Rightarrow> 'r \<Rightarrow> string option \<times> 'r"

locale redis =
  fixes C :: "'r redis_client"
    and ks :: "'r \<Rightarrow> keyspace"
    and pub :: "'r \<Rightarrow> (string \<times> json) list"
    and rup :: "'r \<Rightarrow> bool"
  assumes lpush_ok: "LPush C k v r = (None, r') \<Longrightarrow> ks r' = LPUSH k v (ks r)"
    and lpush_fail: "LPush C k v r = (Some e, r') \<Longrightarrow> ks r' = ks r \<or> ks r' = LPUSH k v (ks r)"
    and lpush_pub: "LPush C k v r = (x, r') \<Longrightarrow> pub r' = pub r"
    and brpop_vals: "BRPop C d keys r = (RVals xs, r') \<Longrightarrow>
          \<exists>k v. xs = [k, v] \<and> BRPOP keys (ks r) = Some (k, v, ks r')"
    and brpop_nil: "BRPop C d keys r = (RNil, r') \<Longrightarrow> ks r' = ks r \<and> BRPOP keys (ks r) = None"
    and brpop_fail: "BRPop C d keys r = (RErr e, r') \<Longrightarrow>
          ks r' = ks r \<or> (\<exists>k v. BRPOP keys (ks r) = Some (k, v, ks r'))"
    and brpop_pub: "BRPop C d keys r = (z, r') \<Longrightarrow> pub r' = pub r"
    and llen_ok: "LLen C k r = (Inr n, r') \<Longrightarrow> n = int (length (lists (ks r) k))"
    and llen_ks: "LLen C k r = (y, r') \<Longrightarrow> ks r' = ks r \<and> pub r' = pub r"
    and zadd_ok: "ZAdd C k s m r = (None, r') \<Longrightarrow> ks r' = ZADD k s m (ks r)"
    and zadd_fail: "ZAdd C k s m r = (Some e, r') \<Longrightarrow> ks r' = ks r \<or> ks r' = ZADD k s m (ks r)"
    and zadd_pub: "ZAdd C k s m r = (x, r') \<Longrightarrow> pub r' = pub r"
    and script_vals: "RunScript C f keys argv r = (RVals xs, r') \<Longrightarrow> f keys argv (ks r) = Some (xs, ks r')"
    and script_not_nil: "RunScript C f keys argv r \<noteq> (RNil, r')"
    and script_fail: "RunScript C f keys argv r = (RErr e, r') \<Longrightarrow>
          ks r' = ks r \<or> (\<exists>xs. f keys argv (ks r) = Some (xs, ks r'))"
    and script_pub: "RunScript C f keys argv r = (z, r') \<Longrightarrow> pub r' = pub r"
    and publish_ok: "Publish C ch m' r = (None, r') \<Longrightarrow> pub r' = pub r @ [(ch, m')]"
    and publish_fail: "Publish C ch m' r = (Some e, r') \<Longrightarrow> pub r' = pub r \<or> pub r' = pub r @ [(ch, m')]"
    and publish_ks: "Publish C ch m' r = (x, r') \<Longrightarrow> ks r' = ks r"
    and up_lpush: "rup r \<Longrightarrow> \<exists>r'. LPush C k v r = (None, r') \<and> rup r'"
    and up_brpop: "rup r \<Longrightarrow> BRPOP keys (ks r) = Some (k, v, s') \<Longrightarrow>
          \<exists>r'. BRPop C d keys r = (RVals [k, v], r') \<and> rup r'"
    and up_brpop_nil: "rup r \<Longrightarrow> BRPOP keys (ks r) = None \<Longrightarrow> \<exists>r'. BRPop C d keys r = (RNil, r') \<and> rup r'"
    and up_zadd: "rup r \<Longrightarrow> \<exists>r'. ZAdd C k s m r = (None, r') \<and> rup r'"
    and up_script: "rup r \<Longrightarrow> f keys argv (ks r) = Some (xs, s') \<Longrightarrow>
          \<exists>r'. RunScript C f keys argv r = (RVals xs, r') \<and> rup r'"
    and up_publish: "rup r \<Longrightarrow> \<exists>r'. Publish C ch m' r = (None, r') \<and> rup r'"
    and up_llen: "rup r \<Longrightarrow> \<exists>l r'. LLen C k r = (Inr l, r') \<and> rup r'"
begin

lemma lpush_effect: "LPush C k v r = (x, r') \<Longrightarrow> ks r' = ks r \<or> ks r' = LPUSH k v (ks r)"
  using lpush_ok lpush_fail by (cases x) blast+

lemma zadd_effect: "ZAdd C k s m r = (x, r') \<Longrightarrow> ks r' = ks r \<or> ks r' = ZADD k s m (ks r)"
  using zadd_ok zadd_fail by (cases x) blast+

lemma publish_effect: "Publish C ch m r = (x, r') \<Longrightarrow> pub r' = pub r \<or> pub r' = pub r @ [(ch, m)]"
  using publish_ok publish_fail by (cases x) blast+

lemma brpop_effect:
  "BRPop C d keys r = (x, r') \<Longrightarrow> ks r' = ks r \<or> (\<exists>k v. BRPOP keys (ks r) = Some (k, v, ks r'))"
  using brpop_vals brpop_nil brpop_fail by (cases x) blast+

end

section \<open>Facts about the commands\<close>

lemma LPUSH_simps [simp]:
  "lists (LPUSH k v s) = (lists s)(k := v # lists s k)" "zsets (LPUSH k v s) = zsets s"
  by (simp_all add: LPUSH_def)

lemma ZADD_simps [simp]:
  "lists (ZADD k s m t) = lists t"
  "zsets (ZADD k s m t) = (zsets t)(k := (m, s) # filter (\<lambda>p. fst p \<noteq> m) (zsets t k))"
  by (simp_all add: ZADD_def)

lemma BRPOP_None_iff: "BRPOP keys s = None \<longleftrightarrow> (\<forall>k\<in>set keys. lists s k = [])"
  by (induction keys s rule: BRPOP.induct) auto

lemma BRPOP_SomeD:
  "BRPOP keys s = Some (k, v, s') \<Longrightarrow>
     k \<in> set keys \<and> lists s k \<noteq> [] \<and> v = last (lists s k) \<and>
     s' = s\<lparr>lists := (lists s)(k := butlast (lists s k))\<rparr>"
  by (induction keys s rule: BRPOP.induct) (auto split: if_splits)

lemma score_bound_inf [simp]: "score_bound ''-inf'' = Some NegInf"
  by (simp add: score_bound_def)

lemma fmt_d_not_inf: "fmt_d n \<noteq> ''-inf''"
proof
  assume eq: "fmt_d n = ''-inf''"
  then have "n < 0" using hd_dec [of "nat n"] by (auto simp: fmt_d_def split: if_splits)
  with eq have "dec (nat (- n)) = ''inf''" by (simp add: fmt_d_def)
  then have "CHR ''i'' \<in> set (dec (nat (- n)))" by simp
  then obtain d where "d < 10" "CHR ''i'' = digit d" using dec_digits by blast
  then have "digit_val CHR ''i'' = Some d" by simp
  then show False by (simp add: digit_val_def)
qed

lemma score_bound_fmt_d: "in_int64 n \<Longrightarrow> score_bound (fmt_d n) = Some (Fin (f64_int n))"
  by (simp add: score_bound_def fmt_d_not_inf Atoi_fmt_d)

section \<open>A server in memory\<close>

datatype rfault = ROk | RRefuse string | RLose string

record rmem =
  r_ks :: keyspace
  r_pub :: "(string \<times> json) list"
  r_faults :: "rfault list"

definition rmem_fault :: "rmem \<Rightarrow> rfault" where
  "rmem_fault r = (case r_faults r of [] \<Rightarrow> ROk | f # _ \<Rightarrow> f)"

definition rmem_next :: "rmem \<Rightarrow> rmem" where
  "rmem_next r = r\<lparr>r_faults := tl (r_faults r)\<rparr>"

definition rmem_write :: "(rmem \<Rightarrow> rmem) \<Rightarrow> rmem \<Rightarrow> string option \<times> rmem" where
  "rmem_write f r =
     (case rmem_fault r of
        ROk \<Rightarrow> (None, rmem_next (f r))
      | RRefuse e \<Rightarrow> (Some e, rmem_next r)
      | RLose e \<Rightarrow> (Some e, rmem_next (f r)))"

definition rmem_brpop :: "duration \<Rightarrow> string list \<Rightarrow> rmem \<Rightarrow> reply \<times> rmem" where
  "rmem_brpop d keys r =
     (case (rmem_fault r, BRPOP keys (r_ks r)) of
        (RRefuse e, _) \<Rightarrow> (RErr e, rmem_next r)
      | (RLose e, None) \<Rightarrow> (RErr e, rmem_next r)
      | (RLose e, Some (k, v, s)) \<Rightarrow> (RErr e, (rmem_next r)\<lparr>r_ks := s\<rparr>)
      | (ROk, None) \<Rightarrow> (RNil, rmem_next r)
      | (ROk, Some (k, v, s)) \<Rightarrow> (RVals [k, v], (rmem_next r)\<lparr>r_ks := s\<rparr>))"

definition rmem_script :: "script \<Rightarrow> string list \<Rightarrow> string list \<Rightarrow> rmem \<Rightarrow> reply \<times> rmem" where
  "rmem_script f keys argv r =
     (case (rmem_fault r, f keys argv (r_ks r)) of
        (RRefuse e, _) \<Rightarrow> (RErr e, rmem_next r)
      | (_, None) \<Rightarrow> (RErr ''script failed'', rmem_next r)
      | (RLose e, Some (xs, s)) \<Rightarrow> (RErr e, (rmem_next r)\<lparr>r_ks := s\<rparr>)
      | (ROk, Some (xs, s)) \<Rightarrow> (RVals xs, (rmem_next r)\<lparr>r_ks := s\<rparr>))"

definition rmem_client :: "rmem redis_client" where
  "rmem_client =
     \<lparr>LPush = (\<lambda>k v. rmem_write (\<lambda>r. r\<lparr>r_ks := LPUSH k v (r_ks r)\<rparr>)),
      BRPop = rmem_brpop,
      LLen = (\<lambda>k r. (case rmem_fault r of ROk \<Rightarrow> Inr (int (length (lists (r_ks r) k))) | RRefuse e \<Rightarrow> Inl e
                       | RLose e \<Rightarrow> Inl e, rmem_next r)),
      ZAdd = (\<lambda>k s m. rmem_write (\<lambda>r. r\<lparr>r_ks := ZADD k s m (r_ks r)\<rparr>)),
      RunScript = rmem_script,
      Publish = (\<lambda>ch m. rmem_write (\<lambda>r. r\<lparr>r_pub := r_pub r @ [(ch, m)]\<rparr>))\<rparr>"

definition rmem_up :: "rmem \<Rightarrow> bool" where
  "rmem_up r \<longleftrightarrow> r_faults r = []"

lemmas rmem_defs =
  rmem_client_def rmem_write_def rmem_brpop_def rmem_script_def rmem_next_def rmem_fault_def rmem_up_def

interpretation rmem: redis rmem_client r_ks r_pub rmem_up
  by unfold_locales
     (auto simp: rmem_defs split: rfault.splits option.splits prod.splits list.splits)

end
