(* ===== verification/Metrics.thy ===== *)
theory Metrics
  imports GoStd
begin

text \<open>
  The package \<^verbatim>\<open>metrics\<close> (\<^verbatim>\<open>src/internal/metrics/metrics.go\<close>): the thirteen metrics with
  their kind, name and labels.  The Prometheus client is a third-party package: what the
  program does with a metric is recorded as the list of calls it makes, and \<open>call_ok\<close> is
  the client's documented condition for a call not to panic (as many label values as
  labels, and a method the kind has).  Help texts and histogram buckets are not modelled.
\<close>

datatype metric =
    JobsProcessed | QueueDepth | JobDuration | ActiveWorkers | ErrorsTotal | RetriesTotal
  | SchedulerActive | DBPoolAcquired | DBPoolIdle | DBPoolMax | DBPoolTotal | LeaderStatus
  | LeaderElectionsTotal

datatype metric_kind = CounterVec | GaugeVec | HistogramVec | Gauge

record metric_desc =
  m_kind :: metric_kind
  Namespace :: string
  Subsystem :: string
  Name :: string
  Labels :: "string list"

fun metric_opts :: "metric \<Rightarrow> metric_desc" where
  "metric_opts JobsProcessed =
     \<lparr>m_kind = CounterVec, Namespace = ''goqueue'', Subsystem = [], Name = ''jobs_processed_total'',
      Labels = [''type'', ''status'']\<rparr>"
| "metric_opts QueueDepth =
     \<lparr>m_kind = GaugeVec, Namespace = ''goqueue'', Subsystem = [], Name = ''queue_depth'',
      Labels = [''queue'']\<rparr>"
| "metric_opts JobDuration =
     \<lparr>m_kind = HistogramVec, Namespace = ''goqueue'', Subsystem = [], Name = ''job_duration_seconds'',
      Labels = [''type'']\<rparr>"
| "metric_opts ActiveWorkers =
     \<lparr>m_kind = Gauge, Namespace = ''goqueue'', Subsystem = [], Name = ''active_workers'', Labels = []\<rparr>"
| "metric_opts ErrorsTotal =
     \<lparr>m_kind = CounterVec, Namespace = ''goqueue'', Subsystem = [], Name = ''errors_total'',
      Labels = [''type'']\<rparr>"
| "metric_opts RetriesTotal =
     \<lparr>m_kind = CounterVec, Namespace = ''goqueue'', Subsystem = [], Name = ''retries_total'',
      Labels = [''type'']\<rparr>"
| "metric_opts SchedulerActive =
     \<lparr>m_kind = Gauge, Namespace = ''goqueue'', Subsystem = [], Name = ''scheduler_active'', Labels = []\<rparr>"
| "metric_opts DBPoolAcquired =
     \<lparr>m_kind = Gauge, Namespace = ''goqueue'', Subsystem = ''db_pool'', Name = ''acquired_conns'',
      Labels = []\<rparr>"
| "metric_opts DBPoolIdle =
     \<lparr>m_kind = Gauge, Namespace = ''goqueue'', Subsystem = ''db_pool'', Name = ''idle_conns'',
      Labels = []\<rparr>"
| "metric_opts DBPoolMax =
     \<lparr>m_kind = Gauge, Namespace = ''goqueue'', Subsystem = ''db_pool'', Name = ''max_conns'',
      Labels = []\<rparr>"
| "metric_opts DBPoolTotal =
     \<lparr>m_kind = Gauge, Namespace = ''goqueue'', Subsystem = ''db_pool'', Name = ''total_conns'',
      Labels = []\<rparr>"
| "metric_opts LeaderStatus =
     \<lparr>m_kind = Gauge, Namespace = ''goqueue'', Subsystem = [], Name = ''leader_status'', Labels = []\<rparr>"
| "metric_opts LeaderElectionsTotal =
     \<lparr>m_kind = CounterVec, Namespace = ''goqueue'', Subsystem = [], Name = ''leader_elections_total'',
      Labels = [''result'']\<rparr>"

datatype mop = Inc | Dec | SetTo int | Observe duration

type_synonym metric_call = "metric \<times> string list \<times> mop"

fun op_allowed :: "metric_kind \<Rightarrow> mop \<Rightarrow> bool" where
  "op_allowed CounterVec p = (p = Inc)"
| "op_allowed GaugeVec p = (case p of Observe _ \<Rightarrow> False | _ \<Rightarrow> True)"
| "op_allowed Gauge p = (case p of Observe _ \<Rightarrow> False | _ \<Rightarrow> True)"
| "op_allowed HistogramVec p = (case p of Observe _ \<Rightarrow> True | _ \<Rightarrow> False)"

definition call_ok :: "metric_call \<Rightarrow> bool" where
  "call_ok c =
     (case c of (m, ls, p) \<Rightarrow>
        length ls = length (Labels (metric_opts m)) \<and> op_allowed (m_kind (metric_opts m)) p)"

text \<open>The value of a metric without labels, and a counter per label values, after some calls.\<close>

fun gauge_step :: "metric \<Rightarrow> metric_call \<Rightarrow> int \<Rightarrow> int" where
  "gauge_step m (m', _, p) v =
     (if m' = m then case p of Inc \<Rightarrow> v + 1 | Dec \<Rightarrow> v - 1 | SetTo k \<Rightarrow> k | Observe _ \<Rightarrow> v else v)"

definition gauge :: "metric \<Rightarrow> metric_call list \<Rightarrow> int" where
  "gauge m cs = fold (gauge_step m) cs 0"

definition counter :: "metric \<Rightarrow> string list \<Rightarrow> metric_call list \<Rightarrow> nat" where
  "counter m ls cs = count_list cs (m, ls, Inc)"

lemma gauge_append: "gauge m (xs @ ys) = fold (gauge_step m) ys (gauge m xs)"
  by (simp add: gauge_def)

lemma counter_append: "counter m ls (xs @ ys) = counter m ls xs + counter m ls ys"
  by (simp add: counter_def)

end
