(* ===== verification/World.thy ===== *)
theory World
  imports Postgres Redis Metrics
begin

text \<open>
  The state every operation of the program runs on: the two servers, the readings of the
  clock, the calls made to the metrics, and whether the program's context is cancelled.
  Beside it, what the source uses of third-party packages that have no state
  (\<open>lib\<close>: \<^verbatim>\<open>google/uuid\<close>, and the value an out-of-range float converts to).
\<close>

record ('d, 'r) world =
  db :: 'd
  rds :: 'r
  clk :: "nat \<Rightarrow> time"
  ticks :: nat
  met :: "metric_call list"
  cancelled :: bool

definition db_call :: "('d \<Rightarrow> 'a \<times> 'd) \<Rightarrow> (('d, 'r) world, 'a) state" where
  "db_call f = State (\<lambda>w. case f (db w) of (a, d) \<Rightarrow> (a, w\<lparr>db := d\<rparr>))"

definition rds_call :: "('r \<Rightarrow> 'a \<times> 'r) \<Rightarrow> (('d, 'r) world, 'a) state" where
  "rds_call f = State (\<lambda>w. case f (rds w) of (a, r) \<Rightarrow> (a, w\<lparr>rds := r\<rparr>))"

text \<open>\<^verbatim>\<open>time.Now()\<close>: the next reading of the clock.\<close>

definition time_Now :: "(('d, 'r) world, time) state" where
  "time_Now = State (\<lambda>w. (clk w (ticks w), w\<lparr>ticks := Suc (ticks w)\<rparr>))"

definition metric_do :: "metric \<Rightarrow> string list \<Rightarrow> mop \<Rightarrow> (('d, 'r) world, unit) state" where
  "metric_do m ls p = modify (\<lambda>w. w\<lparr>met := met w @ [(m, ls, p)]\<rparr>)"

lemma run_db_call [run_simps]:
  "run_state (db_call f) w = (case f (db w) of (a, d) \<Rightarrow> (a, w\<lparr>db := d\<rparr>))"
  by (simp add: db_call_def)

lemma run_rds_call [run_simps]:
  "run_state (rds_call f) w = (case f (rds w) of (a, r) \<Rightarrow> (a, w\<lparr>rds := r\<rparr>))"
  by (simp add: rds_call_def)

lemma run_time_Now [run_simps]:
  "run_state time_Now w = (clk w (ticks w), w\<lparr>ticks := Suc (ticks w)\<rparr>)"
  by (simp add: time_Now_def)

lemma run_metric_do [run_simps]:
  "run_state (metric_do m ls p) w = ((), w\<lparr>met := met w @ [(m, ls, p)]\<rparr>)"
  by (simp add: metric_do_def)

section \<open>Packages without state\<close>

record lib =
  uuid_Parse :: "string \<Rightarrow> uuid option"
  uuid_String :: "uuid \<Rightarrow> string"
  float_oob :: int

text \<open>
  The documented behaviour of \<^verbatim>\<open>google/uuid\<close> the program relies on: parsing the text of
  an identifier gives it back, and the empty text is not an identifier.
\<close>

locale uuid_codec =
  fixes L :: lib
  assumes parse_string: "uuid_Parse L (uuid_String L u) = Some u"
    and parse_empty: "uuid_Parse L [] = None"
begin

lemma string_inject: "uuid_String L u = uuid_String L v \<longleftrightarrow> u = v"
  using parse_string by (metis option.inject)

lemma string_nonempty: "uuid_String L u \<noteq> []"
  using parse_string parse_empty by (metis option.distinct(1))

end

section \<open>The canonical text of an identifier\<close>

text \<open>
  An instance: the 36 characters of the canonical form, five groups of lower-case
  hexadecimal digits.  (The package's parser accepts other forms as well.)
\<close>

definition hex_digit :: "nat \<Rightarrow> char" where
  "hex_digit n = (if n < 10 then char_of (48 + n) else char_of (87 + n))"

definition hex_val :: "char \<Rightarrow> nat option" where
  "hex_val c =
     (let k = of_char c :: nat
      in if 48 \<le> k \<and> k \<le> 57 then Some (k - 48) else if 97 \<le> k \<and> k \<le> 102 then Some (k - 87) else None)"

fun to_hex :: "nat \<Rightarrow> nat \<Rightarrow> string" where
  "to_hex 0 n = []"
| "to_hex (Suc k) n = to_hex k (n div 16) @ [hex_digit (n mod 16)]"

fun of_hex :: "nat \<Rightarrow> string \<Rightarrow> nat option" where
  "of_hex n [] = Some n"
| "of_hex n (c # cs) = (case hex_val c of None \<Rightarrow> None | Some d \<Rightarrow> of_hex (n * 16 + d) cs)"

definition canon_String :: "uuid \<Rightarrow> string" where
  "canon_String u =
     (let h = to_hex 32 (unat u)
      in take 8 h @ ''-'' @ take 4 (drop 8 h) @ ''-'' @ take 4 (drop 12 h) @ ''-'' @
         take 4 (drop 16 h) @ ''-'' @ drop 20 h)"

definition canon_Parse :: "string \<Rightarrow> uuid option" where
  "canon_Parse s =
     (let h = take 8 s @ take 4 (drop 9 s) @ take 4 (drop 14 s) @ take 4 (drop 19 s) @ drop 24 s
      in if length s = 36 \<and> s ! 8 = CHR ''-'' \<and> s ! 13 = CHR ''-'' \<and> s ! 18 = CHR ''-'' \<and> s ! 23 = CHR ''-''
         then map_option of_nat (of_hex 0 h) else None)"

definition canon_lib :: lib where
  "canon_lib = \<lparr>uuid_Parse = canon_Parse, uuid_String = canon_String, float_oob = - (2 ^ 63)\<rparr>"

lemma hex_val_digit: "n < 16 \<Longrightarrow> hex_val (hex_digit n) = Some n"
  by (auto simp: hex_val_def hex_digit_def Let_def of_char_of)

lemma length_to_hex [simp]: "length (to_hex k n) = k"
  by (induction k arbitrary: n) auto

lemma of_hex_append:
  "of_hex n (xs @ ys) = (case of_hex n xs of None \<Rightarrow> None | Some m \<Rightarrow> of_hex m ys)"
  by (induction n xs rule: of_hex.induct) (auto split: option.split)

lemma of_hex_to_hex: "n < 16 ^ k \<Longrightarrow> of_hex 0 (to_hex k n) = Some n"
proof (induction k arbitrary: n)
  case 0
  then show ?case by simp
next
  case (Suc k)
  then have "n div 16 < 16 ^ k" by (simp add: less_mult_imp_div_less)
  with Suc.IH have "of_hex 0 (to_hex k (n div 16)) = Some (n div 16)" by blast
  then show ?case by (simp add: of_hex_append hex_val_digit)
qed

lemma canon_groups:
  assumes "length h = 32"
  defines "s \<equiv> take 8 h @ ''-'' @ take 4 (drop 8 h) @ ''-'' @ take 4 (drop 12 h) @ ''-'' @
                take 4 (drop 16 h) @ ''-'' @ drop 20 h"
  shows "length s = 36 \<and> s ! 8 = CHR ''-'' \<and> s ! 13 = CHR ''-'' \<and> s ! 18 = CHR ''-'' \<and> s ! 23 = CHR ''-'' \<and>
         take 8 s @ take 4 (drop 9 s) @ take 4 (drop 14 s) @ take 4 (drop 19 s) @ drop 24 s = h"
proof -
  define a b c d e where "a = take 8 h" and "b = take 4 (drop 8 h)" and "c = take 4 (drop 12 h)"
    and "d = take 4 (drop 16 h)" and "e = drop 20 h"
  note defs = a_def b_def c_def d_def e_def
  have len: "length a = 8" "length b = 4" "length c = 4" "length d = 4" "length e = 12"
    using assms(1) by (simp_all add: defs)
  have h: "h = a @ b @ c @ d @ e"
    using append_take_drop_id [of 4 "drop 16 h"] append_take_drop_id [of 4 "drop 12 h"]
      append_take_drop_id [of 4 "drop 8 h"]
    unfolding defs by simp
  show ?thesis
    unfolding s_def a_def [symmetric] b_def [symmetric] c_def [symmetric] d_def [symmetric] e_def [symmetric]
    using len h by (simp add: nth_append)
qed

lemma canon_parse_string: "canon_Parse (canon_String u) = Some u"
proof -
  have "unat u < 2 ^ LENGTH(128)" by (rule unsigned_less)
  then have "unat u < 16 ^ 32" by simp
  then have "of_hex 0 (to_hex 32 (unat u)) = Some (unat u)" by (rule of_hex_to_hex)
  then show ?thesis
    using canon_groups [of "to_hex 32 (unat u)"] by (simp add: canon_Parse_def canon_String_def Let_def)
qed

interpretation canon: uuid_codec canon_lib
proof
  show "uuid_Parse canon_lib (uuid_String canon_lib u) = Some u" for u
    by (simp add: canon_lib_def canon_parse_string)
  show "uuid_Parse canon_lib [] = None"
    by (simp add: canon_lib_def canon_Parse_def)
qed

end
