(* ===== verification/Leader.thy ===== *)
theory Leader
  imports World
begin

text \<open>
  The package \<^verbatim>\<open>leader\<close> (\<^verbatim>\<open>src/internal/leader/leader.go\<close>): the election of the instance that
  runs the scheduler, by an advisory lock of PostgreSQL.  The dedicated connection is a
  parameter (\<open>pgx\<close>), over the server state of the rest of the development; the locale
  \<open>lock_server\<close> states what the elector relies on.  The loop of \<^verbatim>\<open>Start\<close> is cut at the points
  where it can be overtaken by other goroutines or instances: one attempt, one turn of
  \<^verbatim>\<open>holdLock\<close>, and what follows the return of \<^verbatim>\<open>holdLock\<close>.
\<close>

section \<open>The connection\<close>

text \<open>
  What the source calls of \<^verbatim>\<open>pgx\<close>: connect, the test and the end of a connection, and its two
  queries, \<^verbatim>\<open>SELECT pg_try_advisory_lock($1)\<close> and the count of the advisory locks of the own
  session in \<^verbatim>\<open>pg_locks\<close>.
\<close>

record ('c, 'd) pgx =
  pgx_Connect :: "string \<Rightarrow> 'd \<Rightarrow> 'c result \<times> 'd"
  pgx_IsClosed :: "'c \<Rightarrow> 'd \<Rightarrow> bool"
  pgx_Close :: "'c \<Rightarrow> 'd \<Rightarrow> 'd"
  pgx_try_lock :: "'c \<Rightarrow> int \<Rightarrow> 'd \<Rightarrow> bool result \<times> 'd"
  pgx_lock_count :: "'c \<Rightarrow> int \<Rightarrow> 'd \<Rightarrow> int result \<times> 'd"

definition schedulerLockID :: int where [go_const]: "schedulerLockID = 13377001"

section \<open>The elector\<close>

text \<open>A callback acts on the state \<open>'x\<close> of what it starts and stops; \<open>None\<close> is \<^verbatim>\<open>nil\<close>.\<close>

type_synonym ('x, 'd, 'r) callback = "('x \<Rightarrow> (('d, 'r) world, 'x) state) option"

record ('c, 'x, 'd, 'r) LeaderElector =
  le_connStr :: string
  le_conn :: "'c option"
  le_isLeader :: bool
  onAcquire :: "('x, 'd, 'r) callback"
  onRelease :: "('x, 'd, 'r) callback"
  pollInterval :: duration

definition LeaderElector_New ::
  "string \<Rightarrow> duration \<Rightarrow> ('x, 'd, 'r) callback \<Rightarrow> ('x, 'd, 'r) callback \<Rightarrow> ('c, 'x, 'd, 'r) LeaderElector" where
  "LeaderElector_New cs poll acq rel =
     \<lparr>le_connStr = cs, le_conn = None, le_isLeader = False, onAcquire = acq, onRelease = rel, pollInterval = poll\<rparr>"

definition IsLeader :: "('c, 'x, 'd, 'r) LeaderElector \<Rightarrow> bool" where
  "IsLeader e = le_isLeader e"

definition conn_usable :: "('c, 'd) pgx \<Rightarrow> ('c, 'x, 'd, 'r) LeaderElector \<Rightarrow> 'd \<Rightarrow> 'c option" where
  "conn_usable X e d = (case le_conn e of None \<Rightarrow> None | Some c \<Rightarrow> if pgx_IsClosed X c d then None else Some c)"

text \<open>\<^verbatim>\<open>if e.conn != nil && !e.conn.IsClosed() { e.conn.Close(...); e.conn = nil }\<close>\<close>

definition drop_conn ::
  "('c, 'd) pgx \<Rightarrow> ('c, 'x, 'd, 'r) LeaderElector \<Rightarrow> (('d, 'r) world, ('c, 'x, 'd, 'r) LeaderElector) state" where
  "drop_conn X e =
     do {
       d \<leftarrow> gets db;
       case conn_usable X e d of
         None \<Rightarrow> ret e
       | Some c \<Rightarrow> do { db_call (\<lambda>d. ((), pgx_Close X c d)); ret (e\<lparr>le_conn := None\<rparr>) }
     }"

text \<open>The connection \<^verbatim>\<open>tryAcquire\<close> works on: the one it has, or a new one.\<close>

definition ensure_conn ::
  "('c, 'd) pgx \<Rightarrow> ('c, 'x, 'd, 'r) LeaderElector \<Rightarrow> (('d, 'r) world, 'c result) state" where
  "ensure_conn X e =
     do {
       d \<leftarrow> gets db;
       case conn_usable X e d of
         Some c \<Rightarrow> ret (Inr c)
       | None \<Rightarrow>
           do {
             r \<leftarrow> db_call (pgx_Connect X (le_connStr e));
             ret (case r of Inl m \<Rightarrow> Inl (''connect to postgres: '' @ m) | Inr c \<Rightarrow> Inr c)
           }
     }"

definition tryAcquire ::
  "('c, 'd) pgx \<Rightarrow> ('c, 'x, 'd, 'r) LeaderElector \<Rightarrow>
     (('d, 'r) world, string option \<times> ('c, 'x, 'd, 'r) LeaderElector) state" where
  "tryAcquire X e =
     do {
       r \<leftarrow> ensure_conn X e;
       case r of
         Inl m \<Rightarrow> ret (Some m, e)
       | Inr c \<Rightarrow>
           do {
             a \<leftarrow> db_call (pgx_try_lock X c schedulerLockID);
             case a of
               Inl m \<Rightarrow>
                 do {
                   db_call (\<lambda>d. ((), pgx_Close X c d));
                   ret (Some (''advisory lock query: '' @ m), e\<lparr>le_conn := None\<rparr>)
                 }
             | Inr False \<Rightarrow>
                 do {
                   db_call (\<lambda>d. ((), pgx_Close X c d));
                   ret (Some ''lock not acquired'', e\<lparr>le_conn := None\<rparr>)
                 }
             | Inr True \<Rightarrow> ret (None, e\<lparr>le_conn := Some c\<rparr>)
           }
     }"

text \<open>\<open>None\<close>: the call panics, because there is no connection.\<close>

definition verifyLock ::
  "('c, 'd) pgx \<Rightarrow> ('c, 'x, 'd, 'r) LeaderElector \<Rightarrow> (('d, 'r) world, bool result option) state" where
  "verifyLock X e =
     (case le_conn e of
        None \<Rightarrow> ret None
      | Some c \<Rightarrow>
          do {
            n \<leftarrow> db_call (pgx_lock_count X c schedulerLockID);
            ret (Some (case n of Inl m \<Rightarrow> Inl (''verify lock query: '' @ m) | Inr k \<Rightarrow> Inr (0 < k)))
          })"

text \<open>
  Where the goroutine of \<^verbatim>\<open>Start\<close> is: at the head of its loop, in \<^verbatim>\<open>holdLock\<close>, after the return of
  \<^verbatim>\<open>holdLock\<close>, returned, or ended by a panic.
\<close>

datatype phase = Electing | Holding | Releasing | Returned | Panicked

definition call_back :: "('x, 'd, 'r) callback \<Rightarrow> 'x \<Rightarrow> (('d, 'r) world, 'x) state" where
  "call_back cb x = (case cb of None \<Rightarrow> ret x | Some f \<Rightarrow> f x)"

text \<open>
  From the head of the loop up to \<^verbatim>\<open>holdLock\<close>; after a failed attempt the loop sleeps and starts
  again.
\<close>

definition Start_turn ::
  "('c, 'd) pgx \<Rightarrow> ('c, 'x, 'd, 'r) LeaderElector \<Rightarrow> 'x \<Rightarrow>
     (('d, 'r) world, phase \<times> ('c, 'x, 'd, 'r) LeaderElector \<times> 'x) state" where
  "Start_turn X e x =
     do {
       done \<leftarrow> gets cancelled;
       if done then ret (Returned, e, x)
       else do {
         (err, e') \<leftarrow> tryAcquire X e;
         case err of
           Some _ \<Rightarrow>
             do {
               metric_do LeaderElectionsTotal [''failed''] Inc;
               ret (Electing, e', x)
             }
         | None \<Rightarrow>
             do {
               metric_do LeaderStatus [] (SetTo 1);
               metric_do LeaderElectionsTotal [''acquired''] Inc;
               x' \<leftarrow> call_back (onAcquire e') x;
               ret (Holding, e'\<lparr>le_isLeader := True\<rparr>, x')
             }
       }
     }"

text \<open>The two branches of the \<^verbatim>\<open>select\<close> in \<^verbatim>\<open>holdLock\<close>.\<close>

definition holdLock_done ::
  "('c, 'd) pgx \<Rightarrow> ('c, 'x, 'd, 'r) LeaderElector \<Rightarrow> (('d, 'r) world, phase \<times> ('c, 'x, 'd, 'r) LeaderElector) state" where
  "holdLock_done X e = do { e' \<leftarrow> drop_conn X e; ret (Releasing, e') }"

definition holdLock_tick ::
  "('c, 'd) pgx \<Rightarrow> ('c, 'x, 'd, 'r) LeaderElector \<Rightarrow> (('d, 'r) world, phase \<times> ('c, 'x, 'd, 'r) LeaderElector) state" where
  "holdLock_tick X e =
     do {
       held \<leftarrow> verifyLock X e;
       case held of
         None \<Rightarrow> ret (Panicked, e)
       | Some (Inl _) \<Rightarrow> do { e' \<leftarrow> drop_conn X e; ret (Releasing, e') }
       | Some (Inr False) \<Rightarrow> do { e' \<leftarrow> drop_conn X e; ret (Releasing, e') }
       | Some (Inr True) \<Rightarrow> ret (Holding, e)
     }"

definition Start_release ::
  "('c, 'x, 'd, 'r) LeaderElector \<Rightarrow> 'x \<Rightarrow> (('d, 'r) world, phase \<times> ('c, 'x, 'd, 'r) LeaderElector \<times> 'x) state" where
  "Start_release e x =
     do {
       metric_do LeaderStatus [] (SetTo 0);
       metric_do LeaderElectionsTotal [''lost''] Inc;
       x' \<leftarrow> call_back (onRelease e) x;
       ret (Electing, e\<lparr>le_isLeader := False\<rparr>, x')
     }"

definition elector_Stop ::
  "('c, 'd) pgx \<Rightarrow> ('c, 'x, 'd, 'r) LeaderElector \<Rightarrow> (('d, 'r) world, ('c, 'x, 'd, 'r) LeaderElector) state" where
  "elector_Stop X e =
     do {
       e' \<leftarrow> drop_conn X e;
       metric_do LeaderStatus [] (SetTo 0);
       ret (e'\<lparr>le_isLeader := False\<rparr>)
     }"

section \<open>The contract of the lock\<close>

text \<open>
  \<open>holder d\<close> is the session that has the lock, \<open>used d\<close> the connections handed out so far,
  \<open>lup d\<close> a state in which the server answers.
  \<^item> A connection is new, and connecting takes no lock.
  \<^item> The lock is granted to a session only if no other one has it; a refused attempt means that
    another session has it; an attempt that fails with an error may have been granted.
  \<^item> Closing a connection releases its lock and nothing else.
  \<^item> A session sees its own lock in \<^verbatim>\<open>pg_locks\<close>.
\<close>

locale lock_server =
  fixes X :: "('c, 'd) pgx"
    and holder :: "'d \<Rightarrow> 'c option"
    and used :: "'d \<Rightarrow> 'c set"
    and lup :: "'d \<Rightarrow> bool"
  assumes connect_new:
      "pgx_Connect X s d = (Inr c, d') \<Longrightarrow> c \<notin> used d \<and> used d' = insert c (used d) \<and> holder d' = holder d"
    and connect_err: "pgx_Connect X s d = (Inl m, d') \<Longrightarrow> used d \<subseteq> used d' \<and> holder d' = holder d"
    and try_granted:
      "pgx_try_lock X c schedulerLockID d = (Inr True, d') \<Longrightarrow>
         used d' = used d \<and> (holder d = None \<or> holder d = Some c) \<and> holder d' = Some c"
    and try_refused:
      "pgx_try_lock X c schedulerLockID d = (Inr False, d') \<Longrightarrow>
         used d' = used d \<and> holder d' = holder d \<and> (\<exists>c'. holder d = Some c' \<and> c' \<noteq> c)"
    and try_err:
      "pgx_try_lock X c schedulerLockID d = (Inl m, d') \<Longrightarrow>
         used d' = used d \<and> (holder d' = holder d \<or> holder d = None \<and> holder d' = Some c)"
    and close_releases:
      "used (pgx_Close X c d) = used d \<and> holder (pgx_Close X c d) = (if holder d = Some c then None else holder d)"
    and count_sees:
      "pgx_lock_count X c schedulerLockID d = (r, d') \<Longrightarrow>
         used d' = used d \<and> holder d' = holder d \<and> (\<forall>n. r = Inr n \<longrightarrow> (0 < n) = (holder d = Some c))"
    and holder_used: "holder d = Some c \<Longrightarrow> c \<in> used d"
    and up_connect: "lup d \<Longrightarrow> \<exists>c d'. pgx_Connect X s d = (Inr c, d') \<and> lup d' \<and> \<not> pgx_IsClosed X c d'"
    and up_try:
      "lup d \<Longrightarrow> \<not> pgx_IsClosed X c d \<Longrightarrow>
         \<exists>d'. pgx_try_lock X c schedulerLockID d = (Inr (holder d = None \<or> holder d = Some c), d') \<and> lup d'"
begin

text \<open>What each operation can do to the lock; \<open>e\<close> has a connection only of its own.\<close>

lemma drop_conn_run:
  assumes "run_state (drop_conn X e) w = (e', w')"
  obtains d where "w' = w\<lparr>db := d\<rparr>" "used d = used (db w)" "le_isLeader e' = le_isLeader e"
    "holder d = holder (db w) \<or> holder (db w) = le_conn e \<and> holder d = None"
    "le_conn e' = None \<and> holder d = (if holder (db w) = le_conn e then None else holder (db w)) \<or>
     e' = e \<and> holder d = holder (db w) \<and> conn_usable X e (db w) = None"
    "onAcquire e' = onAcquire e" "onRelease e' = onRelease e"
proof (cases "conn_usable X e (db w)")
  case None
  with assms have "w' = w\<lparr>db := db w\<rparr>" "e' = e" by (simp_all add: drop_conn_def)
  with None show thesis by (intro that [of "db w"]) simp_all
next
  case (Some c)
  then have c: "le_conn e = Some c" by (auto simp: conn_usable_def split: option.splits if_splits)
  from Some assms have "w' = w\<lparr>db := pgx_Close X c (db w)\<rparr>" "e' = e\<lparr>le_conn := None\<rparr>"
    by (auto simp: drop_conn_def run_db_call)
  with c close_releases [of c "db w"] show thesis by (intro that [of "pgx_Close X c (db w)"]) auto
qed

text \<open>An attempt: the lock is won, by a connection that is then held, or left as it was.\<close>

lemma tryAcquire_run:
  assumes "run_state (tryAcquire X e) w = ((err, e'), w')" "\<And>c. le_conn e = Some c \<Longrightarrow> c \<in> used (db w)"
  obtains d where "w' = w\<lparr>db := d\<rparr>" "used (db w) \<subseteq> used d" "le_isLeader e' = le_isLeader e"
    "onAcquire e' = onAcquire e" "onRelease e' = onRelease e"
    "err = None \<Longrightarrow> \<exists>c. le_conn e' = Some c \<and> (holder (db w) = None \<or> holder (db w) = Some c) \<and> holder d = Some c \<and>
                        (c \<notin> used (db w) \<or> le_conn e = Some c)"
    "err \<noteq> None \<Longrightarrow> (holder d = holder (db w) \<or> holder (db w) = le_conn e) \<and> (le_conn e' = None \<or> le_conn e' = le_conn e)"
proof -
  obtain r w1 where 1: "run_state (ensure_conn X e) w = (r, w1)" by force
  obtain d1 where d1: "w1 = w\<lparr>db := d1\<rparr>" "used (db w) \<subseteq> used d1" "holder d1 = holder (db w)"
    "\<And>c. r = Inr c \<Longrightarrow> c \<notin> used (db w) \<or> le_conn e = Some c"
  proof (cases "conn_usable X e (db w)")
    case (Some c)
    then have "le_conn e = Some c" by (auto simp: conn_usable_def split: option.splits if_splits)
    with Some 1 show thesis by (intro that [of "db w"]) (auto simp: ensure_conn_def)
  next
    case None
    obtain y d where y: "pgx_Connect X (le_connStr e) (db w) = (y, d)" by force
    with None 1 have "w1 = w\<lparr>db := d\<rparr>" "r = (case y of Inl m \<Rightarrow> Inl (''connect to postgres: '' @ m) | Inr c \<Rightarrow> Inr c)"
      by (auto simp: ensure_conn_def run_db_call)
    with y connect_new [of "le_connStr e" "db w" _ d] connect_err [of "le_connStr e" "db w" _ d]
    show thesis by (intro that [of d]) (auto split: sum.splits)
  qed
  show thesis
  proof (cases r)
    case (Inl m)
    with assms(1) 1 d1 show thesis by (intro that [of d1]) (auto simp: tryAcquire_def)
  next
    case (Inr c)
    have fresh: "holder (db w) = Some c \<Longrightarrow> le_conn e = Some c"
      using d1(4) [OF Inr] holder_used by blast
    obtain a d2 where a: "pgx_try_lock X c schedulerLockID d1 = (a, d2)" by force
    consider (granted) "a = Inr True" | (refused) "a = Inr False" | (failed) m where "a = Inl m"
      by (cases a) auto
    then show thesis
    proof cases
      case granted
      with assms(1) 1 d1 Inr a fresh try_granted [of c d1 d2] show thesis
        by (intro that [of d2]) (auto simp: tryAcquire_def run_db_call)
    next
      case refused
      with assms(1) 1 d1 Inr a fresh try_refused [of c d1 d2] close_releases [of c d2] show thesis
        by (intro that [of "pgx_Close X c d2"]) (auto simp: tryAcquire_def run_db_call)
    next
      case failed
      with assms(1) 1 d1 Inr a fresh try_err [of c d1 m d2] close_releases [of c d2] show thesis
        by (intro that [of "pgx_Close X c d2"]) (auto simp: tryAcquire_def run_db_call)
    qed
  qed
qed

end

end
