(* ===== verification/Election.thy ===== *)
theory Election
  imports Leader
begin

text \<open>
  Several instances that elect a leader over one server: each has its elector, the place where
  the goroutine of \<^verbatim>\<open>Start\<close> is, what its callbacks act on, and its own metrics and context; they
  share the server.  Their turns interleave in any order.
\<close>

record ('c, 'x, 'd, 'r) node =
  nd_phase :: phase
  nd_el :: "('c, 'x, 'd, 'r) LeaderElector"
  nd_app :: 'x
  nd_w :: "('d, 'r) world"

text \<open>The world of an instance, with the server as it is now.\<close>

definition node_world :: "'d \<Rightarrow> ('c, 'x, 'd, 'r) node \<Rightarrow> ('d, 'r) world" where
  "node_world d n = (nd_w n)\<lparr>db := d\<rparr>"

text \<open>
  The steps of one instance.  The context is cancelled by a signal; \<^verbatim>\<open>main\<close> calls \<^verbatim>\<open>Stop\<close> after
  that, while the goroutine of \<^verbatim>\<open>Start\<close> may still be anywhere.
\<close>

inductive node_step ::
  "('c, 'd) pgx \<Rightarrow> 'd \<times> ('c, 'x, 'd, 'r) node \<Rightarrow> 'd \<times> ('c, 'x, 'd, 'r) node \<Rightarrow> bool" for X where
  attempt:
    "nd_phase n = Electing \<Longrightarrow> run_state (Start_turn X (nd_el n) (nd_app n)) (node_world d n) = ((ph, e, x), w) \<Longrightarrow>
       node_step X (d, n) (db w, \<lparr>nd_phase = ph, nd_el = e, nd_app = x, nd_w = w\<rparr>)"
| hold_done:
    "nd_phase n = Holding \<Longrightarrow> cancelled (nd_w n) \<Longrightarrow>
       run_state (holdLock_done X (nd_el n)) (node_world d n) = ((ph, e), w) \<Longrightarrow>
       node_step X (d, n) (db w, \<lparr>nd_phase = ph, nd_el = e, nd_app = nd_app n, nd_w = w\<rparr>)"
| hold_tick:
    "nd_phase n = Holding \<Longrightarrow> run_state (holdLock_tick X (nd_el n)) (node_world d n) = ((ph, e), w) \<Longrightarrow>
       node_step X (d, n) (db w, \<lparr>nd_phase = ph, nd_el = e, nd_app = nd_app n, nd_w = w\<rparr>)"
| release:
    "nd_phase n = Releasing \<Longrightarrow> run_state (Start_release (nd_el n) (nd_app n)) (node_world d n) = ((ph, e, x), w) \<Longrightarrow>
       node_step X (d, n) (db w, \<lparr>nd_phase = ph, nd_el = e, nd_app = x, nd_w = w\<rparr>)"
| signal: "node_step X (d, n) (d, n\<lparr>nd_w := (nd_w n)\<lparr>cancelled := True\<rparr>\<rparr>)"
| stop:
    "cancelled (nd_w n) \<Longrightarrow> run_state (elector_Stop X (nd_el n)) (node_world d n) = (e, w) \<Longrightarrow>
       node_step X (d, n) (db w, n\<lparr>nd_el := e, nd_w := w\<rparr>)"

text \<open>\<open>E\<close>: what the server does without the electors.\<close>

inductive election_step ::
  "('c, 'd) pgx \<Rightarrow> ('d \<Rightarrow> 'd \<Rightarrow> bool) \<Rightarrow> 'd \<times> (nat \<Rightarrow> ('c, 'x, 'd, 'r) node) \<Rightarrow>
     'd \<times> (nat \<Rightarrow> ('c, 'x, 'd, 'r) node) \<Rightarrow> bool" for X E where
  node: "node_step X (d, ns i) (d', n') \<Longrightarrow> election_step X E (d, ns) (d', ns(i := n'))"
| server: "E d d' \<Longrightarrow> election_step X E (d, ns) (d', ns)"

text \<open>An instance as \<^verbatim>\<open>main\<close> starts it.\<close>

definition node_fresh :: "('c, 'x, 'd, 'r) node \<Rightarrow> bool" where
  "node_fresh n \<longleftrightarrow> nd_phase n = Electing \<and> le_conn (nd_el n) = None \<and> \<not> le_isLeader (nd_el n)"

text \<open>An instance that has been told it is the leader and keeps the lock.\<close>

definition leading :: "('c, 'x, 'd, 'r) node \<Rightarrow> bool" where
  "leading n \<longleftrightarrow> nd_phase n = Holding \<and> IsLeader (nd_el n)"

text \<open>A callback that leaves the lock alone.\<close>

definition cb_ok :: "('d \<Rightarrow> 'c option) \<Rightarrow> ('d \<Rightarrow> 'c set) \<Rightarrow> ('x, 'd, 'r) callback \<Rightarrow> bool" where
  "cb_ok holder used cb \<longleftrightarrow>
     (\<forall>f x w. cb = Some f \<longrightarrow>
        holder (db (exec (f x) w)) = holder (db w) \<and> used (db w) \<subseteq> used (db (exec (f x) w)))"

text \<open>
  What an instance keeps about itself: its connection was handed out by the server, and while it
  leads it has a connection and that connection has the lock.
\<close>

definition node_ok :: "('d \<Rightarrow> 'c option) \<Rightarrow> ('d \<Rightarrow> 'c set) \<Rightarrow> 'd \<Rightarrow> ('c, 'x, 'd, 'r) node \<Rightarrow> bool" where
  "node_ok holder used d n \<longleftrightarrow>
     (\<forall>c. le_conn (nd_el n) = Some c \<longrightarrow> c \<in> used d) \<and>
     (leading n \<longrightarrow> le_conn (nd_el n) \<noteq> None \<and> holder d = le_conn (nd_el n)) \<and>
     cb_ok holder used (onAcquire (nd_el n)) \<and> cb_ok holder used (onRelease (nd_el n))"

text \<open>
  What it guarantees the others: it takes the lock from nobody, releases only its own, and
  connects anew.
\<close>

definition node_guar ::
  "('d \<Rightarrow> 'c option) \<Rightarrow> ('d \<Rightarrow> 'c set) \<Rightarrow> 'd \<Rightarrow> ('c, 'x, 'd, 'r) node \<Rightarrow> 'd \<Rightarrow> ('c, 'x, 'd, 'r) node \<Rightarrow> bool" where
  "node_guar holder used d n d' n' \<longleftrightarrow>
     used d \<subseteq> used d' \<and>
     (holder d' = holder d \<or> holder d = None \<or> holder d = le_conn (nd_el n)) \<and>
     (\<forall>c. le_conn (nd_el n') = Some c \<longrightarrow> c \<notin> used d \<or> le_conn (nd_el n) = Some c)"

definition election_inv :: "('d \<Rightarrow> 'c option) \<Rightarrow> ('d \<Rightarrow> 'c set) \<Rightarrow> 'd \<times> (nat \<Rightarrow> ('c, 'x, 'd, 'r) node) \<Rightarrow> bool" where
  "election_inv holder used s \<longleftrightarrow>
     (\<forall>i. node_ok holder used (fst s) (snd s i)) \<and>
     (\<forall>i j c. le_conn (nd_el (snd s i)) = Some c \<longrightarrow> le_conn (nd_el (snd s j)) = Some c \<longrightarrow> i = j)"

lemma call_back_run:
  assumes "cb_ok holder used cb" "run_state (call_back cb x) w = (x', w')"
  shows "holder (db w') = holder (db w) \<and> used (db w) \<subseteq> used (db w')"
proof (cases cb)
  case None
  with assms(2) show ?thesis by (simp add: call_back_def)
next
  case (Some f)
  with assms(2) have "exec (f x) w = w'" by (simp add: call_back_def exec_eqI)
  with assms(1) Some show ?thesis by (auto simp: cb_ok_def)
qed

context lock_server
begin

lemma attempt_ok:
  assumes "node_ok holder used d n" "nd_phase n = Electing"
    and "run_state (Start_turn X (nd_el n) (nd_app n)) (node_world d n) = ((ph, e, x), w)"
  shows "node_ok holder used (db w) \<lparr>nd_phase = ph, nd_el = e, nd_app = x, nd_w = w\<rparr> \<and>
         node_guar holder used d n (db w) \<lparr>nd_phase = ph, nd_el = e, nd_app = x, nd_w = w\<rparr>"
proof (cases "cancelled (nd_w n)")
  case True
  with assms show ?thesis
    by (auto simp: Start_turn_def node_world_def node_ok_def node_guar_def leading_def)
next
  case False
  obtain err e1 w1 where 1: "run_state (tryAcquire X (nd_el n)) (node_world d n) = ((err, e1), w1)"
    by (metis surj_pair)
  have "c \<in> used (db (node_world d n))" if "le_conn (nd_el n) = Some c" for c
    using assms(1) that by (simp add: node_ok_def node_world_def)
  from tryAcquire_run [OF 1 this] obtain d1 where d1: "w1 = (node_world d n)\<lparr>db := d1\<rparr>" "used d \<subseteq> used d1"
    "onAcquire e1 = onAcquire (nd_el n)" "onRelease e1 = onRelease (nd_el n)"
    "err = None \<Longrightarrow> \<exists>c. le_conn e1 = Some c \<and> (holder d = None \<or> holder d = Some c) \<and> holder d1 = Some c \<and>
                        (c \<notin> used d \<or> le_conn (nd_el n) = Some c)"
    "err \<noteq> None \<Longrightarrow> (holder d1 = holder d \<or> holder d = le_conn (nd_el n)) \<and> (le_conn e1 = None \<or> le_conn e1 = le_conn (nd_el n))"
    by (simp add: node_world_def) metis
  show ?thesis
  proof (cases err)
    case None
    let ?w = "w1\<lparr>met := met w1 @ [(LeaderStatus, [], SetTo 1), (LeaderElectionsTotal, [''acquired''], Inc)]\<rparr>"
    obtain x2 w2 where 2: "run_state (call_back (onAcquire e1) (nd_app n)) ?w = (x2, w2)" by force
    from assms(1) d1(3) have "cb_ok holder used (onAcquire e1)" by (simp add: node_ok_def)
    from call_back_run [OF this 2] d1(1) have "holder (db w2) = holder d1" "used d1 \<subseteq> used (db w2)" by simp_all
    moreover have "ph = Holding" "e = e1\<lparr>le_isLeader := True\<rparr>" "w = w2"
      using assms(3) False 1 2 None by (simp_all add: Start_turn_def node_world_def run_metric_do)
    moreover obtain c where "le_conn e1 = Some c" "holder d = None \<or> holder d = Some c" "holder d1 = Some c"
      "c \<notin> used d \<or> le_conn (nd_el n) = Some c"
      using d1(5) [OF None] by blast
    moreover have "c \<in> used d1" using \<open>holder d1 = Some c\<close> by (rule holder_used)
    ultimately show ?thesis
      using assms(1) d1(2-4) holder_used by (auto simp: node_ok_def node_guar_def leading_def IsLeader_def)
  next
    case (Some m)
    then have "ph = Electing" "e = e1" "db w = d1"
      using assms(3) False 1 d1(1) by (auto simp: Start_turn_def node_world_def run_metric_do)
    with Some d1 assms(1) show ?thesis
      by (auto simp: node_ok_def node_guar_def leading_def)
  qed
qed

lemma drop_ok:
  assumes "node_ok holder used d n" "run_state (drop_conn X (nd_el n)) (node_world d n) = (e, w)" "ph \<noteq> Holding"
  shows "node_ok holder used (db w) \<lparr>nd_phase = ph, nd_el = e, nd_app = x, nd_w = w\<rparr> \<and>
         node_guar holder used d n (db w) \<lparr>nd_phase = ph, nd_el = e, nd_app = x, nd_w = w\<rparr>"
  using drop_conn_run [OF assms(2)] assms(1,3)
  by (cases rule: drop_conn_run [OF assms(2)]) (auto simp: node_ok_def node_guar_def leading_def node_world_def)

lemma tick_ok:
  assumes "node_ok holder used d n" "nd_phase n = Holding"
    and "run_state (holdLock_tick X (nd_el n)) (node_world d n) = ((ph, e), w)"
  shows "node_ok holder used (db w) \<lparr>nd_phase = ph, nd_el = e, nd_app = nd_app n, nd_w = w\<rparr> \<and>
         node_guar holder used d n (db w) \<lparr>nd_phase = ph, nd_el = e, nd_app = nd_app n, nd_w = w\<rparr>"
proof (cases "le_conn (nd_el n)")
  case None
  with assms show ?thesis
    by (auto simp: holdLock_tick_def verifyLock_def node_world_def node_ok_def node_guar_def leading_def)
next
  case (Some c)
  obtain r d1 where 1: "pgx_lock_count X c schedulerLockID d = (r, d1)" by force
  have eq: "used d1 = used d" "holder d1 = holder d" using count_sees [OF 1] by simp_all
  then have n1: "node_ok holder used d1 n" using assms(1) by (simp add: node_ok_def)
  have "(ph = Holding \<and> e = nd_el n \<and> w = node_world d1 n) \<or>
      (ph = Releasing \<and> run_state (drop_conn X (nd_el n)) (node_world d1 n) = (e, w))"
    using assms(3) Some 1
    by (auto simp: holdLock_tick_def verifyLock_def node_world_def run_db_call split: sum.splits bool.splits prod.splits if_splits)
  then show ?thesis
  proof (elim disjE conjE)
    assume "ph = Holding" "e = nd_el n" "w = node_world d1 n"
    with n1 eq assms(2) show ?thesis by (auto simp: node_ok_def node_guar_def leading_def node_world_def)
  next
    assume "ph = Releasing" "run_state (drop_conn X (nd_el n)) (node_world d1 n) = (e, w)"
    from drop_ok [OF n1 this(2), of ph] this(1) eq show ?thesis by (simp add: node_guar_def)
  qed
qed

lemma release_ok:
  assumes "node_ok holder used d n"
    and "run_state (Start_release (nd_el n) (nd_app n)) (node_world d n) = ((ph, e, x), w)"
  shows "node_ok holder used (db w) \<lparr>nd_phase = ph, nd_el = e, nd_app = x, nd_w = w\<rparr> \<and>
         node_guar holder used d n (db w) \<lparr>nd_phase = ph, nd_el = e, nd_app = x, nd_w = w\<rparr>"
proof -
  let ?w = "(node_world d n)\<lparr>met := met (node_world d n) @ [(LeaderStatus, [], SetTo 0), (LeaderElectionsTotal, [''lost''], Inc)]\<rparr>"
  obtain x2 w2 where 2: "run_state (call_back (onRelease (nd_el n)) (nd_app n)) ?w = (x2, w2)" by force
  from assms(1) have "cb_ok holder used (onRelease (nd_el n))" by (simp add: node_ok_def)
  from call_back_run [OF this 2] have "holder (db w2) = holder d" "used d \<subseteq> used (db w2)" by (simp_all add: node_world_def)
  moreover have "ph = Electing" "e = (nd_el n)\<lparr>le_isLeader := False\<rparr>" "w = w2"
    using assms(2) 2 by (simp_all add: Start_release_def run_metric_do)
  ultimately show ?thesis using assms(1) by (auto simp: node_ok_def node_guar_def leading_def)
qed

lemma stop_ok:
  assumes "node_ok holder used d n" "run_state (elector_Stop X (nd_el n)) (node_world d n) = (e, w)"
  shows "node_ok holder used (db w) (n\<lparr>nd_el := e, nd_w := w\<rparr>) \<and> node_guar holder used d n (db w) (n\<lparr>nd_el := e, nd_w := w\<rparr>)"
proof -
  obtain e1 w1 where 1: "run_state (drop_conn X (nd_el n)) (node_world d n) = (e1, w1)" by force
  with assms(2) have "e = e1\<lparr>le_isLeader := False\<rparr>" "db w = db w1" by (auto simp: elector_Stop_def run_metric_do)
  with drop_ok [OF assms(1) 1, of Releasing] show ?thesis
    by (auto simp: node_ok_def node_guar_def leading_def IsLeader_def)
qed

lemma node_step_ok:
  assumes "node_step X (d, n) (d', n')" "node_ok holder used d n"
  shows "node_ok holder used d' n' \<and> node_guar holder used d n d' n'"
  using assms(1)
proof cases
  case (attempt ph e x w)
  then show ?thesis using attempt_ok [OF assms(2)] by blast
next
  case (hold_done ph e w)
  then have "ph = Releasing" "run_state (drop_conn X (nd_el n)) (node_world d n) = (e, w)"
    by (auto simp: holdLock_done_def split: prod.splits)
  with drop_ok [OF assms(2)] hold_done show ?thesis by simp
next
  case (hold_tick ph e w)
  then show ?thesis using tick_ok [OF assms(2)] by blast
next
  case (release ph e x w)
  then show ?thesis using release_ok [OF assms(2)] by blast
next
  case signal
  then show ?thesis using assms(2) by (auto simp: node_ok_def node_guar_def leading_def)
next
  case (stop e w)
  then show ?thesis using stop_ok [OF assms(2)] by blast
qed

text \<open>The others' view of such a step.\<close>

lemma guar_other:
  assumes "node_guar holder used d n d' n'" "node_ok holder used d m"
    and "\<And>c. le_conn (nd_el n) = Some c \<Longrightarrow> le_conn (nd_el m) \<noteq> Some c"
  shows "node_ok holder used d' m"
proof -
  have "holder d' = holder d" if "leading m"
    using assms that unfolding node_ok_def node_guar_def by (metis option.exhaust)
  then show ?thesis using assms(1,2) by (auto simp: node_ok_def node_guar_def)
qed

lemma election_step_inv:
  assumes "\<And>d d'. E d d' \<Longrightarrow> holder d' = holder d \<and> used d \<subseteq> used d'"
    and "election_step X E s s'" "election_inv holder used s"
  shows "election_inv holder used s'"
  using assms(2)
proof cases
  case (node d ns i d' n')
  let ?ns = "ns(i := n')"
  note inv = assms(3) [unfolded election_inv_def]
  have ok: "node_ok holder used d (ns j)" for j using inv node by simp
  note n' = node_step_ok [OF node(3) ok]
  have "node_ok holder used d' (?ns j)" for j
  proof (cases "j = i")
    case False
    have "le_conn (nd_el (ns j)) \<noteq> Some c" if "le_conn (nd_el (ns i)) = Some c" for c
      using inv node(1) that False by auto
    with False guar_other [OF conjunct2 [OF n'] ok [of j]] show ?thesis by simp
  qed (use n' in simp)
  moreover have "j = k" if "le_conn (nd_el (?ns j)) = Some c" "le_conn (nd_el (?ns k)) = Some c" for j k c
  proof -
    have new: "c \<notin> used d \<or> le_conn (nd_el (ns i)) = Some c" if "le_conn (nd_el n') = Some c" for c
      using n' that by (auto simp: node_guar_def)
    have old: "c \<in> used d" if "le_conn (nd_el (ns l)) = Some c" for l c
      using ok [of l] that by (simp add: node_ok_def)
    have dist: "l = m" if "le_conn (nd_el (ns l)) = Some c" "le_conn (nd_el (ns m)) = Some c" for l m c
      using inv node(1) that by auto
    have mixed: False if "le_conn (nd_el n') = Some c" "le_conn (nd_el (ns l)) = Some c" "l \<noteq> i" for l
      using new [OF that(1)] old [OF that(2)] dist [of i c l] that by blast
    show ?thesis
      using that mixed dist [of j c k] by (cases "j = i"; cases "k = i") auto
  qed
  ultimately show ?thesis unfolding node(2) election_inv_def fst_conv snd_conv by blast
next
  case (server d d' ns)
  with assms(1) [of d d'] assms(3) show ?thesis by (auto simp: election_inv_def node_ok_def)
qed

lemma election_start_inv:
  assumes "\<And>i. node_fresh (ns i)" "\<And>i. cb_ok holder used (onAcquire (nd_el (ns i))) \<and> cb_ok holder used (onRelease (nd_el (ns i)))"
  shows "election_inv holder used (d, ns)"
  using assms by (auto simp: election_inv_def node_ok_def node_fresh_def leading_def)

lemma election_reach_inv:
  assumes "\<And>d d'. E d d' \<Longrightarrow> holder d' = holder d \<and> used d \<subseteq> used d'"
    and "(election_step X E)\<^sup>*\<^sup>* s s'" "election_inv holder used s"
  shows "election_inv holder used s'"
  using assms(2,3) by (induction rule: rtranclp_induct) (auto intro: election_step_inv [OF assms(1)])

lemma leading_unique:
  assumes "election_inv holder used (d, ns)" "leading (ns i)" "leading (ns j)"
  shows "i = j"
  using assms unfolding election_inv_def node_ok_def by (metis fst_conv not_None_eq snd_conv)

end

end
