(* ===== verification/Storage.thy ===== *)
theory Storage
  imports World
begin

text \<open>
  The package \<^verbatim>\<open>storage\<close> (\<^verbatim>\<open>src/internal/storage/postgres.go\<close>): one definition per method
  of \<^verbatim>\<open>PostgresStorage\<close>, each sending the statement of the source to the pool it holds and
  scanning what comes back.
\<close>

record ListFilter =
  f_Status :: string
  f_Queue :: string
  f_Type :: string
  Page :: int
  Limit :: int

record QueueStat =
  qs_Queue :: string
  qs_Status :: string
  qs_Count :: int

record TimeSeriesStat =
  ts_Bucket :: time
  ts_Status :: string
  ts_Count :: int

record 'd PostgresStorage =
  pool :: "'d pgxpool"
  connStr :: string

section \<open>Arguments and columns\<close>

definition time_val :: "time option \<Rightarrow> val" where
  "time_val t = (case t of None \<Rightarrow> VNull | Some x \<Rightarrow> VTime x)"

definition payload_val :: "json option \<Rightarrow> val" where
  "payload_val p = (case p of None \<Rightarrow> VNull | Some j \<Rightarrow> VJson j)"

text \<open>
  Scanning a column into a Go variable: a null goes only into a pointer, a value only into a
  variable of its type.
\<close>

definition scan_uuid :: "val \<Rightarrow> uuid option" where
  "scan_uuid v = (case v of VUuid u \<Rightarrow> Some u | _ \<Rightarrow> None)"

definition scan_text :: "val \<Rightarrow> string option" where
  "scan_text v = (case v of VText s \<Rightarrow> Some s | _ \<Rightarrow> None)"

definition scan_int :: "val \<Rightarrow> int option" where
  "scan_int v = (case v of VInt n \<Rightarrow> Some n | _ \<Rightarrow> None)"

definition scan_time :: "val \<Rightarrow> time option" where
  "scan_time v = (case v of VTime t \<Rightarrow> Some t | _ \<Rightarrow> None)"

definition scan_time_ptr :: "val \<Rightarrow> time option option" where
  "scan_time_ptr v = (case v of VNull \<Rightarrow> Some None | VTime t \<Rightarrow> Some (Some t) | _ \<Rightarrow> None)"

definition scan_json :: "val \<Rightarrow> json option option" where
  "scan_json v = (case v of VNull \<Rightarrow> Some None | VJson j \<Rightarrow> Some (Some j) | _ \<Rightarrow> None)"

definition scan_cols :: "val list \<Rightarrow> Job option" where
  "scan_cols vs =
     (case vs of
        [v_id, v_queue, v_type, v_payload, v_status, v_max, v_retry, v_run, v_start, v_done, v_error,
         v_created, v_updated] \<Rightarrow>
          do {
            j_id \<leftarrow> scan_uuid v_id;
            j_queue \<leftarrow> scan_text v_queue;
            j_type \<leftarrow> scan_text v_type;
            j_payload \<leftarrow> scan_json v_payload;
            j_status \<leftarrow> scan_text v_status;
            j_max \<leftarrow> scan_int v_max;
            j_retry \<leftarrow> scan_int v_retry;
            j_run \<leftarrow> scan_time_ptr v_run;
            j_start \<leftarrow> scan_time_ptr v_start;
            j_done \<leftarrow> scan_time_ptr v_done;
            j_error \<leftarrow> scan_text v_error;
            j_created \<leftarrow> scan_time v_created;
            j_updated \<leftarrow> scan_time v_updated;
            Some \<lparr>ID = j_id, Queue = j_queue, Type = j_type, Payload = j_payload, Status = j_status,
                  MaxRetries = j_max, RetryCount = j_retry, RunAt = j_run, StartedAt = j_start,
                  CompletedAt = j_done, Error = j_error, CreatedAt = j_created, UpdatedAt = j_updated\<rparr>
          }
      | _ \<Rightarrow> None)"

definition scanJob :: "val list result \<Rightarrow> Job result" where
  "scanJob row =
     (case row of
        Inl e \<Rightarrow> Inl (''scan job: '' @ e)
      | Inr vs \<Rightarrow> (case scan_cols vs of None \<Rightarrow> Inl ''scan job: cannot scan'' | Some j \<Rightarrow> Inr j))"

definition scanJobFromRows :: "val list \<Rightarrow> Job result" where
  "scanJobFromRows vs =
     (case scan_cols vs of None \<Rightarrow> Inl ''scan job row: cannot scan'' | Some j \<Rightarrow> Inr j)"

text \<open>The loop \<^verbatim>\<open>for rows.Next()\<close> of the methods that return jobs.\<close>

fun scan_rows :: "val list list \<Rightarrow> Job list \<Rightarrow> Job list result" where
  "scan_rows [] jobs = Inr jobs"
| "scan_rows (r # rs) jobs =
     (case scanJobFromRows r of Inl e \<Rightarrow> Inl e | Inr j \<Rightarrow> scan_rows rs (jobs @ [j]))"

section \<open>The methods\<close>

definition insert_job_sql :: sql where
  "insert_job_sql =
     Insert [(C_queue, Param 1), (C_type, Param 2), (C_payload, Param 3), (C_status, Param 4),
             (C_max_retries, Param 5), (C_retry_count, Param 6), (C_run_at, Param 7)]
            jobs_columns"

definition CreateJob :: "'d PostgresStorage \<Rightarrow> Job \<Rightarrow> (('d, 'r) world, Job result) state" where
  "CreateJob s job =
     do {
       row \<leftarrow> db_call (QueryRow (pool s) insert_job_sql
                 [VText (Queue job), VText (Type job), payload_val (Payload job), VText (Status job),
                  VInt (MaxRetries job), VInt (RetryCount job), time_val (RunAt job)]);
       ret (scanJob row)
     }"

definition select_job_sql :: sql where
  "select_job_sql = Select jobs_columns (CEq C_id (Param 1)) None None None"

definition GetJob :: "'d PostgresStorage \<Rightarrow> uuid \<Rightarrow> (('d, 'r) world, Job result) state" where
  "GetJob s jid =
     do {
       row \<leftarrow> db_call (QueryRow (pool s) select_job_sql [VUuid jid]);
       ret (scanJob row)
     }"

definition update_status_sql :: sql where
  "update_status_sql =
     Update [(C_status, Param 1), (C_started_at, Coalesce (Param 2) (Col C_started_at)),
             (C_completed_at, Coalesce (Param 3) (Col C_completed_at)), (C_updated_at, Now)]
            (CEq C_id (Param 4))"

definition UpdateJobStatus :: "'d PostgresStorage \<Rightarrow> uuid \<Rightarrow> JobStatus \<Rightarrow> (('d, 'r) world, string option) state" where
  "UpdateJobStatus s jid status =
     do {
       now \<leftarrow> time_Now;
       let startedAt = (if status = StatusRunning then Some now else None);
       let completedAt = (if status = StatusRunning then None
                          else if status = StatusCompleted then Some now else None);
       r \<leftarrow> db_call (Exec (pool s) update_status_sql
                [VText status, time_val startedAt, time_val completedAt, VUuid jid]);
       ret (case r of Inl e \<Rightarrow> Some (''update job status: '' @ e) | Inr _ \<Rightarrow> None)
     }"

definition update_error_sql :: sql where
  "update_error_sql =
     Update [(C_status, Param 1), (C_retry_count, Param 2), (C_error, Param 3), (C_updated_at, Now)]
            (CEq C_id (Param 4))"

definition UpdateJobError :: "'d PostgresStorage \<Rightarrow> uuid \<Rightarrow> JobStatus \<Rightarrow> int \<Rightarrow> string \<Rightarrow> (('d, 'r) world, string option) state" where
  "UpdateJobError s jid status retryCount jobErr =
     do {
       r \<leftarrow> db_call (Exec (pool s) update_error_sql
                [VText status, VInt retryCount, VText jobErr, VUuid jid]);
       ret (case r of Inl e \<Rightarrow> Some (''update job error: '' @ e) | Inr _ \<Rightarrow> None)
     }"

text \<open>
  The condition of \<^verbatim>\<open>ListJobs\<close> grows with the filter: each conjunct takes the next
  placeholder and appends its argument.
\<close>

definition where_start :: "scond \<times> val list \<times> nat" where
  "where_start = (CTrue, [], 1)"

definition where_and :: "column \<Rightarrow> string \<Rightarrow> scond \<times> val list \<times> nat \<Rightarrow> scond \<times> val list \<times> nat" where
  "where_and c v st =
     (case st of (cond, args, argIdx) \<Rightarrow>
        if v \<noteq> '''' then (CAnd cond (CEq c (Param argIdx)), args @ [VText v], argIdx + 1) else st)"

definition list_where :: "ListFilter \<Rightarrow> scond \<times> val list \<times> nat" where
  "list_where f =
     where_and C_type (f_Type f) (where_and C_queue (f_Queue f) (where_and C_status (f_Status f) where_start))"

definition list_page :: "ListFilter \<Rightarrow> ListFilter" where
  "list_page f =
     (let f1 = (if Page f < 1 then f\<lparr>Page := 1\<rparr> else f)
      in if Limit f1 < 1 then f1\<lparr>Limit := 20\<rparr> else f1)"

definition list_offset :: "ListFilter \<Rightarrow> int" where
  "list_offset f = wrap64 (wrap64 (Page f - 1) * Limit f)"

definition list_sql :: "scond \<Rightarrow> nat \<Rightarrow> sql" where
  "list_sql cond argIdx =
     Select jobs_columns cond (Some (C_created_at, False)) (Some (Param argIdx)) (Some (Param (argIdx + 1)))"

definition ListJobs :: "'d PostgresStorage \<Rightarrow> ListFilter \<Rightarrow> (('d, 'r) world, (Job list \<times> int) result) state" where
  "ListJobs s f =
     (case list_where f of (cond, args, argIdx) \<Rightarrow>
        do {
          t \<leftarrow> db_call (QueryRow (pool s) (SelectCount cond) args);
          case t of
            Inl e \<Rightarrow> ret (Inl (''count jobs: '' @ e))
          | Inr [VInt tot] \<Rightarrow>
              (let f1 = list_page f
               in do {
                 rows \<leftarrow> db_call (Query (pool s) (list_sql cond argIdx)
                            (args @ [VInt (Limit f1), VInt (list_offset f1)]));
                 ret (case rows of
                        Inl e \<Rightarrow> Inl (''list jobs: '' @ e)
                      | Inr (rs, _) \<Rightarrow>
                          (case scan_rows rs [] of Inl e \<Rightarrow> Inl e | Inr jobs \<Rightarrow> Inr (jobs, tot)))
               })
          | Inr _ \<Rightarrow> ret (Inl ''count jobs: cannot scan'')
        })"

definition jobs_query :: "string \<Rightarrow> 'd PostgresStorage \<Rightarrow> sql \<Rightarrow> val list \<Rightarrow> (('d, 'r) world, Job list result) state" where
  "jobs_query what s q args =
     do {
       rows \<leftarrow> db_call (Query (pool s) q args);
       ret (case rows of Inl e \<Rightarrow> Inl (what @ e) | Inr (rs, _) \<Rightarrow> scan_rows rs [])
     }"

definition pending_unqueued_sql :: sql where
  "pending_unqueued_sql =
     Select jobs_columns
       (CAnd (CAnd (CEq C_status (Lit (VText ''pending''))) (CIsNull C_run_at)) (CLt C_created_at (Param 1)))
       (Some (C_created_at, True)) (Some (Lit (VInt 100))) None"

definition GetPendingUnqueued :: "'d PostgresStorage \<Rightarrow> duration \<Rightarrow> (('d, 'r) world, Job list result) state" where
  "GetPendingUnqueued s olderThan =
     do {
       now \<leftarrow> time_Now;
       jobs_query ''get pending unqueued: '' s pending_unqueued_sql [VTime (Add now (wrap64 (- olderThan)))]
     }"

definition stale_running_sql :: sql where
  "stale_running_sql =
     Select jobs_columns
       (CAnd (CEq C_status (Lit (VText ''running''))) (CLt C_started_at (Param 1)))
       (Some (C_started_at, True)) (Some (Lit (VInt 100))) None"

definition GetStaleRunningJobs :: "'d PostgresStorage \<Rightarrow> duration \<Rightarrow> (('d, 'r) world, Job list result) state" where
  "GetStaleRunningJobs s timeout =
     do {
       now \<leftarrow> time_Now;
       jobs_query ''get stale running jobs: '' s stale_running_sql [VTime (Add now (wrap64 (-2 * timeout)))]
     }"

definition scan_stat :: "val list \<Rightarrow> QueueStat option" where
  "scan_stat vs =
     (case vs of
        [q, st, n] \<Rightarrow>
          do { a \<leftarrow> scan_text q; b \<leftarrow> scan_text st; k \<leftarrow> scan_int n;
               Some \<lparr>qs_Queue = a, qs_Status = b, qs_Count = k\<rparr> }
      | _ \<Rightarrow> None)"

fun scan_stats :: "val list list \<Rightarrow> QueueStat list \<Rightarrow> QueueStat list result" where
  "scan_stats [] stats = Inr stats"
| "scan_stats (r # rs) stats =
     (case scan_stat r of None \<Rightarrow> Inl ''cannot scan'' | Some q \<Rightarrow> scan_stats rs (stats @ [q]))"

definition GetQueueStats :: "'d PostgresStorage \<Rightarrow> (('d, 'r) world, QueueStat list result) state" where
  "GetQueueStats s =
     do {
       rows \<leftarrow> db_call (Query (pool s) (SelectGroup [GCol C_queue, GCol C_status] CTrue (Some 0)) []);
       ret (case rows of Inl e \<Rightarrow> Inl (''get queue stats: '' @ e) | Inr (rs, _) \<Rightarrow> scan_stats rs [])
     }"

definition GetQueueStatsByName :: "'d PostgresStorage \<Rightarrow> string \<Rightarrow> (('d, 'r) world, QueueStat list result) state" where
  "GetQueueStatsByName s queueName =
     do {
       rows \<leftarrow> db_call (Query (pool s)
                  (SelectGroup [GCol C_queue, GCol C_status] (CEq C_queue (Param 1)) None) [VText queueName]);
       ret (case rows of Inl e \<Rightarrow> Inl (''get queue stats by name: '' @ e) | Inr (rs, _) \<Rightarrow> scan_stats rs [])
     }"

definition time_series_sql :: sql where
  "time_series_sql =
     SelectGroup [GTrunc (Param 1) C_updated_at, GCol C_status]
       (CAnd (CGt C_updated_at (Ago (Param 2)))
             (CIn C_status [VText ''completed'', VText ''failed'', VText ''dead'']))
       (Some 0)"

definition scan_ts :: "val list \<Rightarrow> TimeSeriesStat option" where
  "scan_ts vs =
     (case vs of
        [b, st, n] \<Rightarrow>
          do { t \<leftarrow> scan_time b; a \<leftarrow> scan_text st; k \<leftarrow> scan_int n;
               Some \<lparr>ts_Bucket = t, ts_Status = a, ts_Count = k\<rparr> }
      | _ \<Rightarrow> None)"

fun scan_tss :: "val list list \<Rightarrow> TimeSeriesStat list \<Rightarrow> TimeSeriesStat list result" where
  "scan_tss [] stats = Inr stats"
| "scan_tss (r # rs) stats =
     (case scan_ts r of None \<Rightarrow> Inl ''scan time series: cannot scan'' | Some q \<Rightarrow> scan_tss rs (stats @ [q]))"

text \<open>The only method that reports the error a row stream ended with (\<^verbatim>\<open>rows.Err()\<close>).\<close>

definition GetTimeSeries :: "'d PostgresStorage \<Rightarrow> duration \<Rightarrow> string \<Rightarrow> (('d, 'r) world, TimeSeriesStat list result) state" where
  "GetTimeSeries s d interval =
     do {
       rows \<leftarrow> db_call (Query (pool s) time_series_sql [VText interval, VText (Duration_String d)]);
       ret (case rows of
              Inl e \<Rightarrow> Inl (''get time series: '' @ e)
            | Inr (rs, eo) \<Rightarrow>
                (case scan_tss rs [] of
                   Inl e \<Rightarrow> Inl e
                 | Inr stats \<Rightarrow> (case eo of Some e \<Rightarrow> Inl e | None \<Rightarrow> Inr stats)))
     }"

definition delete_job_sql :: sql where
  "delete_job_sql = Delete (CAnd (CEq C_id (Param 1)) (CEq C_status (Lit (VText ''dead''))))"

definition DeleteJob :: "'d PostgresStorage \<Rightarrow> uuid \<Rightarrow> (('d, 'r) world, string option) state" where
  "DeleteJob s jid =
     do {
       r \<leftarrow> db_call (Exec (pool s) delete_job_sql [VUuid jid]);
       ret (case r of
              Inl e \<Rightarrow> Some (''delete job: '' @ e)
            | Inr n \<Rightarrow> if n = 0 then Some ''job not found or not in dead status'' else None)
     }"

end
