(* ===== verification/StoreLaws.thy ===== *)
theory StoreLaws
  imports Storage
begin

text \<open>
  What the storage package promises at the level of jobs, and the proof that its statements
  keep the promise.  A table that satisfies the constraints of the migration is the list of
  rows of a list of jobs (\<open>row_of\<close>, \<open>job_of\<close>); every statement is computed on that list.
  The locale \<open>job_store\<close> is the contract the clients of the package rely on, the locale
  \<open>storage\<close> is the package over a PostgreSQL server, and the \<^theory_text>\<open>sublocale\<close> is
  the refinement.
\<close>

section \<open>Rows and jobs\<close>

fun row_of :: "Job \<Rightarrow> row" where
  "row_of j C_id = VUuid (ID j)"
| "row_of j C_queue = VText (Queue j)"
| "row_of j C_type = VText (Type j)"
| "row_of j C_payload = payload_val (Payload j)"
| "row_of j C_status = VText (Status j)"
| "row_of j C_max_retries = VInt (MaxRetries j)"
| "row_of j C_retry_count = VInt (RetryCount j)"
| "row_of j C_run_at = time_val (RunAt j)"
| "row_of j C_started_at = time_val (StartedAt j)"
| "row_of j C_completed_at = time_val (CompletedAt j)"
| "row_of j C_error = VText (Error j)"
| "row_of j C_created_at = VTime (CreatedAt j)"
| "row_of j C_updated_at = VTime (UpdatedAt j)"

definition job_of :: "row \<Rightarrow> Job" where
  "job_of r = the (scan_cols (map r jobs_columns))"

definition job_ok :: "Job \<Rightarrow> bool" where
  "job_ok j \<longleftrightarrow>
     utf8_length (Queue j) \<le> 255 \<and> utf8_length (Type j) \<le> 255 \<and> Payload j \<noteq> None \<and>
     utf8_length (Status j) \<le> 20 \<and> in_int4 (MaxRetries j) \<and> in_int4 (RetryCount j)"

definition jobs_ok :: "Job list \<Rightarrow> bool" where
  "jobs_ok js \<longleftrightarrow> list_all job_ok js \<and> distinct (map ID js)"

definition look :: "Job list \<Rightarrow> uuid \<rightharpoonup> Job" where
  "look js i = find (\<lambda>j. ID j = i) js"

definition upd_job :: "uuid \<Rightarrow> (Job \<Rightarrow> Job) \<Rightarrow> Job list \<Rightarrow> Job list" where
  "upd_job i f js = map (\<lambda>j. if ID j = i then f j else j) js"

definition set_status :: "JobStatus \<Rightarrow> time \<Rightarrow> time \<Rightarrow> Job \<Rightarrow> Job" where
  "set_status st now upd j =
     j\<lparr>Status := st,
       StartedAt := (if st = StatusRunning then Some now else StartedAt j),
       CompletedAt := (if st = StatusCompleted then Some now else CompletedAt j),
       UpdatedAt := upd\<rparr>"

definition set_error :: "JobStatus \<Rightarrow> int \<Rightarrow> string \<Rightarrow> time \<Rightarrow> Job \<Rightarrow> Job" where
  "set_error st rc e upd j = j\<lparr>Status := st, RetryCount := rc, Error := e, UpdatedAt := upd\<rparr>"

lemma time_val_simps [simp]:
  "scan_time_ptr (time_val t) = Some t" "time_val t = VNull \<longleftrightarrow> t = None"
  "time_val None = VNull" "time_val (Some x) = VTime x"
  by (simp_all add: time_val_def scan_time_ptr_def split: option.split)

lemma payload_val_simps [simp]: "scan_json (payload_val p) = Some p"
  by (simp add: payload_val_def scan_json_def split: option.split)

lemma scan_simps [simp]:
  "scan_uuid (VUuid u) = Some u" "scan_text (VText s) = Some s" "scan_int (VInt n) = Some n"
  "scan_time (VTime t) = Some t"
  by (simp_all add: scan_uuid_def scan_text_def scan_int_def scan_time_def)

lemma scan_row_of [simp]: "scan_cols (map (row_of j) jobs_columns) = Some j"
  by (simp add: scan_cols_def jobs_columns_def)

lemma job_of_row_of [simp]: "job_of (row_of j) = j"
  by (simp add: job_of_def)

lemma row_ok_row_of: "row_ok (row_of j) \<longleftrightarrow> job_ok j"
  by (auto simp: row_ok_def job_ok_def jobs_columns_def time_val_def payload_val_def
           split: option.split)

lemma row_ok_columns: "row_ok r \<Longrightarrow> col_accepts c (r c)"
  by (cases c) (simp_all add: row_ok_def jobs_columns_def)

lemma row_of_job_of:
  assumes "row_ok r"
  shows "row_of (job_of r) = r"
proof -
  have "\<exists>j. r = row_of j"
  proof -
    note acc = row_ok_columns [OF assms]
    obtain u q ty p st mr rc e cr up' where
      v: "r C_id = VUuid u" "r C_queue = VText q" "r C_type = VText ty" "r C_payload = VJson p"
      "r C_status = VText st" "r C_max_retries = VInt mr" "r C_retry_count = VInt rc"
      "r C_error = VText e" "r C_created_at = VTime cr" "r C_updated_at = VTime up'"
      using acc [of C_id] acc [of C_queue] acc [of C_type] acc [of C_payload] acc [of C_status]
        acc [of C_max_retries] acc [of C_retry_count] acc [of C_error] acc [of C_created_at]
        acc [of C_updated_at]
      by (simp split: val.splits)
    obtain ra sa ca where
      t: "r C_run_at = time_val ra" "r C_started_at = time_val sa" "r C_completed_at = time_val ca"
      using acc [of C_run_at] acc [of C_started_at] acc [of C_completed_at]
      by (simp split: val.splits) (metis time_val_simps(3,4))+
    have "r c = row_of \<lparr>ID = u, Queue = q, Type = ty, Payload = Some p, Status = st, MaxRetries = mr,
            RetryCount = rc, RunAt = ra, StartedAt = sa, CompletedAt = ca, Error = e, CreatedAt = cr,
            UpdatedAt = up'\<rparr> c" for c
      by (cases c) (simp_all add: v t payload_val_def)
    then show ?thesis by blast
  qed
  then show ?thesis by auto
qed

lemma row_of_inject [simp]: "row_of j = row_of k \<longleftrightarrow> j = k"
  by (metis job_of_row_of)

lemma schema_ok_rows: "schema_ok (map row_of js) \<longleftrightarrow> jobs_ok js"
proof -
  have "distinct (map (\<lambda>r. r C_id) (map row_of js)) = distinct (map VUuid (map ID js))"
    by (simp add: comp_def)
  also have "\<dots> = distinct (map ID js)"
    by (subst distinct_map) (simp add: inj_on_def)
  finally show ?thesis
    by (simp add: schema_ok_def jobs_ok_def list_all_iff row_ok_row_of)
qed

lemma table_rows: "schema_ok t \<Longrightarrow> map row_of (map job_of t) = t"
  by (induction t) (auto simp: schema_ok_def row_of_job_of)

lemma schema_jobs_ok: "schema_ok t \<Longrightarrow> jobs_ok (map job_of t)"
  using schema_ok_rows table_rows by metis

definition table_jobs :: "table \<Rightarrow> Job list" where
  "table_jobs t = map job_of t"

lemma table_jobs_rows [simp]: "table_jobs (map row_of js) = js"
  by (simp add: table_jobs_def comp_def)

section \<open>Looking up and updating\<close>

lemma look_Some_iff:
  assumes "jobs_ok js"
  shows "look js i = Some j \<longleftrightarrow> j \<in> set js \<and> ID j = i"
proof -
  have "distinct (map ID js)" using assms by (simp add: jobs_ok_def)
  then show ?thesis unfolding look_def by (induction js) auto
qed

lemma look_ID: "look js i = Some j \<Longrightarrow> ID j = i"
  by (auto simp: look_def find_Some_iff)

lemma look_upd: "(\<And>j. ID (f j) = ID j) \<Longrightarrow>
    look (upd_job i f js) k = (if k = i then map_option f (look js k) else look js k)"
  by (induction js) (auto simp: look_def upd_job_def)

lemma look_upd_status [simp]:
  "look (upd_job i (set_status st n u) js) k =
     (if k = i then map_option (set_status st n u) (look js k) else look js k)"
  by (rule look_upd) (simp add: set_status_def)

lemma look_upd_error [simp]:
  "look (upd_job i (set_error st rc e u) js) k =
     (if k = i then map_option (set_error st rc e u) (look js k) else look js k)"
  by (rule look_upd) (simp add: set_error_def)

lemma ids_upd_job: "(\<And>j. ID (f j) = ID j) \<Longrightarrow> map ID (upd_job i f js) = map ID js"
  by (induction js) (auto simp: upd_job_def)

lemma jobs_ok_upd:
  assumes "jobs_ok js" "\<And>j. job_ok j \<Longrightarrow> ID j = i \<Longrightarrow> job_ok (f j)" "\<And>j. ID (f j) = ID j"
  shows "jobs_ok (upd_job i f js)"
proof -
  have "list_all job_ok (upd_job i f js)"
    using assms(1,2) by (auto simp: jobs_ok_def list_all_iff upd_job_def)
  then show ?thesis
    using assms(1) ids_upd_job [of f i js] assms(3) by (simp add: jobs_ok_def)
qed

lemma filter_distinct_key:
  "distinct (map f xs) \<Longrightarrow>
     filter (\<lambda>x. f x = k) xs = (case find (\<lambda>x. f x = k) xs of None \<Rightarrow> [] | Some x \<Rightarrow> [x])"
proof (induction xs)
  case Nil
  then show ?case by simp
next
  case (Cons x xs)
  show ?case
  proof (cases "f x = k")
    case True
    with Cons.prems have "filter (\<lambda>y. f y = k) xs = []"
      by (auto simp: filter_empty_conv image_iff)
    with True show ?thesis by simp
  next
    case False
    with Cons show ?thesis by simp
  qed
qed

section \<open>Statements on a table of jobs\<close>

lemma conv_simps [simp]:
  "conv env (time_val t) = Some (time_val (map_option (ts_in env) t))"
  "conv env (payload_val p) = (case p of None \<Rightarrow> Some VNull | Some j \<Rightarrow> map_option VJson (jsonb_in env j))"
  by (simp_all add: time_val_def payload_val_def split: option.split)

lemma run_update_rows:
  assumes "np_sql (Update sets c) = length args"
    and "those (map (conv env) args) = (if b then Some as else None)"
    and "casts_cond env as c"
    and "\<And>j. matches env as c (row_of j) \<longleftrightarrow> ID j = i"
    and "\<And>j. update_row env as sets (row_of j) = row_of (f j)"
  shows "run_sql env (Update sets c) args (map row_of js) =
           (if b \<and> jobs_ok (upd_job i f js)
            then Some ([], length (filter (\<lambda>j. ID j = i) js), map row_of (upd_job i f js)) else None)"
proof -
  have t: "map (\<lambda>r. if matches env as c r then update_row env as sets r else r) (map row_of js)
             = map row_of (upd_job i f js)"
    using assms(4,5) by (simp add: upd_job_def)
  have n: "length (filter (matches env as c) (map row_of js)) = length (filter (\<lambda>j. ID j = i) js)"
    using assms(4) by (simp add: filter_map comp_def)
  have "run_stmt env (Update sets c) as (map row_of js) =
          (if jobs_ok (upd_job i f js)
           then Some ([], length (filter (\<lambda>j. ID j = i) js), map row_of (upd_job i f js)) else None)"
    by (simp only: run_stmt.simps Let_def t n schema_ok_rows)
  then show ?thesis
    using assms(1-3) by (simp add: run_sql_def del: run_stmt.simps)
qed

lemma run_update_status:
  "run_sql env update_status_sql [VText st, time_val sa, time_val ca, VUuid i] (map row_of js) =
     (let js' = upd_job i (\<lambda>j. j\<lparr>Status := st,
                  StartedAt := (case sa of None \<Rightarrow> StartedAt j | Some t \<Rightarrow> Some (ts_in env t)),
                  CompletedAt := (case ca of None \<Rightarrow> CompletedAt j | Some t \<Rightarrow> Some (ts_in env t)),
                  UpdatedAt := now_at env\<rparr>) js
      in if text_ok st \<and> jobs_ok js' then Some ([], length (filter (\<lambda>j. ID j = i) js), map row_of js') else None)"
  unfolding update_status_sql_def Let_def
proof (rule run_update_rows)
  fix j
  let ?as = "[VText st, time_val (map_option (ts_in env) sa), time_val (map_option (ts_in env) ca), VUuid i]"
  show "those (map (conv env) [VText st, time_val sa, time_val ca, VUuid i]) = (if text_ok st then Some ?as else None)"
    by simp
  show "update_row env ?as
          [(C_status, Param 1), (C_started_at, Coalesce (Param 2) (Col C_started_at)),
           (C_completed_at, Coalesce (Param 3) (Col C_completed_at)), (C_updated_at, Now)] (row_of j) =
        row_of (j\<lparr>Status := st,
                  StartedAt := (case sa of None \<Rightarrow> StartedAt j | Some t \<Rightarrow> Some (ts_in env t)),
                  CompletedAt := (case ca of None \<Rightarrow> CompletedAt j | Some t \<Rightarrow> Some (ts_in env t)),
                  UpdatedAt := now_at env\<rparr>)" (is "?l = ?r")
  proof
    fix c
    show "?l c = ?r c" by (cases c) (simp_all add: update_row_def split: option.split)
  qed
qed (simp_all add: eq_commute)

lemma run_update_error:
  "run_sql env update_error_sql [VText st, VInt rc, VText e, VUuid i] (map row_of js) =
     (let js' = upd_job i (set_error st rc e (now_at env)) js
      in if (text_ok st \<and> text_ok e) \<and> jobs_ok js'
         then Some ([], length (filter (\<lambda>j. ID j = i) js), map row_of js') else None)"
  unfolding update_error_sql_def Let_def
proof (rule run_update_rows)
  fix j
  let ?as = "[VText st, VInt rc, VText e, VUuid i]"
  show "those (map (conv env) [VText st, VInt rc, VText e, VUuid i]) = (if text_ok st \<and> text_ok e then Some ?as else None)"
    by simp
  show "update_row env ?as
          [(C_status, Param 1), (C_retry_count, Param 2), (C_error, Param 3), (C_updated_at, Now)] (row_of j) =
        row_of (set_error st rc e (now_at env) j)" (is "?l = ?r")
  proof
    fix c
    show "?l c = ?r c" by (cases c) (simp_all add: update_row_def set_error_def)
  qed
qed (simp_all add: eq_commute)

lemma run_delete:
  "run_sql env delete_job_sql [VUuid i] (map row_of js) =
     Some ([], length (filter (\<lambda>j. ID j = i \<and> Status j = StatusDead) js),
           map row_of (filter (\<lambda>j. \<not> (ID j = i \<and> Status j = StatusDead)) js))"
  by (auto simp: run_sql_def delete_job_sql_def filter_map comp_def StatusDead_def)

lemma scan_rows_jobs:
  "scan_rows (map (\<lambda>j. map (row_of j) jobs_columns) js) acc = Inr (acc @ js)"
  by (induction js arbitrary: acc) (simp_all add: scanJobFromRows_def)

lemma insort_key_map: "insort_key f (g x) (map g xs) = map g (insort_key (\<lambda>x. f (g x)) x xs)"
  by (induction xs) auto

lemma sort_key_map: "sort_key f (map g xs) = map g (sort_key (\<lambda>x. f (g x)) xs)"
  by (induction xs) (simp_all add: insort_key_map)

lemma slice_map: "slice l n (map f xs) = map f (slice l n xs)"
  by (simp add: slice_def Let_def take_map drop_map split: option.split)

lemma scanned_rows:
  assumes "schema_ok t" "mset t' = mset t"
  shows "\<exists>js. t' = map row_of js \<and> mset js = mset (map job_of t)"
proof (intro exI conjI)
  have "\<forall>r\<in>set t'. row_ok r"
    using assms mset_eq_setD by (fastforce simp: schema_ok_def list_all_iff)
  then show "t' = map row_of (map job_of t')"
    by (induction t') (auto simp: row_of_job_of)
  show "mset (map job_of t') = mset (map job_of t)"
    using assms(2) by simp
qed

lemma look_mset:
  assumes "jobs_ok js" "mset js' = mset js"
  shows "look js' i = look js i"
  unfolding look_def
proof (rule find_mset [OF assms(2)])
  fix x y
  assume "x \<in> set js" "y \<in> set js" "ID x = i" "ID y = i"
  with assms(1) show "x = y" by (auto simp: jobs_ok_def distinct_map inj_on_def)
qed

lemma jobs_ok_mset: "mset js' = mset js \<Longrightarrow> jobs_ok js \<Longrightarrow> jobs_ok js'"
  using mset_eq_setD [of js' js] mset_eq_imp_distinct_iff [of "map ID js'" "map ID js"]
  by (simp add: jobs_ok_def list_all_iff)

lemma run_select_job:
  assumes "jobs_ok js" "scan env (map row_of js) = map row_of js'" "mset js' = mset js"
  shows "\<exists>n. run_sql env select_job_sql [VUuid i] (map row_of js) =
           Some (case look js i of None \<Rightarrow> [] | Some j \<Rightarrow> [map (row_of j) jobs_columns], n, map row_of js)"
proof -
  have d: "distinct (map ID js')"
    using jobs_ok_mset [OF assms(3,1)] by (simp add: jobs_ok_def)
  have "filter (\<lambda>j. ID j = i) js' = (case look js i of None \<Rightarrow> [] | Some j \<Rightarrow> [j])"
    using filter_distinct_key [OF d] look_mset [OF assms(1,3), of i] by (simp add: look_def)
  moreover have "filter (matches env [VUuid i] (CEq C_id (Param 1))) (map row_of js')
                   = map row_of (filter (\<lambda>j. ID j = i) js')"
    by (simp add: filter_map comp_def)
  ultimately show ?thesis
    using assms(2)
    by (auto simp: run_sql_def select_job_sql_def bound_val_def order_by_def slice_def np_opt_def
             split: option.split)
qed

section \<open>The contract of the store\<close>

text \<open>
  \<open>jobs\<close> are the jobs of a database state, \<open>ok\<close> its invariant, \<open>live\<close> a state from
  which every call is answered.  A read gives a stored job and changes nothing; an update
  that returns no error changed the one job, one that returns an error changed it or nothing.
\<close>

locale job_store =
  fixes jobs :: "'d \<Rightarrow> Job list"
    and ok :: "'d \<Rightarrow> bool"
    and live :: "'d \<Rightarrow> bool"
    and getJob :: "uuid \<Rightarrow> (('d, 'r) world, Job result) state"
    and updStatus :: "uuid \<Rightarrow> JobStatus \<Rightarrow> (('d, 'r) world, string option) state"
    and updError :: "uuid \<Rightarrow> JobStatus \<Rightarrow> int \<Rightarrow> string \<Rightarrow> (('d, 'r) world, string option) state"
  assumes ok_jobs: "ok d \<Longrightarrow> jobs_ok (jobs d)"
    and get_run: "ok (db w) \<Longrightarrow> run_state (getJob i) w = (x, w') \<Longrightarrow>
          ok (db w') \<and> jobs (db w') = jobs (db w) \<and> w' = w\<lparr>db := db w'\<rparr> \<and>
          (\<forall>j. x = Inr j \<longrightarrow> look (jobs (db w)) i = Some j)"
    and get_live: "ok (db w) \<Longrightarrow> live (db w) \<Longrightarrow> look (jobs (db w)) i = Some j \<Longrightarrow>
          \<exists>w'. run_state (getJob i) w = (Inr j, w') \<and> live (db w')"
    and get_none: "ok (db w) \<Longrightarrow> live (db w) \<Longrightarrow> look (jobs (db w)) i = None \<Longrightarrow>
          \<exists>e w'. run_state (getJob i) w = (Inl e, w') \<and> live (db w')"
    and status_run: "ok (db w) \<Longrightarrow> run_state (updStatus i st) w = (y, w') \<Longrightarrow>
          ok (db w') \<and> w' = w\<lparr>ticks := Suc (ticks w), db := db w'\<rparr> \<and>
          (y \<noteq> None \<and> jobs (db w') = jobs (db w) \<or>
           (\<exists>n u. jobs (db w') = upd_job i (set_status st n u) (jobs (db w))))"
    and status_live: "ok (db w) \<Longrightarrow> live (db w) \<Longrightarrow> utf8_length st \<le> 20 \<Longrightarrow> text_ok st \<Longrightarrow>
          \<exists>w'. run_state (updStatus i st) w = (None, w') \<and> live (db w')"
    and error_run: "ok (db w) \<Longrightarrow> run_state (updError i st rc e) w = (y, w') \<Longrightarrow>
          ok (db w') \<and> w' = w\<lparr>db := db w'\<rparr> \<and>
          (y \<noteq> None \<and> jobs (db w') = jobs (db w) \<or>
           (\<exists>u. jobs (db w') = upd_job i (set_error st rc e u) (jobs (db w))))"
    and error_live: "ok (db w) \<Longrightarrow> live (db w) \<Longrightarrow> utf8_length st \<le> 20 \<Longrightarrow> in_int4 rc \<Longrightarrow>
          text_ok st \<Longrightarrow> text_ok e \<Longrightarrow> \<exists>w'. run_state (updError i st rc e) w = (None, w') \<and> live (db w')"

context job_store
begin

lemma get_exact:
  assumes "ok (db w)" "live (db w)" "look (jobs (db w)) i = Some j"
  obtains d' where "run_state (getJob i) w = (Inr j, w\<lparr>db := d'\<rparr>)" "ok d'" "live d'" "jobs d' = jobs (db w)"
proof -
  obtain w' where w': "run_state (getJob i) w = (Inr j, w')" "live (db w')"
    using get_live [OF assms] by blast
  from get_run [OF assms(1) w'(1)] w' show thesis using that [of "db w'"] by auto
qed

lemma get_none_exact:
  assumes "ok (db w)" "live (db w)" "look (jobs (db w)) i = None"
  obtains e d' where "run_state (getJob i) w = (Inl e, w\<lparr>db := d'\<rparr>)" "ok d'" "live d'" "jobs d' = jobs (db w)"
proof -
  obtain e w' where w': "run_state (getJob i) w = (Inl e, w')" "live (db w')"
    using get_none [OF assms] by blast
  from get_run [OF assms(1) w'(1)] w' show thesis using that [of e "db w'"] by auto
qed

lemma status_exact:
  assumes "ok (db w)" "live (db w)" "utf8_length st \<le> 20" "text_ok st"
  obtains d' n u where
    "run_state (updStatus i st) w = (None, w\<lparr>ticks := Suc (ticks w), db := d'\<rparr>)" "ok d'" "live d'"
    "jobs d' = upd_job i (set_status st n u) (jobs (db w))"
proof -
  obtain w' where w': "run_state (updStatus i st) w = (None, w')" "live (db w')"
    using status_live [OF assms] by blast
  from status_run [OF assms(1) w'(1)] w' show thesis using that [of "db w'"] by auto
qed

lemma error_exact:
  assumes "ok (db w)" "live (db w)" "utf8_length st \<le> 20" "in_int4 rc" "text_ok st" "text_ok e"
  obtains d' u where "run_state (updError i st rc e) w = (None, w\<lparr>db := d'\<rparr>)" "ok d'" "live d'"
    "jobs d' = upd_job i (set_error st rc e u) (jobs (db w))"
proof -
  obtain w' where w': "run_state (updError i st rc e) w = (None, w')" "live (db w')"
    using error_live [OF assms] by blast
  from error_run [OF assms(1) w'(1)] w' show thesis using that [of "db w'"] by auto
qed

end

lemma status_texts [simp]:
  "utf8_length StatusPending \<le> 20" "utf8_length StatusRunning \<le> 20" "utf8_length StatusCompleted \<le> 20"
  "utf8_length StatusFailed \<le> 20" "utf8_length StatusRetrying \<le> 20" "utf8_length StatusDead \<le> 20"
  "utf8_length StatusCancelled \<le> 20" "utf8_length StatusScheduled \<le> 20"
  "text_ok StatusPending" "text_ok StatusRunning" "text_ok StatusCompleted" "text_ok StatusFailed"
  "text_ok StatusRetrying" "text_ok StatusDead" "text_ok StatusCancelled" "text_ok StatusScheduled"
  by (simp_all add: utf8_length_def text_ok_def go_const)

locale storage = postgres "pool s" tbl env up
  for s :: "'d PostgresStorage" and tbl :: "'d \<Rightarrow> table" and env :: "'d \<Rightarrow> pgenv" and up :: "'d \<Rightarrow> bool"
begin

abbreviation jobs :: "'d \<Rightarrow> Job list" where
  "jobs d \<equiv> table_jobs (tbl d)"

abbreviation ok :: "'d \<Rightarrow> bool" where
  "ok d \<equiv> schema_ok (tbl d)"

lemma tbl_jobs: "ok d \<Longrightarrow> map row_of (jobs d) = tbl d"
  unfolding table_jobs_def using table_rows by metis

lemma ok_jobs_ok: "ok d \<Longrightarrow> jobs_ok (jobs d)"
  unfolding table_jobs_def by (rule schema_jobs_ok)

lemma scan_jobs:
  assumes "ok d"
  obtains js where "scan (env d) (map row_of (jobs d)) = map row_of js" "mset js = mset (jobs d)"
proof -
  have "\<exists>js. scan (env d) (tbl d) = map row_of js \<and> mset js = mset (jobs d)"
    using assms scanned_rows [of "tbl d" "scan (env d) (tbl d)"] scan_perm
    unfolding table_jobs_def by blast
  then show thesis using that by (auto simp: tbl_jobs [OF assms])
qed

lemma select_job:
  assumes "ok d"
  shows "\<exists>n. run_sql (env d) select_job_sql [VUuid i] (tbl d) =
           Some (case look (jobs d) i of None \<Rightarrow> [] | Some j \<Rightarrow> [map (row_of j) jobs_columns], n, tbl d)"
proof -
  obtain js where "scan (env d) (map row_of (jobs d)) = map row_of js" "mset js = mset (jobs d)"
    using scan_jobs [OF assms] .
  from run_select_job [OF ok_jobs_ok [OF assms] this] show ?thesis
    by (simp add: tbl_jobs [OF assms])
qed

lemma select_is_select: "is_select select_job_sql"
  by (simp add: select_job_sql_def)

lemma GetJob_run:
  assumes "ok (db w)" "run_state (GetJob s i) w = (x, w')"
  shows "ok (db w') \<and> jobs (db w') = jobs (db w) \<and> w' = w\<lparr>db := db w'\<rparr> \<and>
         (\<forall>j. x = Inr j \<longrightarrow> look (jobs (db w)) i = Some j)"
proof -
  obtain row d' where q: "QueryRow (pool s) select_job_sql [VUuid i] (db w) = (row, d')"
    by force
  with assms(2) have xw: "x = scanJob row" "w' = w\<lparr>db := d'\<rparr>"
    by (simp_all add: GetJob_def run_db_call)
  have t: "tbl d' = tbl (db w)" using row_select [OF q select_is_select] .
  have "look (jobs (db w)) i = Some j" if "x = Inr j" for j
  proof -
    obtain r where r: "row = Inr r" "scan_cols r = Some j"
      using \<open>x = Inr j\<close> by (auto simp: xw scanJob_def split: sum.splits option.splits)
    with row_ok [of select_job_sql "[VUuid i]" "db w" r d'] q select_job [OF assms(1), of i]
    show ?thesis by (auto split: option.splits)
  qed
  with xw t assms(1) show ?thesis by simp
qed

lemma GetJob_live:
  assumes "ok (db w)" "up (db w)" "look (jobs (db w)) i = Some j"
  shows "\<exists>w'. run_state (GetJob s i) w = (Inr j, w') \<and> up (db w')"
proof -
  obtain n where "run_sql (env (db w)) select_job_sql [VUuid i] (tbl (db w)) =
      Some ([map (row_of j) jobs_columns], n, tbl (db w))"
    using select_job [OF assms(1), of i] assms(3) by auto
  from up_row [OF assms(2) this] obtain d' where
    "QueryRow (pool s) select_job_sql [VUuid i] (db w) = (Inr (map (row_of j) jobs_columns), d')" "up d'"
    by blast
  then show ?thesis by (simp add: GetJob_def run_db_call scanJob_def)
qed

lemma GetJob_none:
  assumes "ok (db w)" "up (db w)" "look (jobs (db w)) i = None"
  shows "\<exists>e w'. run_state (GetJob s i) w = (Inl e, w') \<and> up (db w')"
proof -
  obtain n where "run_sql (env (db w)) select_job_sql [VUuid i] (tbl (db w)) = Some ([], n, tbl (db w))"
    using select_job [OF assms(1), of i] assms(3) by auto
  from up_row_none [OF assms(2) this] show ?thesis
    by (auto simp: GetJob_def run_db_call scanJob_def)
qed

lemma update_run:
  assumes "ok d" "Exec (pool s) q as d = (x, d')"
    and stmt: "\<And>js. run_sql (env d) q as (map row_of js) =
           (let js' = upd_job i f js
            in if b \<and> jobs_ok js' then Some ([], length (filter (\<lambda>j. ID j = i) js), map row_of js') else None)"
  shows "ok d' \<and> ((\<exists>e. x = Inl e) \<and> jobs d' = jobs d \<or> jobs d' = upd_job i f (jobs d))"
proof -
  have eff: "jobs d' = upd_job i f (jobs d)" if "run_sql (env d) q as (tbl d) = Some (rs, n, tbl d')" for rs n
  proof -
    have "tbl d' = map row_of (upd_job i f (jobs d))"
      using that stmt [of "jobs d"] unfolding tbl_jobs [OF assms(1)]
      by (auto simp: Let_def split: if_splits)
    then show ?thesis by simp
  qed
  then have "tbl d' = tbl d \<or> jobs d' = upd_job i f (jobs d)"
    using exec_effect [OF assms(2)] by blast
  moreover have "x = Inr n \<Longrightarrow> jobs d' = upd_job i f (jobs d)" for n
    using exec_ok [of q as d n d'] assms(2) eff by blast
  ultimately show ?thesis
    using exec_schema [OF assms(2,1)] by (cases x) auto
qed

lemma update_live:
  assumes "ok d" "up d" "jobs_ok (upd_job i f (jobs d))" "b"
    and stmt: "\<And>js. run_sql (env d) q as (map row_of js) =
           (let js' = upd_job i f js
            in if b \<and> jobs_ok js' then Some ([], length (filter (\<lambda>j. ID j = i) js), map row_of js') else None)"
  shows "\<exists>n d'. Exec (pool s) q as d = (Inr n, d') \<and> up d'"
  using up_exec [OF assms(2), of q as] assms(3,4) stmt [of "jobs d"] unfolding tbl_jobs [OF assms(1)]
  by (auto simp: Let_def)

lemma status_stmt:
  "run_sql (env d) update_status_sql
     [VText st, time_val (if st = StatusRunning then Some now else None),
      time_val (if st = StatusRunning then None else if st = StatusCompleted then Some now else None),
      VUuid i] (map row_of js) =
   (let js' = upd_job i (set_status st (ts_in (env d) now) (now_at (env d))) js
    in if text_ok st \<and> jobs_ok js' then Some ([], length (filter (\<lambda>j. ID j = i) js), map row_of js') else None)"
proof -
  have "StatusCompleted \<noteq> StatusRunning" by (simp add: go_const)
  then have eq: "(\<lambda>j. j\<lparr>Status := st,
          StartedAt := (case if st = StatusRunning then Some now else None of
                          None \<Rightarrow> StartedAt j | Some t \<Rightarrow> Some (ts_in (env d) t)),
          CompletedAt := (case if st = StatusRunning then None else if st = StatusCompleted then Some now else None of
                          None \<Rightarrow> CompletedAt j | Some t \<Rightarrow> Some (ts_in (env d) t)),
          UpdatedAt := now_at (env d)\<rparr>) = set_status st (ts_in (env d) now) (now_at (env d))"
    by (auto simp: set_status_def fun_eq_iff)
  show ?thesis by (subst run_update_status) (simp only: eq)
qed

lemma UpdateJobStatus_run:
  assumes "ok (db w)" "run_state (UpdateJobStatus s i st) w = (y, w')"
  shows "ok (db w') \<and> w' = w\<lparr>ticks := Suc (ticks w), db := db w'\<rparr> \<and>
         (y \<noteq> None \<and> jobs (db w') = jobs (db w) \<or>
          (\<exists>n u. jobs (db w') = upd_job i (set_status st n u) (jobs (db w))))"
proof -
  obtain x d' where q: "Exec (pool s) update_status_sql
     [VText st, time_val (if st = StatusRunning then Some (clk w (ticks w)) else None),
      time_val (if st = StatusRunning then None else if st = StatusCompleted then Some (clk w (ticks w)) else None),
      VUuid i] (db w) = (x, d')" by force
  with assms(2) have "y = (case x of Inl e \<Rightarrow> Some (''update job status: '' @ e) | Inr _ \<Rightarrow> None)"
    "w' = w\<lparr>ticks := Suc (ticks w), db := d'\<rparr>"
    by (simp_all add: UpdateJobStatus_def run_db_call run_time_Now Let_def)
  with update_run [OF assms(1) q status_stmt] show ?thesis by (cases x) auto
qed

lemma UpdateJobStatus_live:
  assumes "ok (db w)" "up (db w)" "utf8_length st \<le> 20" "text_ok st"
  shows "\<exists>w'. run_state (UpdateJobStatus s i st) w = (None, w') \<and> up (db w')"
proof -
  have "jobs_ok (upd_job i (set_status st n u) (jobs (db w)))" for n u
    using ok_jobs_ok [OF assms(1)] assms(3) by (rule_tac jobs_ok_upd) (auto simp: job_ok_def set_status_def)
  from update_live [OF assms(1,2) this assms(4) status_stmt [where now = "clk w (ticks w)"]] show ?thesis
    by (force simp: UpdateJobStatus_def run_db_call run_time_Now Let_def)
qed

lemma UpdateJobError_run:
  assumes "ok (db w)" "run_state (UpdateJobError s i st rc e) w = (y, w')"
  shows "ok (db w') \<and> w' = w\<lparr>db := db w'\<rparr> \<and>
         (y \<noteq> None \<and> jobs (db w') = jobs (db w) \<or>
          (\<exists>u. jobs (db w') = upd_job i (set_error st rc e u) (jobs (db w))))"
proof -
  obtain x d' where q: "Exec (pool s) update_error_sql [VText st, VInt rc, VText e, VUuid i] (db w) = (x, d')"
    by force
  with assms(2) have "y = (case x of Inl e \<Rightarrow> Some (''update job error: '' @ e) | Inr _ \<Rightarrow> None)"
    "w' = w\<lparr>db := d'\<rparr>"
    by (simp_all add: UpdateJobError_def run_db_call)
  with update_run [OF assms(1) q run_update_error] show ?thesis by (cases x) auto
qed

lemma UpdateJobError_live:
  assumes "ok (db w)" "up (db w)" "utf8_length st \<le> 20" "in_int4 rc" "text_ok st" "text_ok e"
  shows "\<exists>w'. run_state (UpdateJobError s i st rc e) w = (None, w') \<and> up (db w')"
proof -
  have "jobs_ok (upd_job i (set_error st rc e u) (jobs (db w)))" for u
    using ok_jobs_ok [OF assms(1)] assms(3,4) by (rule_tac jobs_ok_upd) (auto simp: job_ok_def set_error_def)
  from update_live [OF assms(1,2) this conjI [OF assms(5,6)] run_update_error] show ?thesis
    by (force simp: UpdateJobError_def run_db_call)
qed

end

text \<open>The storage package over a PostgreSQL server keeps the contract of a job store.\<close>

sublocale storage \<subseteq> store: job_store jobs ok up "GetJob s" "UpdateJobStatus s" "UpdateJobError s"
  by unfold_locales
     (fact ok_jobs_ok GetJob_run GetJob_live GetJob_none UpdateJobStatus_run UpdateJobStatus_live
           UpdateJobError_run UpdateJobError_live)+

definition mem_store :: "pgmem PostgresStorage" where
  "mem_store = \<lparr>pool = mem_pool, connStr = ''memory''\<rparr>"

interpretation memst: storage mem_store m_tbl mem_env mem_up
  unfolding storage_def by (simp add: mem_store_def mem.postgres_axioms)

end
