(* ===== verification/StoreQueries.thy ===== *)
theory StoreQueries
  imports StoreLaws
begin

text \<open>
  The listing, inserting and deleting methods of the storage package at the level of jobs:
  what \<^verbatim>\<open>ListJobs\<close>, \<^verbatim>\<open>GetPendingUnqueued\<close>, \<^verbatim>\<open>GetStaleRunningJobs\<close>, the statistics,
  \<^verbatim>\<open>CreateJob\<close> and \<^verbatim>\<open>DeleteJob\<close> do on a table of jobs.
\<close>

section \<open>Ordered selections\<close>

definition order_jobs :: "pgenv \<Rightarrow> column \<Rightarrow> bool \<Rightarrow> Job list \<Rightarrow> Job list" where
  "order_jobs env c asc js =
     (let nulls = filter (\<lambda>j. row_of j c = VNull) js; vals = filter (\<lambda>j. row_of j c \<noteq> VNull) js
      in if asc then sort_key (\<lambda>j. ord_key env (row_of j c)) vals @ nulls
         else nulls @ sort_key (\<lambda>j. - ord_key env (row_of j c)) vals)"

lemma order_by_jobs: "order_by env (Some (c, asc)) (map row_of js) = map row_of (order_jobs env c asc js)"
  by (simp add: order_by_def order_jobs_def Let_def filter_map comp_def sort_key_map)

lemma order_jobs_created:
  "order_jobs env C_created_at True js = sort_key CreatedAt js"
  "order_jobs env C_created_at False js = sort_key (\<lambda>j. - CreatedAt j) js"
  by (simp_all add: order_jobs_def)

lemma insort_key_cong:
  "(\<And>y. y \<in> insert x (set ys) \<Longrightarrow> f y = g y) \<Longrightarrow> insort_key f x ys = insort_key g x ys"
  by (induction ys) auto

lemma sort_key_cong: "(\<And>x. x \<in> set xs \<Longrightarrow> f x = g x) \<Longrightarrow> sort_key f xs = sort_key g xs"
proof (induction xs)
  case Nil
  show ?case by simp
next
  case (Cons x xs)
  then have "sort_key f xs = sort_key g xs" by simp
  moreover have "insort_key f x (sort_key g xs) = insort_key g x (sort_key g xs)"
    using Cons.prems by (intro insort_key_cong) auto
  ultimately show ?case by simp
qed

lemma order_jobs_started:
  assumes "\<And>j. j \<in> set js \<Longrightarrow> StartedAt j \<noteq> None"
  shows "order_jobs env C_started_at True js = sort_key (\<lambda>j. the (StartedAt j)) js"
proof -
  have "filter (\<lambda>j. StartedAt j = None) js = []" "filter (\<lambda>j. StartedAt j \<noteq> None) js = js"
    using assms by (auto simp: filter_empty_conv filter_id_conv)
  moreover have "sort_key (\<lambda>j. ord_key env (time_val (StartedAt j))) js = sort_key (\<lambda>j. the (StartedAt j)) js"
    using assms by (intro sort_key_cong) (fastforce simp: time_val_def split: option.split)
  ultimately show ?thesis by (simp add: order_jobs_def)
qed

lemma run_select_jobs:
  assumes "scan env (map row_of js) = map row_of js'"
    and "those (map (conv env) args) = Some as" "np_sql (Select jobs_columns c (Some (col, asc)) lm off) = length args"
    and "casts_cond env as c" "\<And>j. matches env as c (row_of j) \<longleftrightarrow> P j"
    and "bound_val env as lm = Some l" "bound_val env as off = Some k"
  shows "\<exists>n. run_sql env (Select jobs_columns c (Some (col, asc)) lm off) args (map row_of js) =
           Some (map (\<lambda>j. map (row_of j) jobs_columns) (slice l k (order_jobs env col asc (filter P js'))), n, map row_of js)"
proof -
  have "filter (matches env as c) (map row_of js') = map row_of (filter P js')"
    using assms(5) by (simp add: filter_map comp_def)
  then show ?thesis
    using assms by (simp add: run_sql_def order_by_jobs slice_map comp_def)
qed

definition pending_before :: "time \<Rightarrow> Job \<Rightarrow> bool" where
  "pending_before t j \<longleftrightarrow> Status j = StatusPending \<and> RunAt j = None \<and> CreatedAt j < t"

definition running_before :: "time \<Rightarrow> Job \<Rightarrow> bool" where
  "running_before t j \<longleftrightarrow> Status j = StatusRunning \<and> (\<exists>s. StartedAt j = Some s \<and> s < t)"

lemma pending_matches:
  "matches env [VTime t] (CAnd (CAnd (CEq C_status (Lit (VText ''pending''))) (CIsNull C_run_at))
       (CLt C_created_at (Param 1))) (row_of j) \<longleftrightarrow> pending_before t j"
  by (auto simp: pending_before_def StatusPending_def)

lemma running_matches:
  "matches env [VTime t] (CAnd (CEq C_status (Lit (VText ''running''))) (CLt C_started_at (Param 1))) (row_of j)
     \<longleftrightarrow> running_before t j"
  by (auto simp: running_before_def StatusRunning_def time_val_def split: option.split)

lemma run_pending:
  assumes "scan env (map row_of js) = map row_of js'"
  shows "\<exists>n. run_sql env pending_unqueued_sql [VTime t] (map row_of js) =
           Some (map (\<lambda>j. map (row_of j) jobs_columns)
                  (take 100 (sort_key CreatedAt (filter (pending_before (ts_in env t)) js'))), n, map row_of js)"
  using run_select_jobs [where l = "Some 100" and k = None and lm = "Some (Lit (VInt 100))" and off = None
      and col = C_created_at and asc = True, OF assms, of "[VTime t]" "[VTime (ts_in env t)]", OF _ _ _ pending_matches]
  by (simp add: pending_unqueued_sql_def np_opt_def bound_val_def slice_def order_jobs_created)

lemma run_stale:
  assumes "scan env (map row_of js) = map row_of js'"
  shows "\<exists>n. run_sql env stale_running_sql [VTime t] (map row_of js) =
           Some (map (\<lambda>j. map (row_of j) jobs_columns)
                  (take 100 (sort_key (\<lambda>j. the (StartedAt j)) (filter (running_before (ts_in env t)) js'))), n, map row_of js)"
proof -
  have "order_jobs env C_started_at True (filter (running_before (ts_in env t)) js') =
          sort_key (\<lambda>j. the (StartedAt j)) (filter (running_before (ts_in env t)) js')"
    by (rule order_jobs_started) (auto simp: running_before_def)
  then show ?thesis
    using run_select_jobs [where l = "Some 100" and k = None and lm = "Some (Lit (VInt 100))" and off = None
        and col = C_started_at and asc = True, OF assms, of "[VTime t]" "[VTime (ts_in env t)]", OF _ _ _ running_matches]
    by (simp add: stale_running_sql_def np_opt_def bound_val_def slice_def)
qed

context storage
begin

lemma jobs_query_run:
  assumes "ok (db w)" "is_select q" "run_state (jobs_query what s q args) w = (x, w')"
    and "\<And>js'. scan (env (db w)) (map row_of (jobs (db w))) = map row_of js' \<Longrightarrow>
           \<exists>n. run_sql (env (db w)) q args (map row_of (jobs (db w))) =
             Some (map (\<lambda>j. map (row_of j) jobs_columns) (F js'), n, map row_of (jobs (db w)))"
  shows "ok (db w') \<and> jobs (db w') = jobs (db w) \<and> w' = w\<lparr>db := db w'\<rparr> \<and>
         (\<forall>js. x = Inr js \<longrightarrow> (\<exists>js' k. mset js' = mset (jobs (db w)) \<and> js = take k (F js')))"
proof -
  obtain y d' where q: "Query (pool s) q args (db w) = (y, d')" by force
  have xw: "w' = w\<lparr>db := d'\<rparr>" "x = (case y of Inl e \<Rightarrow> Inl (what @ e) | Inr (rs, _) \<Rightarrow> scan_rows rs [])"
    using assms(3) q by (simp_all add: jobs_query_def run_db_call)
  have t: "tbl d' = tbl (db w)" using query_select [OF q assms(2)] .
  obtain js' where js': "scan (env (db w)) (map row_of (jobs (db w))) = map row_of js'" "mset js' = mset (jobs (db w))"
    using scan_jobs [OF assms(1)] .
  have "\<exists>k. js = take k (F js')" if "x = Inr js" for js
  proof -
    obtain rs eo where y: "y = Inr (rs, eo)" "scan_rows rs [] = Inr js"
      using \<open>x = Inr js\<close> xw(2) by (cases y) auto
    obtain n where "run_sql (env (db w)) q args (tbl (db w)) =
        Some (map (\<lambda>j. map (row_of j) jobs_columns) (F js'), n, tbl (db w))"
      using assms(4) [OF js'(1)] unfolding tbl_jobs [OF assms(1)] by blast
    with query_prefix [OF q [unfolded y(1)]] obtain rs' where
      "map (\<lambda>j. map (row_of j) jobs_columns) (F js') = rs @ rs'" by blast
    then have "rs = map (\<lambda>j. map (row_of j) jobs_columns) (take (length rs) (F js'))"
      by (metis append_eq_conv_conj take_map)
    with y(2) show ?thesis using scan_rows_jobs [of "take (length rs) (F js')" "[]"] by auto
  qed
  with xw(1) t assms(1) js'(2) show ?thesis by auto
qed

lemma jobs_query_live:
  assumes "ok (db w)" "up (db w)"
    and "\<And>js'. scan (env (db w)) (map row_of (jobs (db w))) = map row_of js' \<Longrightarrow>
           \<exists>n. run_sql (env (db w)) q args (map row_of (jobs (db w))) =
             Some (map (\<lambda>j. map (row_of j) jobs_columns) (F js'), n, map row_of (jobs (db w)))"
  shows "\<exists>js' w'. mset js' = mset (jobs (db w)) \<and> run_state (jobs_query what s q args) w = (Inr (F js'), w') \<and> up (db w')"
proof -
  obtain js' where js': "scan (env (db w)) (map row_of (jobs (db w))) = map row_of js'" "mset js' = mset (jobs (db w))"
    using scan_jobs [OF assms(1)] .
  obtain n where "run_sql (env (db w)) q args (tbl (db w)) =
      Some (map (\<lambda>j. map (row_of j) jobs_columns) (F js'), n, tbl (db w))"
    using assms(3) [OF js'(1)] unfolding tbl_jobs [OF assms(1)] by blast
  from up_query [OF assms(2) this] js'(2) show ?thesis
    by (auto simp: jobs_query_def run_db_call scan_rows_jobs)
qed

lemma is_select_queries: "is_select pending_unqueued_sql" "is_select stale_running_sql"
  by (simp_all add: pending_unqueued_sql_def stale_running_sql_def)

text \<open>
  The two recovery queries: some of the jobs that match, oldest first, at most 100; with the
  server up, the first 100.
\<close>

lemma GetPendingUnqueued_run:
  assumes "ok (db w)" "run_state (GetPendingUnqueued s d) w = (x, w')"
  shows "ok (db w') \<and> jobs (db w') = jobs (db w) \<and> w' = w\<lparr>ticks := Suc (ticks w), db := db w'\<rparr> \<and>
         (\<forall>js. x = Inr js \<longrightarrow> (\<exists>js' k. mset js' = mset (jobs (db w)) \<and>
                js = take k (take 100 (sort_key CreatedAt
                  (filter (pending_before (ts_in (env (db w)) (clk w (ticks w) + wrap64 (- d)))) js')))))"
proof -
  let ?w = "w\<lparr>ticks := Suc (ticks w)\<rparr>"
  let ?t = "clk w (ticks w) + wrap64 (- d)"
  have r: "run_state (jobs_query ''get pending unqueued: '' s pending_unqueued_sql [VTime ?t]) ?w = (x, w')"
    using assms(2) by (simp add: GetPendingUnqueued_def run_time_Now Add_def)
  have "ok (db w') \<and> jobs (db w') = jobs (db ?w) \<and> w' = ?w\<lparr>db := db w'\<rparr> \<and>
         (\<forall>js. x = Inr js \<longrightarrow> (\<exists>js' k. mset js' = mset (jobs (db ?w)) \<and>
                js = take k (take 100 (sort_key CreatedAt (filter (pending_before (ts_in (env (db ?w)) ?t)) js')))))"
    by (rule jobs_query_run [OF _ is_select_queries(1) r run_pending]) (simp_all add: assms(1))
  then show ?thesis by simp
qed

lemma GetPendingUnqueued_live:
  assumes "ok (db w)" "up (db w)"
  shows "\<exists>js' w'. mset js' = mset (jobs (db w)) \<and> up (db w') \<and>
           run_state (GetPendingUnqueued s d) w =
             (Inr (take 100 (sort_key CreatedAt
                (filter (pending_before (ts_in (env (db w)) (clk w (ticks w) + wrap64 (- d)))) js'))), w')"
proof -
  let ?w = "w\<lparr>ticks := Suc (ticks w)\<rparr>"
  let ?t = "clk w (ticks w) + wrap64 (- d)"
  have "\<exists>js' w'. mset js' = mset (jobs (db ?w)) \<and>
      run_state (jobs_query ''get pending unqueued: '' s pending_unqueued_sql [VTime ?t]) ?w =
        (Inr (take 100 (sort_key CreatedAt (filter (pending_before (ts_in (env (db ?w)) ?t)) js'))), w') \<and> up (db w')"
    by (rule jobs_query_live [OF _ _ run_pending]) (simp_all add: assms)
  then show ?thesis by (auto simp: GetPendingUnqueued_def run_time_Now Add_def)
qed

lemma GetStaleRunningJobs_run:
  assumes "ok (db w)" "run_state (GetStaleRunningJobs s d) w = (x, w')"
  shows "ok (db w') \<and> jobs (db w') = jobs (db w) \<and> w' = w\<lparr>ticks := Suc (ticks w), db := db w'\<rparr> \<and>
         (\<forall>js. x = Inr js \<longrightarrow> (\<exists>js' k. mset js' = mset (jobs (db w)) \<and>
                js = take k (take 100 (sort_key (\<lambda>j. the (StartedAt j))
                  (filter (running_before (ts_in (env (db w)) (clk w (ticks w) + wrap64 (-2 * d)))) js')))))"
proof -
  let ?w = "w\<lparr>ticks := Suc (ticks w)\<rparr>"
  let ?t = "clk w (ticks w) + wrap64 (-2 * d)"
  have r: "run_state (jobs_query ''get stale running jobs: '' s stale_running_sql [VTime ?t]) ?w = (x, w')"
    using assms(2) by (simp add: GetStaleRunningJobs_def run_time_Now Add_def)
  have "ok (db w') \<and> jobs (db w') = jobs (db ?w) \<and> w' = ?w\<lparr>db := db w'\<rparr> \<and>
         (\<forall>js. x = Inr js \<longrightarrow> (\<exists>js' k. mset js' = mset (jobs (db ?w)) \<and>
                js = take k (take 100 (sort_key (\<lambda>j. the (StartedAt j))
                  (filter (running_before (ts_in (env (db ?w)) ?t)) js')))))"
    by (rule jobs_query_run [OF _ is_select_queries(2) r run_stale]) (simp_all add: assms(1))
  then show ?thesis by simp
qed

lemma GetStaleRunningJobs_live:
  assumes "ok (db w)" "up (db w)"
  shows "\<exists>js' w'. mset js' = mset (jobs (db w)) \<and> up (db w') \<and>
           run_state (GetStaleRunningJobs s d) w =
             (Inr (take 100 (sort_key (\<lambda>j. the (StartedAt j))
                (filter (running_before (ts_in (env (db w)) (clk w (ticks w) + wrap64 (-2 * d)))) js'))), w')"
proof -
  let ?w = "w\<lparr>ticks := Suc (ticks w)\<rparr>"
  let ?t = "clk w (ticks w) + wrap64 (-2 * d)"
  have "\<exists>js' w'. mset js' = mset (jobs (db ?w)) \<and>
      run_state (jobs_query ''get stale running jobs: '' s stale_running_sql [VTime ?t]) ?w =
        (Inr (take 100 (sort_key (\<lambda>j. the (StartedAt j))
           (filter (running_before (ts_in (env (db ?w)) ?t)) js'))), w') \<and> up (db w')"
    by (rule jobs_query_live [OF _ _ run_stale]) (simp_all add: assms)
  then show ?thesis by (auto simp: GetStaleRunningJobs_def run_time_Now Add_def)
qed

end

section \<open>Inserting and deleting\<close>

text \<open>The job an insertion stores: what the caller gave, the server's key, times and defaults.\<close>

definition new_job :: "pgenv \<Rightarrow> json \<Rightarrow> Job \<Rightarrow> Job" where
  "new_job env p job =
     \<lparr>ID = fresh_id env, Queue = Queue job, Type = Type job, Payload = Some p, Status = Status job,
      MaxRetries = MaxRetries job, RetryCount = RetryCount job, RunAt = map_option (ts_in env) (RunAt job),
      StartedAt = None, CompletedAt = None, Error = [], CreatedAt = now_at env, UpdatedAt = now_at env\<rparr>"

definition insert_args :: "Job \<Rightarrow> val list" where
  "insert_args job =
     [VText (Queue job), VText (Type job), payload_val (Payload job), VText (Status job),
      VInt (MaxRetries job), VInt (RetryCount job), time_val (RunAt job)]"

lemma insert_row_new:
  assumes "as = [VText (Queue job), VText (Type job), VJson p, VText (Status job), VInt (MaxRetries job),
                 VInt (RetryCount job), time_val (map_option (ts_in env) (RunAt job))]"
  shows "insert_row env as [(C_queue, Param 1), (C_type, Param 2), (C_payload, Param 3), (C_status, Param 4),
             (C_max_retries, Param 5), (C_retry_count, Param 6), (C_run_at, Param 7)] = row_of (new_job env p job)"
proof
  fix c
  show "insert_row env as [(C_queue, Param 1), (C_type, Param 2), (C_payload, Param 3), (C_status, Param 4),
             (C_max_retries, Param 5), (C_retry_count, Param 6), (C_run_at, Param 7)] c = row_of (new_job env p job) c"
    by (cases c) (simp_all add: assms insert_row_def new_job_def payload_val_def)
qed

lemma run_insert:
  "run_sql env insert_job_sql (insert_args job) (map row_of js) =
     (case Option.bind (Payload job) (jsonb_in env) of
        None \<Rightarrow> None
      | Some p \<Rightarrow>
          if (text_ok (Queue job) \<and> text_ok (Type job) \<and> text_ok (Status job)) \<and> jobs_ok (js @ [new_job env p job])
          then Some ([map (row_of (new_job env p job)) jobs_columns], 1, map row_of (js @ [new_job env p job]))
          else None)"
proof (cases "Payload job")
  case None
  have "\<not> schema_ok (map row_of js @ [insert_row env
      [VText (Queue job), VText (Type job), VNull, VText (Status job), VInt (MaxRetries job),
       VInt (RetryCount job), time_val (map_option (ts_in env) (RunAt job))]
      [(C_queue, Param 1), (C_type, Param 2), (C_payload, Param 3), (C_status, Param 4),
       (C_max_retries, Param 5), (C_retry_count, Param 6), (C_run_at, Param 7)]])"
    by (auto simp: schema_ok_def row_ok_def jobs_columns_def insert_row_def)
  with None show ?thesis
    by (auto simp: run_sql_def insert_job_sql_def insert_args_def payload_val_def Let_def)
next
  case (Some pl)
  show ?thesis
  proof (cases "jsonb_in env pl")
    case None
    with Some show ?thesis by (auto simp: run_sql_def insert_job_sql_def insert_args_def payload_val_def)
  next
    case p: (Some p)
    note row = insert_row_new [OF refl, where p = p]
    have "schema_ok (map row_of js @ [row_of (new_job env p job)]) = jobs_ok (js @ [new_job env p job])"
      using schema_ok_rows [of "js @ [new_job env p job]"] by simp
    with Some p show ?thesis
      by (simp add: run_sql_def insert_job_sql_def insert_args_def payload_val_def row Let_def
               del: One_nat_def)
  qed
qed

context storage
begin

lemma CreateJob_run:
  assumes "ok (db w)" "run_state (CreateJob s job) w = (x, w')"
  shows "ok (db w') \<and> w' = w\<lparr>db := db w'\<rparr> \<and>
         (\<forall>j. x = Inr j \<longrightarrow> jobs (db w') = jobs (db w) @ [j] \<and>
              (\<exists>p. Option.bind (Payload job) (jsonb_in (env (db w))) = Some p \<and> j = new_job (env (db w)) p job)) \<and>
         (jobs (db w') = jobs (db w) \<or> (\<exists>p. jobs (db w') = jobs (db w) @ [new_job (env (db w)) p job]))"
proof -
  obtain row d' where q: "QueryRow (pool s) insert_job_sql (insert_args job) (db w) = (row, d')" by force
  with assms(2) have xw: "x = scanJob row" "w' = w\<lparr>db := d'\<rparr>"
    by (simp_all add: CreateJob_def run_db_call insert_args_def)
  note stmt = run_insert [of "env (db w)" job "jobs (db w)", unfolded tbl_jobs [OF assms(1)]]
  have eff: "\<exists>p. Option.bind (Payload job) (jsonb_in (env (db w))) = Some p \<and>
        rs = [map (row_of (new_job (env (db w)) p job)) jobs_columns] \<and>
        jobs d' = jobs (db w) @ [new_job (env (db w)) p job]"
    if r: "run_sql (env (db w)) insert_job_sql (insert_args job) (tbl (db w)) = Some (rs, n, tbl d')" for rs n
  proof -
    obtain p where p: "Option.bind (Payload job) (jsonb_in (env (db w))) = Some p"
      "rs = [map (row_of (new_job (env (db w)) p job)) jobs_columns]"
      "tbl d' = map row_of (jobs (db w) @ [new_job (env (db w)) p job])"
      using r stmt by (auto split: option.splits if_splits)
    then show ?thesis by (simp only: table_jobs_rows) blast
  qed
  have "jobs d' = jobs (db w) @ [j] \<and>
      (\<exists>p. Option.bind (Payload job) (jsonb_in (env (db w))) = Some p \<and> j = new_job (env (db w)) p job)"
    if "x = Inr j" for j
  proof -
    obtain r where r: "row = Inr r" "scan_cols r = Some j"
      using \<open>x = Inr j\<close> by (auto simp: xw scanJob_def split: sum.splits option.splits)
    obtain rs n where "run_sql (env (db w)) insert_job_sql (insert_args job) (tbl (db w)) = Some (r # rs, n, tbl d')"
      using row_ok [of insert_job_sql "insert_args job" "db w" r d'] q r(1) by blast
    from eff [OF this] r(2) show ?thesis by auto
  qed
  moreover have "jobs d' = jobs (db w) \<or> (\<exists>p. jobs d' = jobs (db w) @ [new_job (env (db w)) p job])"
    using row_effect [OF q] eff by metis
  ultimately show ?thesis using xw(2) row_schema [OF q assms(1)] by simp
qed

lemma CreateJob_live:
  assumes "ok (db w)" "up (db w)" "Option.bind (Payload job) (jsonb_in (env (db w))) = Some p"
    and "text_ok (Queue job)" "text_ok (Type job)" "text_ok (Status job)"
    and "jobs_ok (jobs (db w) @ [new_job (env (db w)) p job])"
  shows "\<exists>w'. run_state (CreateJob s job) w = (Inr (new_job (env (db w)) p job), w') \<and> up (db w')"
proof -
  have "run_sql (env (db w)) insert_job_sql (insert_args job) (tbl (db w)) =
      Some ([map (row_of (new_job (env (db w)) p job)) jobs_columns], 1, map row_of (jobs (db w) @ [new_job (env (db w)) p job]))"
    using run_insert [of "env (db w)" job "jobs (db w)", unfolded tbl_jobs [OF assms(1)]] assms(3-7) by simp
  from up_row [OF assms(2) this] show ?thesis
    by (auto simp: CreateJob_def run_db_call insert_args_def scanJob_def)
qed

lemma DeleteJob_run:
  assumes "ok (db w)" "run_state (DeleteJob s i) w = (x, w')"
  shows "ok (db w') \<and> w' = w\<lparr>db := db w'\<rparr> \<and>
         (jobs (db w') = jobs (db w) \<or> jobs (db w') = filter (\<lambda>j. \<not> (ID j = i \<and> Status j = StatusDead)) (jobs (db w))) \<and>
         (x = None \<longrightarrow> (\<exists>j. look (jobs (db w)) i = Some j \<and> Status j = StatusDead) \<and>
                       jobs (db w') = filter (\<lambda>j. \<not> (ID j = i \<and> Status j = StatusDead)) (jobs (db w)))"
proof -
  obtain y d' where q: "Exec (pool s) delete_job_sql [VUuid i] (db w) = (y, d')" by force
  with assms(2) have xw: "w' = w\<lparr>db := d'\<rparr>" "x = (case y of Inl e \<Rightarrow> Some (''delete job: '' @ e)
            | Inr n \<Rightarrow> if n = 0 then Some ''job not found or not in dead status'' else None)"
    by (simp_all add: DeleteJob_def run_db_call)
  let ?keep = "filter (\<lambda>j. \<not> (ID j = i \<and> Status j = StatusDead)) (jobs (db w))"
  have stmt: "run_sql (env (db w)) delete_job_sql [VUuid i] (tbl (db w)) =
      Some ([], length (filter (\<lambda>j. ID j = i \<and> Status j = StatusDead) (jobs (db w))), map row_of ?keep)"
    using run_delete [of "env (db w)" i "jobs (db w)"] unfolding tbl_jobs [OF assms(1)] .
  have jd: "tbl d' = map row_of ?keep \<Longrightarrow> jobs d' = ?keep" by (simp only: table_jobs_rows)
  have "tbl d' = tbl (db w) \<or> tbl d' = map row_of ?keep"
    using exec_effect [OF q] unfolding stmt by auto
  then have "jobs d' = jobs (db w) \<or> jobs d' = ?keep" using jd by auto
  moreover have "(\<exists>j. look (jobs (db w)) i = Some j \<and> Status j = StatusDead) \<and> jobs d' = ?keep" if "x = None"
  proof -
    obtain n where n: "y = Inr n" "n \<noteq> 0" using \<open>x = None\<close> xw(2) by (auto split: sum.splits if_splits)
    then have e: "n = length (filter (\<lambda>j. ID j = i \<and> Status j = StatusDead) (jobs (db w)))" "tbl d' = map row_of ?keep"
      using exec_ok [of delete_job_sql "[VUuid i]" "db w" n d'] q stmt by auto
    then obtain j where "j \<in> set (jobs (db w))" "ID j = i" "Status j = StatusDead"
      using n(2) by (auto simp: filter_empty_conv)
    then have "look (jobs (db w)) i = Some j" using look_Some_iff [OF ok_jobs_ok [OF assms(1)]] by blast
    with e(2) jd \<open>Status j = StatusDead\<close> show ?thesis by blast
  qed
  ultimately show ?thesis using xw(1) exec_schema [OF q assms(1)] by simp
qed

lemma DeleteJob_live:
  assumes "ok (db w)" "up (db w)"
  shows "\<exists>w'. run_state (DeleteJob s i) w =
      (if \<exists>j. look (jobs (db w)) i = Some j \<and> Status j = StatusDead then None
       else Some ''job not found or not in dead status'', w') \<and> up (db w')"
proof -
  have "run_sql (env (db w)) delete_job_sql [VUuid i] (tbl (db w)) =
      Some ([], length (filter (\<lambda>j. ID j = i \<and> Status j = StatusDead) (jobs (db w))),
            map row_of (filter (\<lambda>j. \<not> (ID j = i \<and> Status j = StatusDead)) (jobs (db w))))"
    using run_delete [of "env (db w)" i "jobs (db w)"] unfolding tbl_jobs [OF assms(1)] .
  from up_exec [OF assms(2) this] obtain d' where
    "Exec (pool s) delete_job_sql [VUuid i] (db w) =
       (Inr (length (filter (\<lambda>j. ID j = i \<and> Status j = StatusDead) (jobs (db w)))), d')" "up d'" by blast
  moreover have "filter (\<lambda>j. ID j = i \<and> Status j = StatusDead) (jobs (db w)) = [] \<longleftrightarrow>
      \<not> (\<exists>j. look (jobs (db w)) i = Some j \<and> Status j = StatusDead)"
    using look_Some_iff [OF ok_jobs_ok [OF assms(1)]] by (auto simp: filter_empty_conv)
  ultimately show ?thesis by (auto simp: DeleteJob_def run_db_call)
qed

end

section \<open>Listing\<close>

definition filter_ok :: "ListFilter \<Rightarrow> Job \<Rightarrow> bool" where
  "filter_ok f j \<longleftrightarrow>
     (f_Status f \<noteq> [] \<longrightarrow> Status j = f_Status f) \<and> (f_Queue f \<noteq> [] \<longrightarrow> Queue j = f_Queue f) \<and>
     (f_Type f \<noteq> [] \<longrightarrow> Type j = f_Type f)"

definition filter_text :: "ListFilter \<Rightarrow> bool" where
  "filter_text f \<longleftrightarrow> text_ok (f_Status f) \<and> text_ok (f_Queue f) \<and> text_ok (f_Type f)"

text \<open>
  The condition that is built is right for every filter: its placeholders are numbered without
  gap from 1, each has its argument, and it is true of exactly the jobs that pass the filter.
\<close>

lemma text_ok_Nil [simp]: "text_ok []"
  by (simp add: text_ok_def)

lemma list_where_ok:
  assumes "list_where f = (cond, args, n)"
  shows "n = Suc (length args)" "np_cond cond = length args" "casts_cond env as cond"
    "those (map (conv env) args) = (if filter_text f then Some args else None)"
    "matches env (args @ xtra) cond (row_of j) \<longleftrightarrow> filter_ok f j"
  using assms
  by (auto simp: list_where_def where_and_def where_start_def filter_text_def filter_ok_def nth_append
           split: if_splits)

lemma those_append: "those (xs @ ys) = (case those xs of None \<Rightarrow> None | Some as \<Rightarrow> map_option (\<lambda>bs. as @ bs) (those ys))"
  by (induction xs; cases "those ys") (auto split: option.splits)

lemma run_count:
  assumes "list_where f = (cond, args, n)"
  shows "run_sql env (SelectCount cond) args (map row_of js) =
           (if filter_text f then Some ([[VInt (int (length (filter (filter_ok f) js)))]], 1, map row_of js) else None)"
proof -
  have "filter (matches env args cond) (map row_of js) = map row_of (filter (filter_ok f) js)"
    using list_where_ok(5) [OF assms, of env "[]"] by (simp add: filter_map comp_def)
  then show ?thesis
    using list_where_ok(2-4) [OF assms] by (simp add: run_sql_def)
qed

lemma list_page_simps:
  "Page (list_page f) = max 1 (Page f)" "Limit (list_page f) = (if Limit f < 1 then 20 else Limit f)"
  "f_Status (list_page f) = f_Status f" "f_Queue (list_page f) = f_Queue f" "f_Type (list_page f) = f_Type f"
  by (auto simp: list_page_def Let_def)

lemma run_list:
  assumes "list_where f = (cond, args, n)" "scan env (map row_of js) = map row_of js'" "filter_text f"
  shows "\<exists>k. run_sql env (list_sql cond n) (args @ [VInt l, VInt off]) (map row_of js) =
           (if 0 \<le> l \<and> 0 \<le> off
            then Some (map (\<lambda>j. map (row_of j) jobs_columns)
                        (take (nat l) (drop (nat off) (sort_key (\<lambda>j. - CreatedAt j) (filter (filter_ok f) js')))), k, map row_of js)
            else None)"
proof -
  note ok = list_where_ok [OF assms(1)]
  have c: "those (map (conv env) (args @ [VInt l, VInt off])) = Some (args @ [VInt l, VInt off])"
    using ok(4) [of env] assms(3) by (simp add: those_append)
  have np: "np_sql (list_sql cond n) = length (args @ [VInt l, VInt off])"
    using ok(1,2) by (simp add: list_sql_def np_opt_def)
  have m: "matches env (args @ [VInt l, VInt off]) cond (row_of j) = filter_ok f j" for j
    by (rule ok(5))
  have b1: "bound_val env (args @ [VInt l, VInt off]) (Some (Param n)) = (if l < 0 then None else Some (Some (nat l)))"
    and b2: "bound_val env (args @ [VInt l, VInt off]) (Some (Param (n + 1))) = (if off < 0 then None else Some (Some (nat off)))"
    using ok(1) by (simp_all add: bound_val_def nth_append)
  show ?thesis
  proof (cases "0 \<le> l \<and> 0 \<le> off")
    case True
    then have "bound_val env (args @ [VInt l, VInt off]) (Some (Param n)) = Some (Some (nat l))"
      "bound_val env (args @ [VInt l, VInt off]) (Some (Param (n + 1))) = Some (Some (nat off))"
      using b1 b2 by simp_all
    from run_select_jobs [where col = C_created_at and asc = False, OF assms(2) c _ ok(3) m this] np True show ?thesis
      by (simp add: list_sql_def slice_def order_jobs_created)
  next
    case False
    then show ?thesis
      using b1 b2 c np ok(3) by (auto simp: run_sql_def list_sql_def split: option.splits)
  qed
qed

text \<open>The page of the jobs that pass the filter, newest first.\<close>

definition page_of :: "ListFilter \<Rightarrow> Job list \<Rightarrow> Job list" where
  "page_of f js =
     (let g = list_page f
      in take (nat (Limit g)) (drop (nat (list_offset g)) (sort_key (\<lambda>j. - CreatedAt j) (filter (filter_ok f) js))))"

context storage
begin

text \<open>The two statements of a listing: the count, and the page.\<close>

lemma ListJobs_count:
  assumes "ok (db w)" "up (db w)" "filter_text f" "list_where f = (cond, args, n)"
  obtains d where
    "QueryRow (pool s) (SelectCount cond) args (db w) = (Inr [VInt (int (length (filter (filter_ok f) (jobs (db w)))))], d)"
    "up d" "tbl d = tbl (db w)"
proof -
  have "run_sql (env (db w)) (SelectCount cond) args (tbl (db w)) =
      Some ([[VInt (int (length (filter (filter_ok f) (jobs (db w)))))]], 1, tbl (db w))"
    using run_count [OF assms(4), of "env (db w)" "jobs (db w)"] assms(3) unfolding tbl_jobs [OF assms(1)] by simp
  from up_row [OF assms(2) this] obtain d where
    d: "QueryRow (pool s) (SelectCount cond) args (db w) = (Inr [VInt (int (length (filter (filter_ok f) (jobs (db w)))))], d)" "up d"
    by blast
  with row_select [OF d(1)] show thesis by (intro that [of d]) simp_all
qed

lemma ListJobs_live:
  assumes "ok (db w)" "up (db w)" "filter_text f"
  shows "\<exists>js' d. mset js' = mset (jobs (db w)) \<and> up d \<and> tbl d = tbl (db w) \<and>
           run_state (ListJobs s f) w =
             (Inr (if 0 \<le> list_offset (list_page f) then page_of f js' else [],
                   int (length (filter (filter_ok f) (jobs (db w))))), w\<lparr>db := d\<rparr>)"
proof -
  obtain cond args n where lw: "list_where f = (cond, args, n)" by (cases "list_where f")
  obtain d1 where
    1: "QueryRow (pool s) (SelectCount cond) args (db w) = (Inr [VInt (int (length (filter (filter_ok f) (jobs (db w)))))], d1)"
    "up d1" "tbl d1 = tbl (db w)"
    using assms lw by (rule ListJobs_count)
  have ok1: "ok d1" using assms(1) 1(3) by simp
  obtain js' where js': "scan (env d1) (map row_of (jobs d1)) = map row_of js'" "mset js' = mset (jobs d1)"
    using scan_jobs [OF ok1] .
  let ?g = "list_page f"
  let ?q = "list_sql cond n" and ?as = "args @ [VInt (Limit ?g), VInt (list_offset ?g)]"
  have l: "0 \<le> Limit ?g" by (simp add: list_page_simps)
  note run = run_list [OF lw js'(1) assms(3), of "Limit ?g" "list_offset ?g"]
  have np: "np_sql ?q = length ?as"
    using list_where_ok(1,2) [OF lw] by (simp add: list_sql_def np_opt_def)
  obtain e d2 where 2: "Query (pool s) ?q ?as d1 =
      (Inr (map (\<lambda>j. map (row_of j) jobs_columns) (if 0 \<le> list_offset ?g then page_of f js' else []), e), d2)" "up d2"
  proof (cases "0 \<le> list_offset ?g")
    case True
    then obtain k where "run_sql (env d1) ?q ?as (tbl d1) =
        Some (map (\<lambda>j. map (row_of j) jobs_columns) (page_of f js'), k, tbl d1)"
      using run l unfolding tbl_jobs [OF ok1] page_of_def Let_def by auto
    from up_query [OF 1(2) this] True that show thesis by auto
  next
    case False
    then have "run_sql (env d1) ?q ?as (tbl d1) = None"
      using run unfolding tbl_jobs [OF ok1] by auto
    from up_query_rejected [OF 1(2) this np] False that show thesis by auto
  qed
  have "tbl d2 = tbl d1" using query_select [OF 2(1)] by (simp add: list_sql_def)
  with 1 2 js'(2) show ?thesis
    by (intro exI [of _ js'] exI [of _ d2]) (simp add: ListJobs_def lw run_db_call Let_def scan_rows_jobs)
qed

end

section \<open>Statistics\<close>

definition job_key :: "Job \<Rightarrow> string \<times> string" where
  "job_key j = (Queue j, Status j)"

definition stat_of :: "Job list \<Rightarrow> string \<times> string \<Rightarrow> QueueStat" where
  "stat_of js k =
     \<lparr>qs_Queue = fst k, qs_Status = snd k, qs_Count = int (length (filter (\<lambda>j. job_key j = k) js))\<rparr>"

definition stat_row :: "Job list \<Rightarrow> string \<times> string \<Rightarrow> val list" where
  "stat_row js k = [VText (fst k), VText (snd k), VInt (int (length (filter (\<lambda>j. job_key j = k) js)))]"

lemma remdups_map_inj: "inj f \<Longrightarrow> remdups (map f xs) = map f (remdups xs)"
  by (induction xs) (auto simp: inj_image_mem_iff)

lemma group_rows_jobs:
  "group_rows env as [GCol C_queue, GCol C_status] (map row_of js) = map (stat_row js) (remdups (map job_key js))"
proof -
  let ?v = "\<lambda>k :: string \<times> string. [VText (fst k), VText (snd k)]"
  have inj: "inj ?v" by (auto simp: inj_def)
  have key: "(\<lambda>j. map (group_val env as (row_of j)) [GCol C_queue, GCol C_status]) = (\<lambda>j. ?v (job_key j))"
    by (simp add: fun_eq_iff job_key_def)
  have "map (\<lambda>r. map (group_val env as r) [GCol C_queue, GCol C_status]) (map row_of js) = map ?v (map job_key js)"
    using key by (simp add: comp_def fun_eq_iff)
  then have "remdups (map (\<lambda>r. map (group_val env as r) [GCol C_queue, GCol C_status]) (map row_of js)) =
      map ?v (remdups (map job_key js))"
    by (simp only: remdups_map_inj [OF inj])
  moreover have "length (filter (\<lambda>r. map (group_val env as r) [GCol C_queue, GCol C_status] = ?v k) (map row_of js)) =
      length (filter (\<lambda>j. job_key j = k) js)" for k
    by (simp add: filter_map comp_def job_key_def prod_eq_iff conj_commute)
  ultimately show ?thesis
    by (simp add: group_rows_def Let_def stat_row_def)
qed

lemma scan_stats_rows: "scan_stats (map (stat_row js) ks) acc = Inr (acc @ map (stat_of js) ks)"
  by (induction ks arbitrary: acc) (simp_all add: scan_stat_def stat_row_def stat_of_def)

lemma order_groups_rows:
  "\<exists>ks'. mset ks' = mset ks \<and> order_groups env ord (map (stat_row js) ks) = map (stat_row js) ks'"
proof (cases ord)
  case None
  then show ?thesis by (auto simp: order_groups_def)
next
  case (Some i)
  then show ?thesis
    by (intro exI [of _ "sort_key (\<lambda>k. ord_key env (stat_row js k ! i)) ks"])
       (simp add: order_groups_def sort_key_map)
qed

lemma run_stats:
  assumes "scan env (map row_of js) = map row_of js'" "mset js' = mset js"
    and "those (map (conv env) args) = Some as" "np_cond c = length args" "casts_cond env as c"
    and "\<And>j. matches env as c (row_of j) \<longleftrightarrow> P j"
  shows "\<exists>ks n. distinct ks \<and> set ks = job_key ` {j \<in> set js. P j} \<and>
           run_sql env (SelectGroup [GCol C_queue, GCol C_status] c ord) args (map row_of js) =
             Some (map (stat_row (filter P js)) ks, n, map row_of js)"
proof -
  have f: "filter (matches env as c) (map row_of js') = map row_of (filter P js')"
    using assms(6) by (simp add: filter_map comp_def)
  have row: "stat_row (filter P js') = stat_row (filter P js)"
  proof
    fix k
    have "mset (filter (\<lambda>j. job_key j = k) (filter P js')) = mset (filter (\<lambda>j. job_key j = k) (filter P js))"
      using assms(2) by (simp add: mset_filter)
    then show "stat_row (filter P js') k = stat_row (filter P js) k"
      unfolding stat_row_def by (metis size_mset)
  qed
  obtain ks where ks: "mset ks = mset (remdups (map job_key (filter P js')))"
    "order_groups env ord (map (stat_row (filter P js')) (remdups (map job_key (filter P js')))) = map (stat_row (filter P js')) ks"
    using order_groups_rows by blast
  have "distinct ks" using ks(1) mset_eq_imp_distinct_iff by (metis distinct_remdups)
  moreover have "set ks = job_key ` {j \<in> set js. P j}"
    using mset_eq_setD [OF ks(1)] mset_eq_setD [OF assms(2)] by auto
  moreover have "np_sql (SelectGroup [GCol C_queue, GCol C_status] c ord) = length args" using assms(4) by simp
  ultimately show ?thesis
    using assms(1,3,5) f ks(2) row
    by (intro exI [of _ ks]) (simp add: run_sql_def group_rows_jobs group_ok_def Let_def)
qed

context storage
begin

lemma GetQueueStats_live:
  assumes "ok (db w)" "up (db w)"
  shows "\<exists>ks d. distinct ks \<and> set ks = job_key ` set (jobs (db w)) \<and> up d \<and> tbl d = tbl (db w) \<and>
           run_state (GetQueueStats s) w = (Inr (map (stat_of (jobs (db w))) ks), w\<lparr>db := d\<rparr>)"
proof -
  obtain js' where js': "scan (env (db w)) (map row_of (jobs (db w))) = map row_of js'" "mset js' = mset (jobs (db w))"
    using scan_jobs [OF assms(1)] .
  obtain ks n where k: "distinct ks" "set ks = job_key ` set (jobs (db w))"
    "run_sql (env (db w)) (SelectGroup [GCol C_queue, GCol C_status] CTrue (Some 0)) [] (tbl (db w)) =
       Some (map (stat_row (jobs (db w))) ks, n, tbl (db w))"
    using run_stats [OF js', where args = "[]" and as = "[]" and c = CTrue and P = "\<lambda>_. True" and ord = "Some 0"]
    unfolding tbl_jobs [OF assms(1)] by auto
  from up_query [OF assms(2) k(3)] obtain d' where
    d: "Query (pool s) (SelectGroup [GCol C_queue, GCol C_status] CTrue (Some 0)) [] (db w) =
       (Inr (map (stat_row (jobs (db w))) ks, None), d')" "up d'" by blast
  have "tbl d' = tbl (db w)" using query_select [OF d(1)] by simp
  with d k(1,2) show ?thesis
    by (intro exI [of _ ks] exI [of _ d']) (simp add: GetQueueStats_def run_db_call scan_stats_rows)
qed

lemma GetQueueStatsByName_live:
  assumes "ok (db w)" "up (db w)" "text_ok q"
  shows "\<exists>ks d. distinct ks \<and> set ks = job_key ` {j \<in> set (jobs (db w)). Queue j = q} \<and> up d \<and> tbl d = tbl (db w) \<and>
           run_state (GetQueueStatsByName s q) w =
             (Inr (map (stat_of (filter (\<lambda>j. Queue j = q) (jobs (db w)))) ks), w\<lparr>db := d\<rparr>)"
proof -
  obtain js' where js': "scan (env (db w)) (map row_of (jobs (db w))) = map row_of js'" "mset js' = mset (jobs (db w))"
    using scan_jobs [OF assms(1)] .
  obtain ks n where k: "distinct ks" "set ks = job_key ` {j \<in> set (jobs (db w)). Queue j = q}"
    "run_sql (env (db w)) (SelectGroup [GCol C_queue, GCol C_status] (CEq C_queue (Param 1)) None) [VText q] (tbl (db w)) =
       Some (map (stat_row (filter (\<lambda>j. Queue j = q) (jobs (db w)))) ks, n, tbl (db w))"
    using run_stats [OF js', where args = "[VText q]" and as = "[VText q]" and c = "CEq C_queue (Param 1)"
        and P = "\<lambda>j. Queue j = q" and ord = None] assms(3)
    unfolding tbl_jobs [OF assms(1)] by auto
  from up_query [OF assms(2) k(3)] obtain d' where
    d: "Query (pool s) (SelectGroup [GCol C_queue, GCol C_status] (CEq C_queue (Param 1)) None) [VText q] (db w) =
       (Inr (map (stat_row (filter (\<lambda>j. Queue j = q) (jobs (db w)))) ks, None), d')" "up d'" by blast
  have "tbl d' = tbl (db w)" using query_select [OF d(1)] by simp
  with d k(1,2) show ?thesis
    by (intro exI [of _ ks] exI [of _ d']) (simp add: GetQueueStatsByName_def run_db_call scan_stats_rows)
qed

end

end
