(* ===== verification/RedisQueue.thy ===== *)
theory RedisQueue
  imports World
begin

text \<open>
  The package \<^verbatim>\<open>queue\<close> (\<^verbatim>\<open>src/internal/queue/redis.go\<close>): work queues as Redis lists and
  the schedule as a sorted set, with the Lua script that takes the due entries.  The locale
  \<open>task_queue\<close> is the contract its clients rely on (first-in first-out queues and a
  schedule); the \<^theory_text>\<open>sublocale\<close> proves it for the package over a Redis server.
\<close>

definition scheduledSetKey :: string where
  "scheduledSetKey = ''goqueue:scheduled''"

definition getDueJobsScript :: script where
  "getDueJobsScript KEYS ARGV ks =
     (case ZRANGEBYSCORE (KEYS ! 0) ''-inf'' (ARGV ! 0) ks of
        None \<Rightarrow> None
      | Some results \<Rightarrow>
          if length results > 0 then
            (case ZREMRANGEBYSCORE (KEYS ! 0) ''-inf'' (ARGV ! 0) ks of
               None \<Rightarrow> None
             | Some ks' \<Rightarrow> Some (results, ks'))
          else Some (results, ks))"

record 'r RedisQueue =
  client :: "'r redis_client"

definition queueKey :: "string \<Rightarrow> string" where
  "queueKey q = ''goqueue:queue:'' @ q"

definition QueueLength :: "'r RedisQueue \<Rightarrow> string \<Rightarrow> (('d, 'r) world, int result) state" where
  "QueueLength q queueName = rds_call (LLen (client q) (queueKey queueName))"

definition Push :: "'r RedisQueue \<Rightarrow> string \<Rightarrow> string \<Rightarrow> (('d, 'r) world, string option) state" where
  "Push q queue jobID = rds_call (LPush (client q) (queueKey queue) jobID)"

text \<open>A reply with fewer than two values would make \<^verbatim>\<open>result[1]\<close> panic.\<close>

definition Pop :: "'r RedisQueue \<Rightarrow> string list \<Rightarrow> duration \<Rightarrow> (('d, 'r) world, string result) state" where
  "Pop q queues timeout =
     do {
       result \<leftarrow> rds_call (BRPop (client q) timeout (map queueKey queues));
       ret (case result of
              RNil \<Rightarrow> Inr ''''
            | RErr e \<Rightarrow> Inl (''brpop: '' @ e)
            | RVals xs \<Rightarrow> (case xs of k # v # _ \<Rightarrow> Inr v | _ \<Rightarrow> Inl ''panic: index out of range''))
     }"

definition Schedule :: "'r RedisQueue \<Rightarrow> string \<Rightarrow> time \<Rightarrow> (('d, 'r) world, string option) state" where
  "Schedule q jobID runAt = rds_call (ZAdd (client q) scheduledSetKey (f64_int (Unix runAt)) jobID)"

definition GetDueJobs :: "'r RedisQueue \<Rightarrow> time \<Rightarrow> (('d, 'r) world, string list result) state" where
  "GetDueJobs q now =
     do {
       result \<leftarrow> rds_call (RunScript (client q) getDueJobsScript [scheduledSetKey] [fmt_d (Unix now)]);
       ret (case result of
              RNil \<Rightarrow> Inr []
            | RErr e \<Rightarrow> Inl (''get due jobs: '' @ e)
            | RVals xs \<Rightarrow> Inr xs)
     }"

section \<open>Keys\<close>

lemma queueKey_inject [simp]: "queueKey a = queueKey b \<longleftrightarrow> a = b"
  by (simp add: queueKey_def)

lemma queueKey_scheduled: "queueKey a \<noteq> scheduledSetKey"
  by (simp add: queueKey_def scheduledSetKey_def)

section \<open>Queues and the schedule of a key space\<close>

definition waiting :: "keyspace \<Rightarrow> string \<Rightarrow> string list" where
  "waiting k q = rev (lists k (queueKey q))"

definition sched :: "keyspace \<Rightarrow> string \<rightharpoonup> int" where
  "sched k = map_of (zsets k scheduledSetKey)"

definition ks_ok :: "keyspace \<Rightarrow> bool" where
  "ks_ok k \<longleftrightarrow> distinct (map fst (zsets k scheduledSetKey))"

lemma waiting_LPUSH: "waiting (LPUSH (queueKey q) v k) = (waiting k)(q := waiting k q @ [v])"
  by (simp add: waiting_def fun_eq_iff)

lemma sched_LPUSH [simp]: "sched (LPUSH q v k) = sched k" "ks_ok (LPUSH q v k) = ks_ok k"
  by (simp_all add: sched_def ks_ok_def)

lemma map_of_filter_key: "map_of (filter (\<lambda>p. fst p \<noteq> m) z) = (map_of z)(m := None)"
  by (induction z) (auto simp: fun_eq_iff)

lemma sched_ZADD: "sched (ZADD scheduledSetKey t m k) = (sched k)(m \<mapsto> t)"
  by (simp add: sched_def map_of_filter_key)

lemma waiting_ZADD [simp]: "waiting (ZADD q t m k) = waiting k"
  by (simp add: waiting_def fun_eq_iff)

lemma ks_ok_ZADD: "ks_ok k \<Longrightarrow> ks_ok (ZADD scheduledSetKey t m k)"
  by (auto simp: ks_ok_def distinct_map_filter)

text \<open>Taking from the first queue, in the order of the names, that is not empty.\<close>

fun take_first :: "string list \<Rightarrow> (string \<Rightarrow> string list) \<Rightarrow> (string \<times> (string \<Rightarrow> string list)) option" where
  "take_first [] f = None"
| "take_first (q # qs) f =
     (case f q of [] \<Rightarrow> take_first qs f | v # vs \<Rightarrow> Some (v, f(q := vs)))"

lemma take_first_BRPOP:
  "take_first qs (waiting k) = map_option (\<lambda>(q, v, k'). (v, waiting k')) (BRPOP (map queueKey qs) k)"
proof (induction qs)
  case Nil
  show ?case by simp
next
  case (Cons q qs)
  show ?case
  proof (cases "lists k (queueKey q)" rule: rev_cases)
    case Nil
    with Cons.IH show ?thesis by (simp add: waiting_def)
  next
    case (snoc vs v)
    then show ?thesis by (simp add: waiting_def fun_eq_iff)
  qed
qed

lemma BRPOP_sched: "BRPOP keys k = Some (q, v, k') \<Longrightarrow> sched k' = sched k \<and> ks_ok k' = ks_ok k"
  by (auto dest!: BRPOP_SomeD simp: sched_def ks_ok_def)

text \<open>The due entries: their members in the order of the scores, and the schedule without them.\<close>

definition due_members :: "int \<Rightarrow> keyspace \<Rightarrow> string list" where
  "due_members h k =
     map fst (sort_key (\<lambda>p. (snd p, fst p)) (filter (\<lambda>p. snd p \<le> h) (zsets k scheduledSetKey)))"

lemma script_due:
  assumes "in_int64 n"
  shows "getDueJobsScript [scheduledSetKey] [fmt_d n] k =
     Some (due_members (f64_int n) k,
           k\<lparr>zsets := (zsets k)(scheduledSetKey :=
               filter (\<lambda>p. \<not> snd p \<le> f64_int n) (zsets k scheduledSetKey))\<rparr>)"
proof -
  have e: "filter (\<lambda>p. \<not> snd p \<le> h) z = z" if "filter (\<lambda>p. snd p \<le> h) z = []" for h and z :: "(string \<times> int) list"
    using that by (auto simp: filter_id_conv filter_empty_conv)
  have r: "ZRANGEBYSCORE scheduledSetKey ''-inf'' (fmt_d n) k = Some (due_members (f64_int n) k)"
    by (simp add: ZRANGEBYSCORE_def score_bound_fmt_d [OF assms] due_members_def)
  have m: "ZREMRANGEBYSCORE scheduledSetKey ''-inf'' (fmt_d n) k =
      Some (k\<lparr>zsets := (zsets k)(scheduledSetKey :=
               filter (\<lambda>p. \<not> snd p \<le> f64_int n) (zsets k scheduledSetKey))\<rparr>)"
    by (simp add: ZREMRANGEBYSCORE_def score_bound_fmt_d [OF assms])
  show ?thesis
  proof (cases "filter (\<lambda>p. snd p \<le> f64_int n) (zsets k scheduledSetKey) = []")
    case True
    then have "due_members (f64_int n) k = []" by (simp add: due_members_def)
    with e [OF True] show ?thesis by (simp add: getDueJobsScript_def r m)
  next
    case False
    then have "length (due_members (f64_int n) k) > 0" by (simp add: due_members_def)
    then show ?thesis by (simp add: getDueJobsScript_def r m)
  qed
qed

lemma set_due_members:
  assumes "ks_ok k"
  shows "set (due_members h k) = {m. \<exists>t. sched k m = Some t \<and> t \<le> h}"
proof -
  have "(m, t) \<in> set (zsets k scheduledSetKey) \<longleftrightarrow> sched k m = Some t" for m t
    using assms by (simp add: ks_ok_def sched_def)
  then show ?thesis by (force simp: due_members_def)
qed

lemma map_of_filter_val:
  "distinct (map fst z) \<Longrightarrow>
     map_of (filter (\<lambda>p. P (snd p)) z) m = (case map_of z m of None \<Rightarrow> None | Some t \<Rightarrow> if P t then Some t else None)"
  by (induction z) (auto split: option.split simp: map_of_eq_None_iff [THEN iffD2] dest: map_of_SomeD intro: rev_image_eqI)

lemma distinct_due_members: "ks_ok k \<Longrightarrow> distinct (due_members h k)"
  by (auto simp: due_members_def ks_ok_def distinct_map inj_on_def)

lemma sorted_snd:
  fixes z :: "(string \<times> int) list"
  assumes "sorted (map (\<lambda>p. (snd p, fst p)) z)"
  shows "sorted (map snd z)"
proof -
  have "sorted_wrt (\<lambda>p q. (snd p, fst p) \<le> (snd q, fst q)) z"
    using assms by (simp add: sorted_wrt_map)
  then have "sorted_wrt (\<lambda>p q. snd p \<le> snd q) z"
    by (rule sorted_wrt_mono_rel [rotated]) (auto simp: less_eq_prod_def)
  then show ?thesis by (simp add: sorted_wrt_map)
qed

lemma sorted_due_members:
  assumes "ks_ok k"
  shows "sorted (map (\<lambda>m. the (sched k m)) (due_members h k))"
proof -
  let ?z = "sort_key (\<lambda>p. (snd p, fst p)) (filter (\<lambda>p. snd p \<le> h) (zsets k scheduledSetKey))"
  have "sorted (map (\<lambda>p. (snd p, fst p)) ?z)" by simp
  then have "sorted (map snd ?z)" by (rule sorted_snd)
  moreover have "map (\<lambda>m. the (sched k m)) (due_members h k) = map snd ?z"
    using assms by (auto simp: sched_def ks_ok_def due_members_def)
  ultimately show ?thesis by simp
qed

lemma due_ks:
  assumes "ks_ok k"
  shows "waiting (k\<lparr>zsets := (zsets k)(scheduledSetKey := filter (\<lambda>p. \<not> snd p \<le> h) (zsets k scheduledSetKey))\<rparr>) = waiting k"
    and "ks_ok (k\<lparr>zsets := (zsets k)(scheduledSetKey := filter (\<lambda>p. \<not> snd p \<le> h) (zsets k scheduledSetKey))\<rparr>)"
    and "sched (k\<lparr>zsets := (zsets k)(scheduledSetKey := filter (\<lambda>p. \<not> snd p \<le> h) (zsets k scheduledSetKey))\<rparr>) =
         (\<lambda>m. case sched k m of None \<Rightarrow> None | Some s \<Rightarrow> if s \<le> h then None else Some s)"
  using assms map_of_filter_val [of "zsets k scheduledSetKey" "\<lambda>t. \<not> t \<le> h"]
  by (auto simp: waiting_def sched_def ks_ok_def distinct_map_filter fun_eq_iff split: option.split)

section \<open>The contract of the queues\<close>

text \<open>
  \<open>ks\<close> is the key space of a server state, \<open>events\<close> what was published, \<open>qlive\<close> a
  state from which every call is answered.  A call that returns an error did its work or
  nothing.
\<close>

locale task_queue =
  fixes ks :: "'r \<Rightarrow> keyspace"
    and events :: "'r \<Rightarrow> (string \<times> json) list"
    and qlive :: "'r \<Rightarrow> bool"
    and push :: "string \<Rightarrow> string \<Rightarrow> (('d, 'r) world, string option) state"
    and pop :: "string list \<Rightarrow> duration \<Rightarrow> (('d, 'r) world, string result) state"
    and schedule :: "string \<Rightarrow> time \<Rightarrow> (('d, 'r) world, string option) state"
    and due :: "time \<Rightarrow> (('d, 'r) world, string list result) state"
  assumes push_run: "run_state (push q v) w = (x, w') \<Longrightarrow>
          w' = w\<lparr>rds := rds w'\<rparr> \<and> events (rds w') = events (rds w) \<and>
          sched (ks (rds w')) = sched (ks (rds w)) \<and> ks_ok (ks (rds w')) = ks_ok (ks (rds w)) \<and>
          (x \<noteq> None \<and> waiting (ks (rds w')) = waiting (ks (rds w)) \<or>
           waiting (ks (rds w')) = (waiting (ks (rds w)))(q := waiting (ks (rds w)) q @ [v]))"
    and push_live: "qlive (rds w) \<Longrightarrow> \<exists>w'. run_state (push q v) w = (None, w') \<and> qlive (rds w')"
    and pop_run: "run_state (pop qs d) w = (y, w') \<Longrightarrow>
          w' = w\<lparr>rds := rds w'\<rparr> \<and> events (rds w') = events (rds w) \<and>
          sched (ks (rds w')) = sched (ks (rds w)) \<and> ks_ok (ks (rds w')) = ks_ok (ks (rds w)) \<and>
          (case take_first qs (waiting (ks (rds w))) of
             None \<Rightarrow> waiting (ks (rds w')) = waiting (ks (rds w)) \<and> (\<forall>u. y = Inr u \<longrightarrow> u = [])
           | Some (u, f) \<Rightarrow> waiting (ks (rds w')) = f \<and> (\<forall>u'. y = Inr u' \<longrightarrow> u' = u) \<or>
                          waiting (ks (rds w')) = waiting (ks (rds w)) \<and> (\<exists>e. y = Inl e))"
    and pop_live: "qlive (rds w) \<Longrightarrow> \<exists>u w'. run_state (pop qs d) w = (Inr u, w') \<and> qlive (rds w')"
    and schedule_run: "run_state (schedule v t) w = (x, w') \<Longrightarrow>
          w' = w\<lparr>rds := rds w'\<rparr> \<and> events (rds w') = events (rds w) \<and>
          waiting (ks (rds w')) = waiting (ks (rds w)) \<and>
          (ks_ok (ks (rds w)) \<longrightarrow> ks_ok (ks (rds w'))) \<and>
          (x \<noteq> None \<and> sched (ks (rds w')) = sched (ks (rds w)) \<or>
           sched (ks (rds w')) = (sched (ks (rds w)))(v \<mapsto> f64_int (Unix t)))"
    and schedule_live: "qlive (rds w) \<Longrightarrow> \<exists>w'. run_state (schedule v t) w = (None, w') \<and> qlive (rds w')"
    and due_run: "run_state (due t) w = (z, w') \<Longrightarrow> in_int64 (Unix t) \<Longrightarrow> ks_ok (ks (rds w)) \<Longrightarrow>
          w' = w\<lparr>rds := rds w'\<rparr> \<and> events (rds w') = events (rds w) \<and>
          waiting (ks (rds w')) = waiting (ks (rds w)) \<and> ks_ok (ks (rds w')) \<and>
          ((\<exists>e. z = Inl e) \<and> sched (ks (rds w')) = sched (ks (rds w)) \<or>
           (\<forall>vs. z = Inr vs \<longrightarrow> vs = due_members (f64_int (Unix t)) (ks (rds w))) \<and>
           sched (ks (rds w')) =
             (\<lambda>m. case sched (ks (rds w)) m of
                    None \<Rightarrow> None | Some s \<Rightarrow> if s \<le> f64_int (Unix t) then None else Some s))"
    and due_live: "qlive (rds w) \<Longrightarrow> in_int64 (Unix t) \<Longrightarrow>
          \<exists>vs w'. run_state (due t) w = (Inr vs, w') \<and> qlive (rds w')"

context task_queue
begin

lemma push_exact:
  assumes "qlive (rds w)"
  obtains r' where "run_state (push q v) w = (None, w\<lparr>rds := r'\<rparr>)" "qlive r'" "events r' = events (rds w)"
    "sched (ks r') = sched (ks (rds w))" "ks_ok (ks r') = ks_ok (ks (rds w))"
    "waiting (ks r') = (waiting (ks (rds w)))(q := waiting (ks (rds w)) q @ [v])"
proof -
  obtain w' where w': "run_state (push q v) w = (None, w')" "qlive (rds w')"
    using push_live [OF assms] by blast
  from push_run [OF w'(1)] w' show thesis using that [of "rds w'"] by auto
qed

lemma schedule_exact:
  assumes "qlive (rds w)" "ks_ok (ks (rds w))"
  obtains r' where "run_state (schedule v t) w = (None, w\<lparr>rds := r'\<rparr>)" "qlive r'" "events r' = events (rds w)"
    "waiting (ks r') = waiting (ks (rds w))" "ks_ok (ks r')"
    "sched (ks r') = (sched (ks (rds w)))(v \<mapsto> f64_int (Unix t))"
proof -
  obtain w' where w': "run_state (schedule v t) w = (None, w')" "qlive (rds w')"
    using schedule_live [OF assms(1)] by blast
  from schedule_run [OF w'(1)] w' assms(2) show thesis using that [of "rds w'"] by auto
qed

lemma pop_exact:
  assumes "qlive (rds w)"
  obtains r' where
    "run_state (pop qs d) w = (Inr (case take_first qs (waiting (ks (rds w))) of None \<Rightarrow> [] | Some (v, f) \<Rightarrow> v),
       w\<lparr>rds := r'\<rparr>)"
    "qlive r'" "events r' = events (rds w)" "sched (ks r') = sched (ks (rds w))"
    "ks_ok (ks r') = ks_ok (ks (rds w))"
    "waiting (ks r') = (case take_first qs (waiting (ks (rds w))) of None \<Rightarrow> waiting (ks (rds w)) | Some (v, f) \<Rightarrow> f)"
proof -
  obtain u w' where w': "run_state (pop qs d) w = (Inr u, w')" "qlive (rds w')"
    using pop_live [OF assms] by blast
  from pop_run [OF w'(1)] w' show thesis
    using that [of "rds w'"] by (auto split: option.splits prod.splits)
qed

lemma due_exact:
  assumes "qlive (rds w)" "in_int64 (Unix t)" "ks_ok (ks (rds w))"
  obtains r' where
    "run_state (due t) w = (Inr (due_members (f64_int (Unix t)) (ks (rds w))), w\<lparr>rds := r'\<rparr>)"
    "qlive r'" "events r' = events (rds w)" "waiting (ks r') = waiting (ks (rds w))" "ks_ok (ks r')"
    "sched (ks r') = (\<lambda>m. case sched (ks (rds w)) m of
        None \<Rightarrow> None | Some s \<Rightarrow> if s \<le> f64_int (Unix t) then None else Some s)"
proof -
  obtain vs w' where w': "run_state (due t) w = (Inr vs, w')" "qlive (rds w')"
    using due_live [OF assms(1,2)] by blast
  from due_run [OF w'(1) assms(2,3)] w' show thesis using that [of "rds w'"] by auto
qed

end

locale redis_queue = redis "client q" ks pub rup
  for q :: "'r RedisQueue" and ks :: "'r \<Rightarrow> keyspace" and pub :: "'r \<Rightarrow> (string \<times> json) list"
    and rup :: "'r \<Rightarrow> bool"
begin

lemma Push_run:
  assumes "run_state (Push q n v) w = (x, w')"
  shows "w' = w\<lparr>rds := rds w'\<rparr> \<and> pub (rds w') = pub (rds w) \<and>
         sched (ks (rds w')) = sched (ks (rds w)) \<and> ks_ok (ks (rds w')) = ks_ok (ks (rds w)) \<and>
         (x \<noteq> None \<and> waiting (ks (rds w')) = waiting (ks (rds w)) \<or>
          waiting (ks (rds w')) = (waiting (ks (rds w)))(n := waiting (ks (rds w)) n @ [v]))"
proof -
  obtain r' where c: "LPush (client q) (queueKey n) v (rds w) = (x, r')" "w' = w\<lparr>rds := r'\<rparr>"
    using assms by (auto simp: Push_def run_rds_call split: prod.splits)
  show ?thesis
    using lpush_effect [OF c(1)] lpush_ok [of "queueKey n" v "rds w" r'] lpush_pub [OF c(1)] c
    by (cases x) (auto simp: waiting_LPUSH)
qed

lemma Push_live: "rup (rds w) \<Longrightarrow> \<exists>w'. run_state (Push q n v) w = (None, w') \<and> rup (rds w')"
  using up_lpush [of "rds w" "queueKey n" v] by (auto simp: Push_def run_rds_call)

lemma Pop_run:
  assumes "run_state (Pop q qs d) w = (y, w')"
  shows "w' = w\<lparr>rds := rds w'\<rparr> \<and> pub (rds w') = pub (rds w) \<and>
         sched (ks (rds w')) = sched (ks (rds w)) \<and> ks_ok (ks (rds w')) = ks_ok (ks (rds w)) \<and>
         (case take_first qs (waiting (ks (rds w))) of
            None \<Rightarrow> waiting (ks (rds w')) = waiting (ks (rds w)) \<and> (\<forall>u. y = Inr u \<longrightarrow> u = [])
          | Some (u, f) \<Rightarrow> waiting (ks (rds w')) = f \<and> (\<forall>u'. y = Inr u' \<longrightarrow> u' = u) \<or>
                         waiting (ks (rds w')) = waiting (ks (rds w)) \<and> (\<exists>e. y = Inl e))"
proof -
  obtain rp r' where c: "BRPop (client q) d (map queueKey qs) (rds w) = (rp, r')" by force
  with assms have yw: "w' = w\<lparr>rds := r'\<rparr>"
    "y = (case rp of RNil \<Rightarrow> Inr '''' | RErr e \<Rightarrow> Inl (''brpop: '' @ e)
          | RVals xs \<Rightarrow> (case xs of k # v # _ \<Rightarrow> Inr v | _ \<Rightarrow> Inl ''panic: index out of range''))"
    by (simp_all add: Pop_def run_rds_call)
  show ?thesis
  proof (cases rp)
    case RNil
    with c brpop_nil [of d "map queueKey qs" "rds w" r'] brpop_pub [OF c] yw show ?thesis
      by (auto simp: take_first_BRPOP)
  next
    case (RErr e)
    with c brpop_fail [of d "map queueKey qs" "rds w" e r'] brpop_pub [OF c] yw show ?thesis
      by (auto simp: take_first_BRPOP split: option.split dest: BRPOP_sched)
  next
    case (RVals xs)
    with c brpop_vals [of d "map queueKey qs" "rds w" xs r'] brpop_pub [OF c] yw show ?thesis
      by (auto simp: take_first_BRPOP dest: BRPOP_sched)
  qed
qed

lemma Pop_live: "rup (rds w) \<Longrightarrow> \<exists>u w'. run_state (Pop q qs d) w = (Inr u, w') \<and> rup (rds w')"
proof (cases "BRPOP (map queueKey qs) (ks (rds w))")
  case None
  moreover assume "rup (rds w)"
  ultimately obtain r' where "BRPop (client q) d (map queueKey qs) (rds w) = (RNil, r')" "rup r'"
    using up_brpop_nil by blast
  then show ?thesis by (simp add: Pop_def run_rds_call)
next
  case (Some a)
  moreover assume "rup (rds w)"
  ultimately obtain k v r' where "BRPop (client q) d (map queueKey qs) (rds w) = (RVals [k, v], r')" "rup r'"
    using up_brpop by (cases a) metis
  then show ?thesis by (simp add: Pop_def run_rds_call)
qed

lemma Schedule_run:
  assumes "run_state (Schedule q v t) w = (x, w')"
  shows "w' = w\<lparr>rds := rds w'\<rparr> \<and> pub (rds w') = pub (rds w) \<and>
         waiting (ks (rds w')) = waiting (ks (rds w)) \<and>
         (ks_ok (ks (rds w)) \<longrightarrow> ks_ok (ks (rds w'))) \<and>
         (x \<noteq> None \<and> sched (ks (rds w')) = sched (ks (rds w)) \<or>
          sched (ks (rds w')) = (sched (ks (rds w)))(v \<mapsto> f64_int (Unix t)))"
proof -
  obtain r' where c: "ZAdd (client q) scheduledSetKey (f64_int (Unix t)) v (rds w) = (x, r')" "w' = w\<lparr>rds := r'\<rparr>"
    using assms by (auto simp: Schedule_def run_rds_call split: prod.splits)
  show ?thesis
    using zadd_effect [OF c(1)] zadd_ok [of scheduledSetKey "f64_int (Unix t)" v "rds w" r'] zadd_pub [OF c(1)] c
    by (cases x) (auto simp: sched_ZADD ks_ok_ZADD)
qed

lemma Schedule_live: "rup (rds w) \<Longrightarrow> \<exists>w'. run_state (Schedule q v t) w = (None, w') \<and> rup (rds w')"
  using up_zadd [of "rds w" scheduledSetKey "f64_int (Unix t)" v] by (auto simp: Schedule_def run_rds_call)

lemma GetDueJobs_run:
  assumes "run_state (GetDueJobs q t) w = (z, w')" "in_int64 (Unix t)" "ks_ok (ks (rds w))"
  shows "w' = w\<lparr>rds := rds w'\<rparr> \<and> pub (rds w') = pub (rds w) \<and>
         waiting (ks (rds w')) = waiting (ks (rds w)) \<and> ks_ok (ks (rds w')) \<and>
         ((\<exists>e. z = Inl e) \<and> sched (ks (rds w')) = sched (ks (rds w)) \<or>
          (\<forall>vs. z = Inr vs \<longrightarrow> vs = due_members (f64_int (Unix t)) (ks (rds w))) \<and>
          sched (ks (rds w')) =
            (\<lambda>m. case sched (ks (rds w)) m of
                   None \<Rightarrow> None | Some s \<Rightarrow> if s \<le> f64_int (Unix t) then None else Some s))"
proof -
  obtain rp r' where c: "RunScript (client q) getDueJobsScript [scheduledSetKey] [fmt_d (Unix t)] (rds w) = (rp, r')"
    by force
  with assms(1) have zw: "w' = w\<lparr>rds := r'\<rparr>"
    "z = (case rp of RNil \<Rightarrow> Inr [] | RErr e \<Rightarrow> Inl (''get due jobs: '' @ e) | RVals xs \<Rightarrow> Inr xs)"
    by (simp_all add: GetDueJobs_def run_rds_call)
  note eff = script_due [OF assms(2), of "ks (rds w)"] due_ks [OF assms(3), of "f64_int (Unix t)"]
  show ?thesis
  proof (cases rp)
    case RNil
    with c script_not_nil show ?thesis by metis
  next
    case (RErr e)
    with c script_fail [of getDueJobsScript "[scheduledSetKey]" "[fmt_d (Unix t)]" "rds w" e r']
    have "ks r' = ks (rds w) \<or> (\<exists>xs. getDueJobsScript [scheduledSetKey] [fmt_d (Unix t)] (ks (rds w)) = Some (xs, ks r'))"
      by simp
    with RErr zw eff assms(3) script_pub [OF c] show ?thesis by auto
  next
    case (RVals xs)
    with c script_vals [of getDueJobsScript "[scheduledSetKey]" "[fmt_d (Unix t)]" "rds w" xs r']
    have "getDueJobsScript [scheduledSetKey] [fmt_d (Unix t)] (ks (rds w)) = Some (xs, ks r')"
      by simp
    with RVals zw eff script_pub [OF c] show ?thesis by auto
  qed
qed

lemma GetDueJobs_live:
  assumes "rup (rds w)" "in_int64 (Unix t)"
  shows "\<exists>vs w'. run_state (GetDueJobs q t) w = (Inr vs, w') \<and> rup (rds w')"
proof -
  obtain xs s where "getDueJobsScript [scheduledSetKey] [fmt_d (Unix t)] (ks (rds w)) = Some (xs, s)"
    using script_due [OF assms(2)] by blast
  from up_script [where f = getDueJobsScript, OF assms(1) this] show ?thesis by (auto simp: GetDueJobs_def run_rds_call)
qed

end

sublocale redis_queue \<subseteq> queue: task_queue ks pub rup "Push q" "Pop q" "Schedule q" "GetDueJobs q"
  by unfold_locales
     (fact Push_run Push_live Pop_run Pop_live Schedule_run Schedule_live GetDueJobs_run GetDueJobs_live)+

definition mem_queue :: "rmem RedisQueue" where
  "mem_queue = \<lparr>client = rmem_client\<rparr>"

interpretation memq: redis_queue mem_queue r_ks r_pub rmem_up
  unfolding redis_queue_def by (simp add: mem_queue_def rmem.redis_axioms)

end
