(* ===== verification/Event.thy ===== *)
theory Event
  imports RedisQueue Job
begin

text \<open>
  The events of the package \<^verbatim>\<open>dashboard\<close> (\<^verbatim>\<open>src/internal/dashboard/event.go\<close>): a change of a
  job's status is published on a Redis channel.  The locale \<open>event_bus\<close> is what the worker,
  the scheduler and the API rely on: publishing touches neither queues nor schedule, and
  publishes the message at most once.
\<close>

definition eventChannel :: string where
  "eventChannel = ''goqueue:events''"

text \<open>The zero \<^verbatim>\<open>time.Time\<close> is the first of January of the year 1.\<close>

definition zero_time :: time where
  "zero_time = - 62135596800 * time_Second"

record JobEvent =
  ev_Type :: string
  ev_JobID :: string
  ev_Queue :: string
  ev_Status :: string
  Timestamp :: time

text \<open>The encoder of a \<^verbatim>\<open>time.Time\<close> accepts the years 0 to 9999.\<close>

definition year_ok :: "time \<Rightarrow> bool" where
  "year_ok t \<longleftrightarrow> - 62167219200 * time_Second \<le> t \<and> t < 253402300800 * time_Second"

definition json_Marshal_event :: "JobEvent \<Rightarrow> json result" where
  "json_Marshal_event e =
     (if year_ok (Timestamp e)
      then Inr (JObj [(''type'', JStr (ev_Type e)), (''job_id'', JStr (ev_JobID e)),
                      (''queue'', JStr (ev_Queue e)), (''status'', JStr (ev_Status e)),
                      (''timestamp'', JTime (Timestamp e))])
      else Inl ''Time.MarshalJSON: year outside of range [0,9999]'')"

definition PublishJobEvent :: "'r redis_client \<Rightarrow> JobEvent \<Rightarrow> (('d, 'r) world, string option) state" where
  "PublishJobEvent rdb event =
     do {
       event' \<leftarrow> (if Timestamp event = zero_time
                  then do { now \<leftarrow> time_Now; ret (event\<lparr>Timestamp := now\<rparr>) }
                  else ret event);
       case json_Marshal_event event' of
         Inl e \<Rightarrow> ret (Some (''marshal job event: '' @ e))
       | Inr data \<Rightarrow> rds_call (Publish rdb eventChannel data)
     }"

section \<open>The contract\<close>

definition job_event :: "lib \<Rightarrow> string \<Rightarrow> Job \<Rightarrow> JobEvent" where
  "job_event L ty j =
     \<lparr>ev_Type = ty, ev_JobID = uuid_String L (ID j), ev_Queue = Queue j, ev_Status = Status j,
      Timestamp = zero_time\<rparr>"

definition event_msg :: "JobEvent \<Rightarrow> time \<Rightarrow> string \<times> json" where
  "event_msg e t =
     (eventChannel, JObj [(''type'', JStr (ev_Type e)), (''job_id'', JStr (ev_JobID e)),
                          (''queue'', JStr (ev_Queue e)), (''status'', JStr (ev_Status e)),
                          (''timestamp'', JTime t)])"

definition sane_clock :: "('d, 'r) world \<Rightarrow> bool" where
  "sane_clock w \<longleftrightarrow> (\<forall>k. year_ok (clk w k))"

lemma sane_clock_update [simp]:
  "sane_clock (w\<lparr>db := d\<rparr>) = sane_clock w" "sane_clock (w\<lparr>rds := r\<rparr>) = sane_clock w"
  "sane_clock (w\<lparr>ticks := n\<rparr>) = sane_clock w" "sane_clock (w\<lparr>met := m\<rparr>) = sane_clock w"
  by (simp_all add: sane_clock_def)

text \<open>Both servers answer, their data is well-formed, and the clock is of our era.\<close>

definition services_up ::
  "('d \<Rightarrow> bool) \<Rightarrow> ('d \<Rightarrow> bool) \<Rightarrow> ('r \<Rightarrow> keyspace) \<Rightarrow> ('r \<Rightarrow> bool) \<Rightarrow> ('d, 'r) world \<Rightarrow> bool" where
  "services_up ok live ks qlive w \<longleftrightarrow>
     ok (db w) \<and> live (db w) \<and> qlive (rds w) \<and> ks_ok (ks (rds w)) \<and> sane_clock w"

lemma services_up_update [simp]:
  "services_up ok live ks qlive (w\<lparr>met := m\<rparr>) = services_up ok live ks qlive w"
  "services_up ok live ks qlive (w\<lparr>ticks := n\<rparr>) = services_up ok live ks qlive w"
  by (simp_all add: services_up_def)

lemma year_ok_Unix: "year_ok t \<Longrightarrow> in_int64 (Unix t)"
  by (auto simp: year_ok_def in_int64_def Unix_def time_Second_def)

locale event_bus =
  fixes ks :: "'r \<Rightarrow> keyspace"
    and pub :: "'r \<Rightarrow> (string \<times> json) list"
    and qlive :: "'r \<Rightarrow> bool"
    and publish :: "JobEvent \<Rightarrow> (('d, 'r) world, string option) state"
  assumes publish_run: "run_state (publish e) w = (x, w') \<Longrightarrow>
          ks (rds w') = ks (rds w) \<and> w' = w\<lparr>ticks := ticks w', rds := rds w'\<rparr> \<and>
          (pub (rds w') = pub (rds w) \<or> (\<exists>t. pub (rds w') = pub (rds w) @ [event_msg e t]))"
    and publish_live: "qlive (rds w) \<Longrightarrow> sane_clock w \<Longrightarrow> Timestamp e = zero_time \<Longrightarrow>
          \<exists>w' t. run_state (publish e) w = (None, w') \<and> qlive (rds w') \<and>
                 pub (rds w') = pub (rds w) @ [event_msg e t]"

context event_bus
begin

lemma publish_exact:
  assumes "qlive (rds w)" "sane_clock w" "Timestamp e = zero_time"
  obtains n r' t where "run_state (publish e) w = (None, w\<lparr>ticks := n, rds := r'\<rparr>)" "qlive r'"
    "ks r' = ks (rds w)" "pub r' = pub (rds w) @ [event_msg e t]"
proof -
  obtain w' t where w': "run_state (publish e) w = (None, w')" "qlive (rds w')"
    "pub (rds w') = pub (rds w) @ [event_msg e t]"
    using publish_live [OF assms] by blast
  from publish_run [OF w'(1)] w' show thesis using that [of "rds w'" "ticks w'" t] by auto
qed

end

context redis
begin

lemma publish_event_run:
  assumes "run_state (PublishJobEvent C e) w = (x, w')"
  shows "ks (rds w') = ks (rds w) \<and> w' = w\<lparr>ticks := ticks w', rds := rds w'\<rparr> \<and>
         (pub (rds w') = pub (rds w) \<or> (\<exists>t. pub (rds w') = pub (rds w) @ [event_msg e t]))"
proof -
  define e' n where "e' = (if Timestamp e = zero_time then e\<lparr>Timestamp := clk w (ticks w)\<rparr> else e)"
    and "n = (if Timestamp e = zero_time then Suc (ticks w) else ticks w)"
  obtain r' y where p: "Publish C eventChannel (snd (event_msg e' (Timestamp e'))) (rds w) = (y, r')"
    by force
  have m: "event_msg e' t = event_msg e t" for t by (simp add: event_msg_def e'_def)
  have w': "w' = w\<lparr>ticks := n, rds := if year_ok (Timestamp e') then r' else rds w\<rparr>"
    using assms p
    by (auto simp: PublishJobEvent_def run_time_Now run_rds_call json_Marshal_event_def e'_def n_def
             event_msg_def split: if_splits)
  have "ks r' = ks (rds w) \<and> (pub r' = pub (rds w) \<or> pub r' = pub (rds w) @ [event_msg e (Timestamp e')])"
    using publish_effect [OF p] publish_ks [OF p] m [of "Timestamp e'"] by (auto simp: event_msg_def)
  with w' show ?thesis by auto
qed

lemma publish_event_live:
  assumes "rup (rds w)" "sane_clock w" "Timestamp e = zero_time"
  shows "\<exists>w' t. run_state (PublishJobEvent C e) w = (None, w') \<and> rup (rds w') \<and>
                pub (rds w') = pub (rds w) @ [event_msg e t]"
proof -
  let ?t = "clk w (ticks w)"
  obtain r' where "Publish C eventChannel (snd (event_msg e ?t)) (rds w) = (None, r')" "rup r'"
    using up_publish [OF assms(1)] by blast
  moreover from this have "pub r' = pub (rds w) @ [event_msg e ?t]"
    using publish_ok by (fastforce simp: event_msg_def)
  moreover have "year_ok ?t" using assms(2) by (simp add: sane_clock_def)
  ultimately show ?thesis
    using assms(3)
    by (auto simp: PublishJobEvent_def run_time_Now run_rds_call json_Marshal_event_def event_msg_def)
qed

end

sublocale redis \<subseteq> bus: event_bus ks pub rup "PublishJobEvent C"
  by unfold_locales (fact publish_event_run publish_event_live)+

end
