(* ===== verification/Scheduler.thy ===== *)
theory Scheduler
  imports StoreQueries Event "HOL-Library.Sublist"
begin

text \<open>
  The package \<^verbatim>\<open>scheduler\<close> (\<^verbatim>\<open>src/internal/scheduler/scheduler.go\<close>): what its three loops do
  at a tick, and the start and stop of the loops as a state machine.
\<close>

record ('d, 'r) Scheduler =
  sc_store :: "'d PostgresStorage"
  sc_queue :: "'r RedisQueue"
  sc_jobTimeout :: duration
  sc_redisClient :: "'r redis_client"

definition Scheduler_New :: "'d PostgresStorage \<Rightarrow> 'r RedisQueue \<Rightarrow> duration \<Rightarrow> 'r redis_client \<Rightarrow> ('d, 'r) Scheduler" where
  "Scheduler_New st q timeout rdb =
     \<lparr>sc_store = st, sc_queue = q, sc_jobTimeout = timeout, sc_redisClient = rdb\<rparr>"

section \<open>The work of a tick\<close>

definition sc_publishEvent :: "lib \<Rightarrow> ('d, 'r) Scheduler \<Rightarrow> string \<Rightarrow> Job \<Rightarrow> (('d, 'r) world, unit) state" where
  "sc_publishEvent L s eventType job =
     do {
       _ \<leftarrow> PublishJobEvent (sc_redisClient s)
              \<lparr>ev_Type = eventType, ev_JobID = uuid_String L (ID job), ev_Queue = Queue job,
               ev_Status = Status job, Timestamp = zero_time\<rparr>;
       ret ()
     }"

text \<open>The body of the loop over the due entries.\<close>

definition enqueue_due :: "lib \<Rightarrow> ('d, 'r) Scheduler \<Rightarrow> string \<Rightarrow> (('d, 'r) world, unit) state" where
  "enqueue_due L s jobIDStr =
     (case uuid_Parse L jobIDStr of
        None \<Rightarrow> ret ()
      | Some jid \<Rightarrow>
          do {
            r \<leftarrow> GetJob (sc_store s) jid;
            case r of
              Inl _ \<Rightarrow> ret ()
            | Inr job \<Rightarrow>
                do {
                  err \<leftarrow> Push (sc_queue s) (Queue job) jobIDStr;
                  case err of
                    Some _ \<Rightarrow> ret ()
                  | None \<Rightarrow>
                      do {
                        when_do (Status job = StatusRetrying)
                          (do { _ \<leftarrow> UpdateJobStatus (sc_store s) (ID job) StatusPending; ret () });
                        sc_publishEvent L s ''job.enqueued'' job
                      }
                }
          })"

definition processScheduledJobs :: "lib \<Rightarrow> ('d, 'r) Scheduler \<Rightarrow> (('d, 'r) world, unit) state" where
  "processScheduledJobs L s =
     do {
       now \<leftarrow> time_Now;
       r \<leftarrow> GetDueJobs (sc_queue s) now;
       case r of Inl _ \<Rightarrow> ret () | Inr dueJobIDs \<Rightarrow> for_each dueJobIDs (enqueue_due L s)
     }"

definition recoverUnqueuedJobs :: "lib \<Rightarrow> ('d, 'r) Scheduler \<Rightarrow> (('d, 'r) world, unit) state" where
  "recoverUnqueuedJobs L s =
     do {
       r \<leftarrow> GetPendingUnqueued (sc_store s) (5 * time_Second);
       case r of
         Inl _ \<Rightarrow> ret ()
       | Inr js \<Rightarrow>
           for_each js (\<lambda>job. do { _ \<leftarrow> Push (sc_queue s) (Queue job) (uuid_String L (ID job)); ret () })
     }"

definition recoverStaleJobs :: "lib \<Rightarrow> ('d, 'r) Scheduler \<Rightarrow> (('d, 'r) world, unit) state" where
  "recoverStaleJobs L s =
     do {
       r \<leftarrow> GetStaleRunningJobs (sc_store s) (sc_jobTimeout s);
       case r of
         Inl _ \<Rightarrow> ret ()
       | Inr js \<Rightarrow>
           for_each js (\<lambda>job.
             do {
               _ \<leftarrow> UpdateJobError (sc_store s) (ID job) StatusFailed (RetryCount job) ''job timed out (stale)'';
               sc_publishEvent L s ''job.stale_recovered'' job
             })
     }"

section \<open>Start and stop\<close>

text \<open>
  The state of a scheduler's goroutines.  \<open>loops\<close> are the loops that have not returned (the
  wait group), \<open>ctx_done\<close> whether their context is cancelled, \<open>stopping\<close> that
  \<^verbatim>\<open>Stop\<close> holds the mutex and waits.
\<close>

datatype loop = ScheduledLoop | RecoveryLoop | StaleCheckLoop

record sched_ctl =
  running :: bool
  loops :: "loop list"
  ctx_done :: bool
  stopping :: bool

definition ctl_new :: sched_ctl where
  "ctl_new = \<lparr>running = False, loops = [], ctx_done = False, stopping = False\<rparr>"

fun tick_body :: "lib \<Rightarrow> ('d, 'r) Scheduler \<Rightarrow> loop \<Rightarrow> (('d, 'r) world, unit) state" where
  "tick_body L s ScheduledLoop = processScheduledJobs L s"
| "tick_body L s RecoveryLoop = recoverUnqueuedJobs L s"
| "tick_body L s StaleCheckLoop = recoverStaleJobs L s"

definition sc_Start :: "sched_ctl \<Rightarrow> (('d, 'r) world, sched_ctl) state" where
  "sc_Start c =
     (if running c then ret c
      else do {
        metric_do SchedulerActive [] (SetTo 1);
        ret (c\<lparr>running := True, ctx_done := False, loops := loops c @ [ScheduledLoop, RecoveryLoop, StaleCheckLoop]\<rparr>)
      })"

definition sc_Stop_begin :: "sched_ctl \<Rightarrow> sched_ctl" where
  "sc_Stop_begin c = (if \<not> running c then c else c\<lparr>ctx_done := True, stopping := True\<rparr>)"

definition sc_Stop_end :: "sched_ctl \<Rightarrow> (('d, 'r) world, sched_ctl) state" where
  "sc_Stop_end c =
     do {
       metric_do SchedulerActive [] (SetTo 0);
       ret (c\<lparr>running := False, stopping := False\<rparr>)
     }"

text \<open>
  A loop whose context is cancelled may still take a tick that is ready, and returns at
  another of its turns.  \<^verbatim>\<open>Start\<close> and \<^verbatim>\<open>Stop\<close> need the mutex.  The context given to
  \<^verbatim>\<open>Start\<close> may be cancelled at any time.
\<close>

inductive sched_step ::
  "lib \<Rightarrow> ('d, 'r) Scheduler \<Rightarrow> sched_ctl \<times> ('d, 'r) world \<Rightarrow> sched_ctl \<times> ('d, 'r) world \<Rightarrow> bool"
  for L s where
  start: "\<not> stopping c \<Longrightarrow> run_state (sc_Start c) w = (c', w') \<Longrightarrow> sched_step L s (c, w) (c', w')"
| stop_begin: "\<not> stopping c \<Longrightarrow> sched_step L s (c, w) (sc_Stop_begin c, w)"
| stop_end: "stopping c \<Longrightarrow> loops c = [] \<Longrightarrow> run_state (sc_Stop_end c) w = (c', w') \<Longrightarrow>
               sched_step L s (c, w) (c', w')"
| tick: "l \<in> set (loops c) \<Longrightarrow> run_state (tick_body L s l) w = ((), w') \<Longrightarrow> sched_step L s (c, w) (c, w')"
| parent_done: "sched_step L s (c, w) (c\<lparr>ctx_done := True\<rparr>, w)"
| leave: "l \<in> set (loops c) \<Longrightarrow> ctx_done c \<Longrightarrow> sched_step L s (c, w) (c\<lparr>loops := remove1 l (loops c)\<rparr>, w)"

inductive_cases sched_stepE: "sched_step L s (c, w) z"

section \<open>The contract with the store\<close>

text \<open>
  The scheduler needs two more queries of the store.  \<open>rnd\<close> is how the server rounds the
  time of an argument.
\<close>

locale recovery_store = job_store jobs ok live getJob updStatus updError
  for jobs :: "'d \<Rightarrow> Job list" and ok live
    and getJob :: "uuid \<Rightarrow> (('d, 'r) world, Job result) state" and updStatus updError +
  fixes rnd :: "'d \<Rightarrow> time \<Rightarrow> time"
    and pending :: "duration \<Rightarrow> (('d, 'r) world, Job list result) state"
    and stale :: "duration \<Rightarrow> (('d, 'r) world, Job list result) state"
  assumes pending_run: "ok (db w) \<Longrightarrow> run_state (pending a) w = (x, w') \<Longrightarrow>
          ok (db w') \<and> jobs (db w') = jobs (db w) \<and> w' = w\<lparr>ticks := Suc (ticks w), db := db w'\<rparr> \<and>
          (\<forall>js. x = Inr js \<longrightarrow> (\<exists>js' k. mset js' = mset (jobs (db w)) \<and>
                js = take k (take 100 (sort_key CreatedAt
                  (filter (pending_before (rnd (db w) (clk w (ticks w) + wrap64 (- a)))) js')))))"
    and pending_live: "ok (db w) \<Longrightarrow> live (db w) \<Longrightarrow>
          \<exists>js' w'. mset js' = mset (jobs (db w)) \<and> live (db w') \<and>
            run_state (pending a) w = (Inr (take 100 (sort_key CreatedAt
                (filter (pending_before (rnd (db w) (clk w (ticks w) + wrap64 (- a)))) js'))), w')"
    and stale_run: "ok (db w) \<Longrightarrow> run_state (stale a) w = (x, w') \<Longrightarrow>
          ok (db w') \<and> jobs (db w') = jobs (db w) \<and> w' = w\<lparr>ticks := Suc (ticks w), db := db w'\<rparr> \<and>
          (\<forall>js. x = Inr js \<longrightarrow> (\<exists>js' k. mset js' = mset (jobs (db w)) \<and>
                js = take k (take 100 (sort_key (\<lambda>j. the (StartedAt j))
                  (filter (running_before (rnd (db w) (clk w (ticks w) + wrap64 (-2 * a)))) js')))))"
    and stale_live: "ok (db w) \<Longrightarrow> live (db w) \<Longrightarrow>
          \<exists>js' w'. mset js' = mset (jobs (db w)) \<and> live (db w') \<and>
            run_state (stale a) w = (Inr (take 100 (sort_key (\<lambda>j. the (StartedAt j))
                (filter (running_before (rnd (db w) (clk w (ticks w) + wrap64 (-2 * a)))) js'))), w')"

sublocale storage \<subseteq> recovery: recovery_store jobs ok up "GetJob s" "UpdateJobStatus s" "UpdateJobError s"
    "\<lambda>d. ts_in (env d)" "GetPendingUnqueued s" "GetStaleRunningJobs s"
  by unfold_locales
     (fact GetPendingUnqueued_run GetPendingUnqueued_live GetStaleRunningJobs_run GetStaleRunningJobs_live)+

locale scheduler_env =
  S: recovery_store jobs ok live
    "GetJob (sc_store s) :: uuid \<Rightarrow> (('d, 'r) world, Job result) state"
    "UpdateJobStatus (sc_store s) :: uuid \<Rightarrow> JobStatus \<Rightarrow> (('d, 'r) world, string option) state"
    "UpdateJobError (sc_store s) :: uuid \<Rightarrow> JobStatus \<Rightarrow> int \<Rightarrow> string \<Rightarrow> (('d, 'r) world, string option) state"
    rnd "GetPendingUnqueued (sc_store s) :: duration \<Rightarrow> (('d, 'r) world, Job list result) state"
    "GetStaleRunningJobs (sc_store s) :: duration \<Rightarrow> (('d, 'r) world, Job list result) state" +
  Q: task_queue ks pub qlive
    "Push (sc_queue s) :: string \<Rightarrow> string \<Rightarrow> (('d, 'r) world, string option) state"
    "Pop (sc_queue s)" "Schedule (sc_queue s)" "GetDueJobs (sc_queue s)" +
  B: event_bus ks pub qlive "PublishJobEvent (sc_redisClient s) :: JobEvent \<Rightarrow> (('d, 'r) world, string option) state" +
  uuid_codec L
  for s :: "('d, 'r) Scheduler" and jobs :: "'d \<Rightarrow> Job list" and ok live rnd ks pub qlive and L :: lib

section \<open>What is pushed\<close>

definition push_all :: "(string \<times> string) list \<Rightarrow> (string \<Rightarrow> string list) \<Rightarrow> string \<Rightarrow> string list" where
  "push_all ps f q = f q @ map snd (filter (\<lambda>p. fst p = q) ps)"

lemma push_all_Nil [simp]: "push_all [] f = f"
  by (simp add: push_all_def fun_eq_iff)

lemma push_all_Cons: "push_all ((q, v) # ps) f = push_all ps (f(q := f q @ [v]))"
  by (simp add: push_all_def fun_eq_iff)

text \<open>The stored job a due entry stands for, and the pushes a list of due entries causes.\<close>

definition due_job :: "lib \<Rightarrow> Job list \<Rightarrow> string \<Rightarrow> Job option" where
  "due_job L js sid = Option.bind (uuid_Parse L sid) (look js)"

definition due_pushes :: "lib \<Rightarrow> Job list \<Rightarrow> string list \<Rightarrow> (string \<times> string) list" where
  "due_pushes L js sids = List.map_filter (\<lambda>sid. map_option (\<lambda>j. (Queue j, sid)) (due_job L js sid)) sids"

text \<open>A job of \<open>S\<close> that was retrying is pending, nothing else changed.\<close>

definition requeued :: "uuid set \<Rightarrow> Job list \<Rightarrow> Job list \<Rightarrow> bool" where
  "requeued S js js' \<longleftrightarrow>
     (\<forall>k. \<exists>n u. look js' k =
        map_option (\<lambda>j. if k \<in> S \<and> Status j = StatusRetrying then set_status StatusPending n u j else j) (look js k))"

lemma requeued_same:
  assumes "\<And>k j. k \<in> S \<Longrightarrow> look js k = Some j \<Longrightarrow> Status j \<noteq> StatusRetrying"
  shows "requeued S js js"
  unfolding requeued_def
proof
  fix k
  show "\<exists>n u. look js k =
      map_option (\<lambda>j. if k \<in> S \<and> Status j = StatusRetrying then set_status StatusPending n u j else j) (look js k)"
    using assms by (cases "look js k") auto
qed

lemma requeued_empty: "requeued {} js js"
  by (rule requeued_same) simp

lemma requeued_Queue:
  assumes "requeued S js js'"
  shows "map_option Queue (look js' k) = map_option Queue (look js k)"
proof -
  obtain n u where "look js' k =
      map_option (\<lambda>j. if k \<in> S \<and> Status j = StatusRetrying then set_status StatusPending n u j else j) (look js k)"
    using assms unfolding requeued_def by blast
  then show ?thesis by (cases "look js k") (simp_all add: set_status_def)
qed

lemma requeued_trans:
  assumes "requeued S js js'" "requeued T js' js''"
  shows "requeued (S \<union> T) js js''"
  unfolding requeued_def
proof
  fix k
  obtain n u where 1: "look js' k =
      map_option (\<lambda>j. if k \<in> S \<and> Status j = StatusRetrying then set_status StatusPending n u j else j) (look js k)"
    using assms(1) unfolding requeued_def by blast
  obtain n' u' where 2: "look js'' k =
      map_option (\<lambda>j. if k \<in> T \<and> Status j = StatusRetrying then set_status StatusPending n' u' j else j) (look js' k)"
    using assms(2) unfolding requeued_def by blast
  have ne: "Status (set_status StatusPending n u j) \<noteq> StatusRetrying" for j
    by (simp add: set_status_def go_const)
  show "\<exists>n u. look js'' k =
      map_option (\<lambda>j. if k \<in> S \<union> T \<and> Status j = StatusRetrying then set_status StatusPending n u j else j) (look js k)"
    using 1 2 ne by (cases "look js k") (auto split: if_splits)
qed

lemma due_pushes_cong:
  assumes r: "\<And>k. map_option Queue (look js' k) = map_option Queue (look js k)"
  shows "due_pushes L js' sids = due_pushes L js sids"
proof -
  have "map_option (\<lambda>j. (Queue j, sid)) (due_job L js' sid) = map_option (\<lambda>j. (Queue j, sid)) (due_job L js sid)" for sid
  proof -
    have "map_option (\<lambda>q. (q, sid)) (map_option Queue (due_job L js' sid)) =
          map_option (\<lambda>q. (q, sid)) (map_option Queue (due_job L js sid))"
      using r by (cases "uuid_Parse L sid") (simp_all add: due_job_def)
    then show ?thesis by (simp add: option.map_comp comp_def)
  qed
  then show ?thesis by (simp add: due_pushes_def)
qed

text \<open>The same where calls may fail: some of the retrying jobs of \<open>S\<close> are pending.\<close>

definition may_requeue :: "uuid set \<Rightarrow> Job list \<Rightarrow> Job list \<Rightarrow> bool" where
  "may_requeue S js js' \<longleftrightarrow>
     (\<forall>k. look js' k = look js k \<or>
          (\<exists>j n u. k \<in> S \<and> look js k = Some j \<and> Status j = StatusRetrying \<and>
                   look js' k = Some (set_status StatusPending n u j)))"

lemma may_requeue_refl: "may_requeue S js js"
  by (simp add: may_requeue_def)

lemma may_requeue_trans:
  assumes "may_requeue S js js'" "may_requeue T js' js''"
  shows "may_requeue (S \<union> T) js js''"
proof -
  have ne: "Status (set_status StatusPending n u j) \<noteq> StatusRetrying" for j n u
    by (simp add: set_status_def go_const)
  show ?thesis
    using assms ne unfolding may_requeue_def by (metis UnCI option.inject)
qed

lemma may_requeue_Queue: "may_requeue S js js' \<Longrightarrow> map_option Queue (look js' k) = map_option Queue (look js k)"
  unfolding may_requeue_def by (erule allE [of _ k]) (auto simp: set_status_def)

text \<open>The jobs \<open>st\<close> have become failed, with their counts as they were.\<close>

definition timed_out :: "Job list \<Rightarrow> Job list \<Rightarrow> Job list \<Rightarrow> bool" where
  "timed_out st js js' \<longleftrightarrow>
     (\<forall>k. \<exists>u. look js' k = map_option (\<lambda>j. if k \<in> ID ` set st
        then set_error StatusFailed (RetryCount j) ''job timed out (stale)'' u j else j) (look js k))"

lemma timed_out_Nil: "timed_out [] js js"
  by (simp add: timed_out_def option.map_ident)

lemma timed_out_Cons:
  assumes "look js (ID j) = Some j" "timed_out st (upd_job (ID j)
     (set_error StatusFailed (RetryCount j) ''job timed out (stale)'' u) js) js'"
  shows "timed_out (j # st) js js'"
  unfolding timed_out_def
proof
  fix k
  obtain u' where "look js' k = map_option (\<lambda>j. if k \<in> ID ` set st
        then set_error StatusFailed (RetryCount j) ''job timed out (stale)'' u' j else j)
      (look (upd_job (ID j) (set_error StatusFailed (RetryCount j) ''job timed out (stale)'' u) js) k)"
    using assms(2) unfolding timed_out_def by blast
  then have *: "look js' k = (if k = ID j
      then Some (set_error StatusFailed (RetryCount j) ''job timed out (stale)'' (if k \<in> ID ` set st then u' else u) j)
      else map_option (\<lambda>j. if k \<in> ID ` set st
        then set_error StatusFailed (RetryCount j) ''job timed out (stale)'' u' j else j) (look js k))"
    using assms(1) by (simp add: set_error_def)
  show "\<exists>u. look js' k = map_option (\<lambda>x. if k \<in> ID ` set (j # st)
        then set_error StatusFailed (RetryCount x) ''job timed out (stale)'' u x else x) (look js k)"
  proof (cases "k = ID j")
    case True
    with * assms(1) show ?thesis by auto
  next
    case False
    with * show ?thesis by (intro exI [of _ u']) simp
  qed
qed

section \<open>A tick with the services up\<close>

context scheduler_env
begin

abbreviation serving :: "('d, 'r) world \<Rightarrow> bool" where
  "serving \<equiv> services_up ok live ks qlive"

lemmas serving_def = services_up_def

lemma publish_serving:
  assumes "serving w"
  obtains w' t where "run_state (sc_publishEvent L s ty j) w = ((), w')" "serving w'" "db w' = db w"
    "ks (rds w') = ks (rds w)" "pub (rds w') = pub (rds w) @ [event_msg (job_event L ty j) t]"
proof -
  have "Timestamp (job_event L ty j) = zero_time" by (simp add: job_event_def)
  then obtain n r' t where "run_state (PublishJobEvent (sc_redisClient s) (job_event L ty j)) w = (None, w\<lparr>ticks := n, rds := r'\<rparr>)"
    "qlive r'" "ks r' = ks (rds w)" "pub r' = pub (rds w) @ [event_msg (job_event L ty j) t]"
    using B.publish_exact assms unfolding serving_def by blast
  with assms show thesis
    using that [of "w\<lparr>ticks := n, rds := r'\<rparr>" t] by (simp add: sc_publishEvent_def job_event_def serving_def)
qed

lemma push_serving:
  assumes "serving w"
  obtains w' where "run_state (Push (sc_queue s) q v) w = (None, w')" "serving w'" "db w' = db w"
    "waiting (ks (rds w')) = (waiting (ks (rds w)))(q := waiting (ks (rds w)) q @ [v])"
    "sched (ks (rds w')) = sched (ks (rds w))" "pub (rds w') = pub (rds w)"
proof -
  obtain r' where "run_state (Push (sc_queue s) q v) w = (None, w\<lparr>rds := r'\<rparr>)" "qlive r'" "pub r' = pub (rds w)"
    "sched (ks r') = sched (ks (rds w))" "ks_ok (ks r') = ks_ok (ks (rds w))"
    "waiting (ks r') = (waiting (ks (rds w)))(q := waiting (ks (rds w)) q @ [v])"
    using Q.push_exact assms unfolding serving_def by metis
  with assms show thesis using that [of "w\<lparr>rds := r'\<rparr>"] by (simp add: serving_def)
qed

lemma promote_serving:
  assumes "serving w" "look (jobs (db w)) i = Some j"
  obtains w' where
    "run_state (when_do (Status j = StatusRetrying)
       (do { _ \<leftarrow> UpdateJobStatus (sc_store s) (ID j) StatusPending; ret () })) w = ((), w')"
    "serving w'" "rds w' = rds w" "requeued {i} (jobs (db w)) (jobs (db w'))"
proof (cases "Status j = StatusRetrying")
  case True
  have ID: "ID j = i" using assms(2) by (rule look_ID)
  obtain d' n u where 1: "run_state (UpdateJobStatus (sc_store s) i StatusPending) w = (None, w\<lparr>ticks := Suc (ticks w), db := d'\<rparr>)"
    "ok d'" "live d'" "jobs d' = upd_job i (set_status StatusPending n u) (jobs (db w))"
    using S.status_exact [of w StatusPending] assms(1) unfolding serving_def by (metis status_texts(1,9))
  have "requeued {i} (jobs (db w)) (jobs d')"
    unfolding requeued_def
  proof
    fix k
    show "\<exists>n u. look (jobs d') k = map_option (\<lambda>j. if k \<in> {i} \<and> Status j = StatusRetrying then
            set_status StatusPending n u j else j) (look (jobs (db w)) k)"
      using 1(4) assms(2) True by (intro exI [of _ n] exI [of _ u]) (simp add: option.map_ident)
  qed
  with 1 True assms(1) show thesis
    using that [of "w\<lparr>ticks := Suc (ticks w), db := d'\<rparr>"] by (simp add: run_when ID serving_def)
next
  case False
  have "requeued {i} (jobs (db w)) (jobs (db w))"
    using False assms(2) by (intro requeued_same) auto
  with False assms(1) show thesis using that [of w] by (simp add: run_when)
qed

lemma enqueue_due_serving:
  assumes "serving w"
  obtains w' where "run_state (enqueue_due L s sid) w = ((), w')" "serving w'"
    "waiting (ks (rds w')) = push_all (due_pushes L (jobs (db w)) [sid]) (waiting (ks (rds w)))"
    "sched (ks (rds w')) = sched (ks (rds w))"
    "requeued {i. uuid_Parse L sid = Some i} (jobs (db w)) (jobs (db w'))"
proof (cases "uuid_Parse L sid")
  case None
  then show thesis
    using that [of w] assms requeued_empty
    by (simp add: enqueue_due_def due_pushes_def due_job_def map_filter_simps)
next
  case (Some i)
  have up: "ok (db w)" "live (db w)" using assms by (simp_all add: serving_def)
  show thesis
  proof (cases "look (jobs (db w)) i")
    case None
    obtain e d' where g: "run_state (GetJob (sc_store s) i) w = (Inl e, w\<lparr>db := d'\<rparr>)" "ok d'" "live d'" "jobs d' = jobs (db w)"
      using up None by (rule S.get_none_exact)
    have "requeued {i} (jobs (db w)) (jobs (db w))"
      using None by (intro requeued_same) auto
    with None Some g assms show thesis
      using that [of "w\<lparr>db := d'\<rparr>"]
      by (simp add: enqueue_due_def due_pushes_def due_job_def map_filter_simps serving_def)
  next
    case j: (Some j)
    obtain d' where g: "run_state (GetJob (sc_store s) i) w = (Inr j, w\<lparr>db := d'\<rparr>)" "ok d'" "live d'" "jobs d' = jobs (db w)"
      using up j by (rule S.get_exact)
    have "serving (w\<lparr>db := d'\<rparr>)" using g assms by (simp add: serving_def)
    then obtain w1 where 1: "run_state (Push (sc_queue s) (Queue j) sid) (w\<lparr>db := d'\<rparr>) = (None, w1)" "serving w1"
      "db w1 = d'" "waiting (ks (rds w1)) = (waiting (ks (rds w)))(Queue j := waiting (ks (rds w)) (Queue j) @ [sid])"
      "sched (ks (rds w1)) = sched (ks (rds w))" "pub (rds w1) = pub (rds w)"
      using push_serving [of "w\<lparr>db := d'\<rparr>" "Queue j" sid] by auto
    have "look (jobs (db w1)) i = Some j" using j g(4) 1(3) by simp
    with 1(2) obtain w2 where 2: "run_state (when_do (Status j = StatusRetrying)
       (do { _ \<leftarrow> UpdateJobStatus (sc_store s) (ID j) StatusPending; ret () })) w1 = ((), w2)"
      "serving w2" "rds w2 = rds w1" "requeued {i} (jobs (db w1)) (jobs (db w2))"
      by (rule promote_serving)
    obtain w3 t where 3: "run_state (sc_publishEvent L s ''job.enqueued'' j) w2 = ((), w3)" "serving w3"
      "db w3 = db w2" "ks (rds w3) = ks (rds w2)"
      using 2(2) by (rule publish_serving)
    show thesis
      using that [of w3] Some j g 1 2 3
      by (simp add: enqueue_due_def due_pushes_def due_job_def map_filter_simps push_all_Cons)
  qed
qed

lemma enqueue_all_serving:
  assumes "serving w"
  shows "\<exists>w'. run_state (for_each sids (enqueue_due L s)) w = ((), w') \<and> serving w' \<and>
           waiting (ks (rds w')) = push_all (due_pushes L (jobs (db w)) sids) (waiting (ks (rds w))) \<and>
           sched (ks (rds w')) = sched (ks (rds w)) \<and>
           requeued {i. \<exists>sid\<in>set sids. uuid_Parse L sid = Some i} (jobs (db w)) (jobs (db w'))"
  using assms
proof (induction sids arbitrary: w)
  case Nil
  then show ?case using requeued_empty by (simp add: due_pushes_def map_filter_simps)
next
  case (Cons sid sids)
  obtain w1 where 1: "run_state (enqueue_due L s sid) w = ((), w1)" "serving w1"
    "waiting (ks (rds w1)) = push_all (due_pushes L (jobs (db w)) [sid]) (waiting (ks (rds w)))"
    "sched (ks (rds w1)) = sched (ks (rds w))"
    "requeued {i. uuid_Parse L sid = Some i} (jobs (db w)) (jobs (db w1))"
    using Cons.prems by (rule enqueue_due_serving)
  obtain w2 where 2: "run_state (for_each sids (enqueue_due L s)) w1 = ((), w2)" "serving w2"
    "waiting (ks (rds w2)) = push_all (due_pushes L (jobs (db w1)) sids) (waiting (ks (rds w1)))"
    "sched (ks (rds w2)) = sched (ks (rds w1))"
    "requeued {i. \<exists>sid\<in>set sids. uuid_Parse L sid = Some i} (jobs (db w1)) (jobs (db w2))"
    using Cons.IH [OF 1(2)] by blast
  have "{i. uuid_Parse L sid = Some i} \<union> {i. \<exists>sid\<in>set sids. uuid_Parse L sid = Some i} =
        {i. \<exists>sid'\<in>set (sid # sids). uuid_Parse L sid' = Some i}" by auto
  then have "requeued {i. \<exists>sid'\<in>set (sid # sids). uuid_Parse L sid' = Some i} (jobs (db w)) (jobs (db w2))"
    using requeued_trans [OF 1(5) 2(5)] by simp
  moreover have "push_all (due_pushes L (jobs (db w)) sids) (push_all (due_pushes L (jobs (db w)) [sid]) f) =
      push_all (due_pushes L (jobs (db w)) (sid # sids)) f" for f
    by (auto simp: due_pushes_def map_filter_simps push_all_def fun_eq_iff split: option.split)
  ultimately show ?case
    using 1 2 due_pushes_cong [OF requeued_Queue [OF 1(5)], of L sids] by simp
qed

lemma processScheduledJobs_serving:
  assumes "serving w"
  defines "h \<equiv> f64_int (Unix (clk w (ticks w)))"
  shows "\<exists>w'. run_state (processScheduledJobs L s) w = ((), w') \<and> serving w' \<and>
           waiting (ks (rds w')) =
             push_all (due_pushes L (jobs (db w)) (due_members h (ks (rds w)))) (waiting (ks (rds w))) \<and>
           sched (ks (rds w')) = (\<lambda>m. case sched (ks (rds w)) m of None \<Rightarrow> None | Some t \<Rightarrow> if t \<le> h then None else Some t) \<and>
           requeued {i. \<exists>sid\<in>set (due_members h (ks (rds w))). uuid_Parse L sid = Some i} (jobs (db w)) (jobs (db w'))"
proof -
  let ?w = "w\<lparr>ticks := Suc (ticks w)\<rparr>" and ?now = "clk w (ticks w)"
  have "qlive (rds ?w)" "ks_ok (ks (rds ?w))" "in_int64 (Unix ?now)"
    using assms(1) year_ok_Unix by (simp_all add: serving_def sane_clock_def)
  then obtain r' where r: "run_state (GetDueJobs (sc_queue s) ?now) ?w =
      (Inr (due_members h (ks (rds w))), ?w\<lparr>rds := r'\<rparr>)" "qlive r'" "pub r' = pub (rds w)"
    "waiting (ks r') = waiting (ks (rds w))" "ks_ok (ks r')"
    "sched (ks r') = (\<lambda>m. case sched (ks (rds w)) m of None \<Rightarrow> None | Some t \<Rightarrow> if t \<le> h then None else Some t)"
    using Q.due_exact [of ?w ?now] unfolding h_def by auto
  have "serving (?w\<lparr>rds := r'\<rparr>)" using r assms(1) by (simp add: serving_def)
  from enqueue_all_serving [OF this, of "due_members h (ks (rds w))"] r show ?thesis
    by (auto simp: processScheduledJobs_def run_time_Now)
qed

lemma push_list_serving:
  assumes "serving w"
  shows "\<exists>w'. run_state (for_each js (\<lambda>job. do { _ \<leftarrow> Push (sc_queue s) (Queue job) (uuid_String L (ID job)); ret () })) w
              = ((), w') \<and> serving w' \<and> db w' = db w \<and> sched (ks (rds w')) = sched (ks (rds w)) \<and>
           waiting (ks (rds w')) = push_all (map (\<lambda>j. (Queue j, uuid_String L (ID j))) js) (waiting (ks (rds w)))"
  using assms
proof (induction js arbitrary: w)
  case Nil
  then show ?case by simp
next
  case (Cons j js)
  obtain w1 where 1: "run_state (Push (sc_queue s) (Queue j) (uuid_String L (ID j))) w = (None, w1)" "serving w1"
    "db w1 = db w"
    "waiting (ks (rds w1)) = (waiting (ks (rds w)))(Queue j := waiting (ks (rds w)) (Queue j) @ [uuid_String L (ID j)])"
    "sched (ks (rds w1)) = sched (ks (rds w))"
    using Cons.prems by (rule push_serving)
  obtain w2 where 2: "run_state (for_each js (\<lambda>job. do { _ \<leftarrow> Push (sc_queue s) (Queue job) (uuid_String L (ID job)); ret () })) w1
      = ((), w2)" "serving w2" "db w2 = db w1" "sched (ks (rds w2)) = sched (ks (rds w1))"
    "waiting (ks (rds w2)) = push_all (map (\<lambda>j. (Queue j, uuid_String L (ID j))) js) (waiting (ks (rds w1)))"
    using Cons.IH [OF 1(2)] by blast
  with 1 show ?case by (intro exI [of _ w2]) (simp add: push_all_Cons)
qed

lemma recoverUnqueuedJobs_serving:
  assumes "serving w"
  shows "\<exists>js' w'. mset js' = mset (jobs (db w)) \<and> run_state (recoverUnqueuedJobs L s) w = ((), w') \<and> serving w' \<and>
           jobs (db w') = jobs (db w) \<and> sched (ks (rds w')) = sched (ks (rds w)) \<and>
           waiting (ks (rds w')) = push_all (map (\<lambda>j. (Queue j, uuid_String L (ID j)))
             (take 100 (sort_key CreatedAt
                (filter (pending_before (rnd (db w) (clk w (ticks w) - 5 * time_Second))) js')))) (waiting (ks (rds w)))"
proof -
  have up: "ok (db w)" "live (db w)" using assms by (simp_all add: serving_def)
  have neg: "wrap64 (- (5 * time_Second)) = - (5 * time_Second)"
    by (rule wrap64_id) (simp add: in_int64_def time_Second_def)
  let ?sel = "\<lambda>js'. take 100 (sort_key CreatedAt (filter (pending_before (rnd (db w) (clk w (ticks w) - 5 * time_Second))) js'))"
  obtain js' w1 where 1: "mset js' = mset (jobs (db w))" "live (db w1)"
    "run_state (GetPendingUnqueued (sc_store s) (5 * time_Second)) w = (Inr (?sel js'), w1)"
    using S.pending_live [OF up, of "5 * time_Second"] by (auto simp: neg)
  from S.pending_run [OF up(1) 1(3)] obtain d where
    d: "w1 = w\<lparr>ticks := Suc (ticks w), db := d\<rparr>" "ok d" "jobs d = jobs (db w)" by auto
  have "serving w1" using d 1(2) assms by (simp add: serving_def)
  from push_list_serving [OF this, of "?sel js'"] 1 d show ?thesis
    by (intro exI [of _ js']) (auto simp: recoverUnqueuedJobs_def)
qed

lemma fail_list_serving:
  assumes "serving w" "\<And>j. j \<in> set st \<Longrightarrow> \<exists>j'. look (jobs (db w)) (ID j) = Some j' \<and> RetryCount j' = RetryCount j"
  shows "\<exists>w'. run_state (for_each st (\<lambda>job. do {
               _ \<leftarrow> UpdateJobError (sc_store s) (ID job) StatusFailed (RetryCount job) ''job timed out (stale)'';
               sc_publishEvent L s ''job.stale_recovered'' job })) w = ((), w') \<and> serving w' \<and>
           ks (rds w') = ks (rds w) \<and> length (pub (rds w')) = length (pub (rds w)) + length st \<and>
           timed_out st (jobs (db w)) (jobs (db w'))"
  using assms
proof (induction st arbitrary: w)
  case Nil
  then show ?case using timed_out_Nil by simp
next
  case (Cons j st)
  have up: "ok (db w)" "live (db w)" using Cons.prems(1) by (simp_all add: serving_def)
  obtain j' where j': "look (jobs (db w)) (ID j) = Some j'" "RetryCount j' = RetryCount j"
    using Cons.prems(2) by auto
  then have "in_int4 (RetryCount j)"
    using S.ok_jobs [OF up(1)] by (auto simp: look_Some_iff jobs_ok_def list_all_iff job_ok_def)
  then obtain d' u where 1: "run_state (UpdateJobError (sc_store s) (ID j) StatusFailed (RetryCount j) ''job timed out (stale)'') w
      = (None, w\<lparr>db := d'\<rparr>)" "ok d'" "live d'"
    "jobs d' = upd_job (ID j) (set_error StatusFailed (RetryCount j) ''job timed out (stale)'' u) (jobs (db w))"
    using S.error_exact [OF up status_texts(4) _ status_texts(12), of "RetryCount j" "''job timed out (stale)''" "ID j"]
    by (auto simp: text_ok_def)
  have "serving (w\<lparr>db := d'\<rparr>)" using 1 Cons.prems(1) by (simp add: serving_def)
  then obtain w2 t where 2: "run_state (sc_publishEvent L s ''job.stale_recovered'' j) (w\<lparr>db := d'\<rparr>) = ((), w2)"
    "serving w2" "db w2 = db (w\<lparr>db := d'\<rparr>)" "ks (rds w2) = ks (rds (w\<lparr>db := d'\<rparr>))"
    "pub (rds w2) = pub (rds (w\<lparr>db := d'\<rparr>)) @ [event_msg (job_event L ''job.stale_recovered'' j) t]"
    by (rule publish_serving)
  have "\<exists>j'. look (jobs (db w2)) (ID x) = Some j' \<and> RetryCount j' = RetryCount x" if "x \<in> set st" for x
    using Cons.prems(2) [of x] that 1(4) 2(3) j' by (auto simp: set_error_def)
  from Cons.IH [OF 2(2) this] obtain w3 where 3: "run_state (for_each st (\<lambda>job. do {
               _ \<leftarrow> UpdateJobError (sc_store s) (ID job) StatusFailed (RetryCount job) ''job timed out (stale)'';
               sc_publishEvent L s ''job.stale_recovered'' job })) w2 = ((), w3)" "serving w3"
     "ks (rds w3) = ks (rds w2)" "length (pub (rds w3)) = length (pub (rds w2)) + length st"
     "timed_out st (jobs (db w2)) (jobs (db w3))" by blast
  have "timed_out (j' # st) (jobs (db w)) (jobs (db w3))"
    using timed_out_Cons [of "jobs (db w)" j' st u "jobs (db w3)"] 3(5) 1(4) 2(3) j' look_ID [OF j'(1)] by simp
  then have "timed_out (j # st) (jobs (db w)) (jobs (db w3))"
    using look_ID [OF j'(1)] by (simp add: timed_out_def)
  with 1 2 3 show ?case by (intro exI [of _ w3]) simp
qed

lemma recoverStaleJobs_serving:
  assumes "serving w"
  shows "\<exists>js' w'. mset js' = mset (jobs (db w)) \<and> run_state (recoverStaleJobs L s) w = ((), w') \<and> serving w' \<and>
           ks (rds w') = ks (rds w) \<and>
           timed_out (take 100 (sort_key (\<lambda>j. the (StartedAt j))
              (filter (running_before (rnd (db w) (clk w (ticks w) + wrap64 (-2 * sc_jobTimeout s)))) js')))
             (jobs (db w)) (jobs (db w'))"
proof -
  have up: "ok (db w)" "live (db w)" using assms by (simp_all add: serving_def)
  let ?sel = "\<lambda>js'. take 100 (sort_key (\<lambda>j. the (StartedAt j))
      (filter (running_before (rnd (db w) (clk w (ticks w) + wrap64 (-2 * sc_jobTimeout s)))) js'))"
  obtain js' w1 where 1: "mset js' = mset (jobs (db w))" "live (db w1)"
    "run_state (GetStaleRunningJobs (sc_store s) (sc_jobTimeout s)) w = (Inr (?sel js'), w1)"
    using S.stale_live [OF up, of "sc_jobTimeout s"] by blast
  from S.stale_run [OF up(1) 1(3)] obtain d where
    d: "w1 = w\<lparr>ticks := Suc (ticks w), db := d\<rparr>" "ok d" "jobs d = jobs (db w)" by auto
  have "serving w1" using d 1(2) assms by (simp add: serving_def)
  moreover have "\<exists>j'. look (jobs (db w1)) (ID j) = Some j' \<and> RetryCount j' = RetryCount j" if "j \<in> set (?sel js')" for j
  proof -
    have "j \<in> set (jobs (db w))"
      using set_selected [OF 1(1)] that by (rule subsetD)
    then show ?thesis using look_Some_iff [OF S.ok_jobs [OF up(1)]] d by auto
  qed
  ultimately show ?thesis
    using fail_list_serving [of w1 "?sel js'"] 1 d
    by (intro exI [of _ js']) (auto simp: recoverStaleJobs_def)
qed

section \<open>A tick when calls fail\<close>

text \<open>Whatever fails: at most one push per entry, in order, and only retrying jobs change.\<close>

lemma publish_safe:
  assumes "run_state (sc_publishEvent L s ty j) w = ((), w')"
  shows "db w' = db w \<and> ks (rds w') = ks (rds w)"
proof -
  obtain x w1 where p: "run_state (PublishJobEvent (sc_redisClient s) (job_event L ty j)) w = (x, w1)" by force
  with assms have "w' = w1" by (simp add: sc_publishEvent_def job_event_def)
  moreover obtain n r where "w1 = w\<lparr>ticks := n, rds := r\<rparr>" "ks r = ks (rds w)"
    using B.publish_run [OF p] by blast
  ultimately show ?thesis by simp
qed

lemma promote_safe:
  fixes w :: "('d, 'r) world"
  assumes "ok (db w)" "look (jobs (db w)) i = Some j"
    and "run_state (when_do (Status j = StatusRetrying)
       (do { _ \<leftarrow> UpdateJobStatus (sc_store s) (ID j) StatusPending; ret () })) w = ((), w')"
  shows "ok (db w') \<and> rds w' = rds w \<and> may_requeue {i} (jobs (db w)) (jobs (db w'))"
proof (cases "Status j = StatusRetrying")
  case True
  have ID: "ID j = i" using assms(2) by (rule look_ID)
  obtain x w1 where u: "run_state (UpdateJobStatus (sc_store s) i StatusPending) w = (x, w1)" by force
  with assms(3) True have w1: "w' = w1" by (simp add: run_when ID)
  obtain d n t where d: "w1 = w\<lparr>ticks := Suc (ticks w), db := d\<rparr>" "ok d"
    "jobs d = jobs (db w) \<or> jobs d = upd_job i (set_status StatusPending n t) (jobs (db w))"
    using S.status_run [OF assms(1) u] by blast
  have "may_requeue {i} (jobs (db w)) (jobs d)"
    unfolding may_requeue_def
  proof
    fix k
    show "look (jobs d) k = look (jobs (db w)) k \<or>
          (\<exists>j n u. k \<in> {i} \<and> look (jobs (db w)) k = Some j \<and> Status j = StatusRetrying \<and>
                   look (jobs d) k = Some (set_status StatusPending n u j))"
    proof (cases "k = i \<and> jobs d \<noteq> jobs (db w)")
      case True
      with d(3) assms(2) \<open>Status j = StatusRetrying\<close> show ?thesis
        by (intro disjI2 exI [of _ j] exI [of _ n] exI [of _ t]) simp
    next
      case False
      with d(3) show ?thesis by auto
    qed
  qed
  with d w1 show ?thesis by simp
next
  case False
  with assms show ?thesis using may_requeue_refl by (simp add: run_when)
qed

definition tick_safe :: "uuid set \<Rightarrow> string list \<Rightarrow> ('d, 'r) world \<Rightarrow> ('d, 'r) world \<Rightarrow> bool" where
  "tick_safe S sids w w' \<longleftrightarrow>
     ok (db w') \<and> (ks_ok (ks (rds w)) \<longrightarrow> ks_ok (ks (rds w'))) \<and> sched (ks (rds w')) = sched (ks (rds w)) \<and>
     may_requeue S (jobs (db w)) (jobs (db w')) \<and>
     (\<exists>vs. subseq vs (due_pushes L (jobs (db w)) sids) \<and>
           waiting (ks (rds w')) = push_all vs (waiting (ks (rds w))))"

lemma enqueue_due_safe:
  assumes "ok (db w)" "run_state (enqueue_due L s sid) w = ((), w')"
  shows "tick_safe {i. uuid_Parse L sid = Some i} [sid] w w'"
proof (cases "uuid_Parse L sid")
  case None
  with assms show ?thesis
    using may_requeue_refl by (auto simp: enqueue_due_def tick_safe_def intro: exI [of _ "[]"])
next
  case (Some i)
  obtain x w1 where g: "run_state (GetJob (sc_store s) i) w = (x, w1)" by force
  obtain d where d: "w1 = w\<lparr>db := d\<rparr>" "ok d" "jobs d = jobs (db w)"
    using S.get_run [OF assms(1) g] by blast
  show ?thesis
  proof (cases x)
    case (Inl e)
    then have "w' = w1" using assms(2) Some g by (simp add: enqueue_due_def)
    with d show ?thesis using may_requeue_refl by (auto simp: tick_safe_def intro: exI [of _ "[]"])
  next
    case (Inr j)
    then have j: "look (jobs (db w)) i = Some j" using S.get_run [OF assms(1) g] by blast
    obtain y w2 where pu: "run_state (Push (sc_queue s) (Queue j) sid) w1 = (y, w2)" by force
    obtain r where r: "w2 = w1\<lparr>rds := r\<rparr>" "sched (ks r) = sched (ks (rds w1))" "ks_ok (ks r) = ks_ok (ks (rds w1))"
      "waiting (ks r) = push_all [] (waiting (ks (rds w1))) \<or>
       waiting (ks r) = push_all [(Queue j, sid)] (waiting (ks (rds w1)))"
      using Q.push_run [OF pu] by (auto simp: push_all_Cons)
    obtain vs where vs: "subseq vs [(Queue j, sid)]" "waiting (ks r) = push_all vs (waiting (ks (rds w1)))"
      using r(4) that [of "[]"] that [of "[(Queue j, sid)]"] by blast
    have dp: "due_pushes L (jobs (db w)) [sid] = [(Queue j, sid)]"
      using Some j by (simp add: due_pushes_def due_job_def map_filter_simps)
    show ?thesis
    proof (cases y)
      case (Some e)
      then have "w' = w2" using assms(2) \<open>uuid_Parse L sid = Some i\<close> g Inr pu by (simp add: enqueue_due_def)
      with r vs d dp show ?thesis using may_requeue_refl by (auto simp: tick_safe_def)
    next
      case None
      obtain w3 where w3: "run_state (when_do (Status j = StatusRetrying)
       (do { _ \<leftarrow> UpdateJobStatus (sc_store s) (ID j) StatusPending; ret () })) w2 = ((), w3)"
        by (meson run_unit)
      have "run_state (sc_publishEvent L s ''job.enqueued'' j) w3 = ((), w')"
        using assms(2) Some g Inr pu None w3 by (simp add: enqueue_due_def)
      from publish_safe [OF this] promote_safe [OF _ _ w3, of i] d r j
      have "ok (db w')" "ks (rds w') = ks r" "may_requeue {i} (jobs (db w)) (jobs (db w'))" by auto
      with Some vs r d dp show ?thesis by (auto simp: tick_safe_def)
    qed
  qed
qed

lemma enqueue_all_safe:
  assumes "ok (db w)" "run_state (for_each sids (enqueue_due L s)) w = ((), w')"
  shows "tick_safe {i. \<exists>sid\<in>set sids. uuid_Parse L sid = Some i} sids w w'"
  using assms
proof (induction sids arbitrary: w)
  case Nil
  then show ?case using may_requeue_refl by (auto simp: tick_safe_def intro: exI [of _ "[]"])
next
  case (Cons sid sids)
  obtain w1 where 1: "run_state (enqueue_due L s sid) w = ((), w1)"
    using run_unit [of "enqueue_due L s sid" w] by blast
  note s1 = enqueue_due_safe [OF Cons.prems(1) 1]
  have "ok (db w1)" using s1 by (simp add: tick_safe_def)
  moreover have "run_state (for_each sids (enqueue_due L s)) w1 = ((), w')" using Cons.prems(2) 1 by simp
  ultimately have s2: "tick_safe {i. \<exists>sid\<in>set sids. uuid_Parse L sid = Some i} sids w1 w'" by (rule Cons.IH)
  have "map_option Queue (look (jobs (db w1)) k) = map_option Queue (look (jobs (db w)) k)" for k
    using s1 may_requeue_Queue unfolding tick_safe_def by blast
  then have dp: "due_pushes L (jobs (db w1)) sids = due_pushes L (jobs (db w)) sids"
    by (rule due_pushes_cong)
  obtain vs1 where v1: "subseq vs1 (due_pushes L (jobs (db w)) [sid])"
    "waiting (ks (rds w1)) = push_all vs1 (waiting (ks (rds w)))"
    using s1 unfolding tick_safe_def by blast
  obtain vs2 where v2: "subseq vs2 (due_pushes L (jobs (db w)) sids)"
    "waiting (ks (rds w')) = push_all vs2 (waiting (ks (rds w1)))"
    using s2 dp unfolding tick_safe_def by auto
  have "subseq (vs1 @ vs2) (due_pushes L (jobs (db w)) (sid # sids))"
    using list_emb_append_mono [OF v1(1) v2(1)] by (simp add: due_pushes_def map_filter_simps split: option.splits)
  moreover have "push_all vs2 (push_all vs1 f) = push_all (vs1 @ vs2) f" for f
    by (simp add: push_all_def fun_eq_iff)
  moreover have "{i. uuid_Parse L sid = Some i} \<union> {i. \<exists>sid\<in>set sids. uuid_Parse L sid = Some i} =
        {i. \<exists>sid'\<in>set (sid # sids). uuid_Parse L sid' = Some i}" by auto
  ultimately show ?case
    using s1 s2 v1(2) v2(2) may_requeue_trans unfolding tick_safe_def by (metis (no_types, lifting))
qed

end

end
