(* ===== verification/ElectionRun.thy ===== *)
theory ElectionRun
  imports Election Scheduler
begin

text \<open>
  The election with the scheduler it starts and stops (\<^verbatim>\<open>main.go\<close> passes \<^verbatim>\<open>sched.Start\<close> and
  \<^verbatim>\<open>sched.Stop\<close> as callbacks), a lock server in memory, and the properties of the election.
\<close>

section \<open>The callbacks of \<^verbatim>\<open>main\<close>\<close>

text \<open>\<^verbatim>\<open>Stop\<close> run to its end: the context is cancelled, the loops have returned.\<close>

definition sched_Stop :: "sched_ctl \<Rightarrow> (('d, 'r) world, sched_ctl) state" where
  "sched_Stop c = (if \<not> running c then ret c else sc_Stop_end ((sc_Stop_begin c)\<lparr>loops := []\<rparr>))"

definition main_elector :: "string \<Rightarrow> duration \<Rightarrow> ('c, sched_ctl, 'd, 'r) LeaderElector" where
  "main_elector cs poll = LeaderElector_New cs poll (Some sc_Start) (Some sched_Stop)"

definition main_node :: "string \<Rightarrow> duration \<Rightarrow> ('d, 'r) world \<Rightarrow> ('c, sched_ctl, 'd, 'r) node" where
  "main_node cs poll w = \<lparr>nd_phase = Electing, nd_el = main_elector cs poll, nd_app = ctl_new, nd_w = w\<rparr>"

lemma main_callbacks:
  "cb_ok holder used (Some sc_Start)" "cb_ok holder used (Some sched_Stop)"
  by (simp_all add: cb_ok_def exec_def sc_Start_def sched_Stop_def sc_Stop_end_def run_metric_do)

lemma main_node_fresh:
  "node_fresh (main_node cs poll w)" "onAcquire (nd_el (main_node cs poll w)) = Some sc_Start"
  "onRelease (nd_el (main_node cs poll w)) = Some sched_Stop"
  by (simp_all add: node_fresh_def main_node_def main_elector_def LeaderElector_New_def)

section \<open>The books an instance keeps\<close>

definition in_office :: "phase \<Rightarrow> bool" where
  "in_office ph \<longleftrightarrow> ph = Holding \<or> ph = Releasing \<or> ph = Panicked"

text \<open>
  The flag is set only in office; the gauge shows the flag; the scheduler is marked running just
  while in office; elections won and lost balance.
\<close>

definition books_ok :: "('c, sched_ctl, 'd, 'r) node \<Rightarrow> bool" where
  "books_ok n \<longleftrightarrow>
     onAcquire (nd_el n) = Some sc_Start \<and> onRelease (nd_el n) = Some sched_Stop \<and>
     (IsLeader (nd_el n) \<longrightarrow> in_office (nd_phase n)) \<and>
     gauge LeaderStatus (met (nd_w n)) = (if IsLeader (nd_el n) then 1 else 0) \<and>
     running (nd_app n) = in_office (nd_phase n) \<and>
     counter LeaderElectionsTotal [''acquired''] (met (nd_w n)) =
       counter LeaderElectionsTotal [''lost''] (met (nd_w n)) + (if in_office (nd_phase n) then 1 else 0)"

text \<open>The lock calls change the server only.\<close>

lemma drop_conn_frame:
  assumes "run_state (drop_conn X e) w = (e', w')"
  obtains d where "w' = w\<lparr>db := d\<rparr>" "le_isLeader e' = le_isLeader e" "onAcquire e' = onAcquire e" "onRelease e' = onRelease e"
proof (rule that)
  show "w' = w\<lparr>db := db w'\<rparr>" "le_isLeader e' = le_isLeader e" "onAcquire e' = onAcquire e" "onRelease e' = onRelease e"
    using assms by (auto simp: drop_conn_def run_db_call split: option.splits)
qed

lemma tryAcquire_frame:
  assumes "run_state (tryAcquire X e) w = ((err, e'), w')"
  obtains d where "w' = w\<lparr>db := d\<rparr>" "le_isLeader e' = le_isLeader e" "onAcquire e' = onAcquire e" "onRelease e' = onRelease e"
proof (rule that)
  show "w' = w\<lparr>db := db w'\<rparr>" "le_isLeader e' = le_isLeader e" "onAcquire e' = onAcquire e" "onRelease e' = onRelease e"
    using assms
    by (auto simp: tryAcquire_def ensure_conn_def run_db_call split: option.splits sum.splits bool.splits prod.splits)
qed

lemma sched_callbacks [simp]:
  "run_state (call_back (Some sc_Start) c) w =
     (if running c then (c, w)
      else (c\<lparr>running := True, ctx_done := False, loops := loops c @ [ScheduledLoop, RecoveryLoop, StaleCheckLoop]\<rparr>,
            w\<lparr>met := met w @ [(SchedulerActive, [], SetTo 1)]\<rparr>))"
  "run_state (call_back (Some sched_Stop) c) w =
     (if \<not> running c then (c, w)
      else (c\<lparr>ctx_done := True, stopping := False, loops := [], running := False\<rparr>,
            w\<lparr>met := met w @ [(SchedulerActive, [], SetTo 0)]\<rparr>))"
  by (simp_all add: call_back_def sc_Start_def sched_Stop_def sc_Stop_begin_def sc_Stop_end_def run_metric_do)

lemmas book_simps = books_ok_def in_office_def IsLeader_def node_world_def gauge_append counter_append counter_def run_metric_do

lemma books_step:
  assumes "node_step X (d, n) (d', n')" "books_ok n"
  shows "books_ok n'"
  using assms(1)
proof cases
  case (attempt ph e x w)
  show ?thesis
  proof (cases "cancelled (nd_w n)")
    case True
    with attempt assms(2) show ?thesis by (auto simp: Start_turn_def book_simps)
  next
    case False
    obtain err e1 w1 where 1: "run_state (tryAcquire X (nd_el n)) (node_world d n) = ((err, e1), w1)" by (metis surj_pair)
    then obtain d1 where "w1 = (node_world d n)\<lparr>db := d1\<rparr>" "le_isLeader e1 = le_isLeader (nd_el n)"
      "onAcquire e1 = onAcquire (nd_el n)" "onRelease e1 = onRelease (nd_el n)"
      by (rule tryAcquire_frame)
    with False attempt 1 assms(2) show ?thesis
      by (cases err) (auto simp: Start_turn_def book_simps)
  qed
next
  case (release ph e x w)
  with assms(2) show ?thesis by (auto simp: Start_release_def book_simps)
next
  case signal
  with assms(2) show ?thesis by (auto simp: book_simps)
qed (use assms(2) in \<open>auto simp: holdLock_done_def holdLock_tick_def verifyLock_def elector_Stop_def drop_conn_def book_simps run_db_call
        split: option.splits sum.splits bool.splits prod.splits if_splits\<close>)

section \<open>A lock server in memory\<close>

text \<open>Connections are numbers, handed out in turn; the lock of a session that was closed is free.\<close>

record lockmem =
  l_holder :: "nat option"
  l_next :: nat
  l_closed :: "nat list"

definition lm_holder :: "lockmem \<Rightarrow> nat option" where
  "lm_holder d = (case l_holder d of None \<Rightarrow> None | Some c \<Rightarrow> if c < l_next d then Some c else None)"

definition lm_pgx :: "(nat, lockmem) pgx" where
  "lm_pgx =
     \<lparr>pgx_Connect = (\<lambda>s d. (Inr (l_next d), d\<lparr>l_holder := lm_holder d, l_next := Suc (l_next d), l_closed := removeAll (l_next d) (l_closed d)\<rparr>)),
      pgx_IsClosed = (\<lambda>c d. l_next d \<le> c \<or> c \<in> set (l_closed d)),
      pgx_Close = (\<lambda>c d. d\<lparr>l_holder := (if lm_holder d = Some c then None else l_holder d), l_closed := c # l_closed d\<rparr>),
      pgx_try_lock = (\<lambda>c i d. if l_next d \<le> c then (Inl ''conn closed'', d)
                              else if lm_holder d = None \<or> lm_holder d = Some c then (Inr True, d\<lparr>l_holder := Some c\<rparr>)
                              else (Inr False, d)),
      pgx_lock_count = (\<lambda>c i d. (Inr (if lm_holder d = Some c then 1 else 0), d))\<rparr>"

interpretation lm: lock_server lm_pgx lm_holder "\<lambda>d. {..<l_next d}" "\<lambda>d. True"
  by unfold_locales (auto simp: lm_pgx_def lm_holder_def split: option.splits if_splits)

definition lm_free :: lockmem where
  "lm_free = \<lparr>l_holder = None, l_next = 0, l_closed = []\<rparr>"

definition lm_world :: "(lockmem, unit) world" where
  "lm_world = \<lparr>db = lm_free, rds = (), clk = (\<lambda>_. 0), ticks = 0, met = [], cancelled = False\<rparr>"

definition lm_nodes :: "nat \<Rightarrow> (nat, sched_ctl, lockmem, unit) node" where
  "lm_nodes i = main_node ''postgres://db'' (2 * time_Second) lm_world"

section \<open>Properties of the election\<close>


definition won :: "(nat, sched_ctl, lockmem, unit) node" where
  "won = \<lparr>nd_phase = Holding, nd_el = (main_elector ''postgres://db'' (2 * time_Second))\<lparr>le_conn := Some 0, le_isLeader := True\<rparr>,
          nd_app = ctl_new\<lparr>running := True, loops := [ScheduledLoop, RecoveryLoop, StaleCheckLoop]\<rparr>,
          nd_w = lm_world\<lparr>db := \<lparr>l_holder = Some 0, l_next = 1, l_closed = []\<rparr>,
                          met := [(LeaderStatus, [], SetTo 1), (LeaderElectionsTotal, [''acquired''], Inc), (SchedulerActive, [], SetTo 1)]\<rparr>\<rparr>"

lemmas lm_run =
  Start_turn_def tryAcquire_def ensure_conn_def conn_usable_def drop_conn_def holdLock_done_def holdLock_tick_def verifyLock_def
  elector_Stop_def node_world_def run_db_call run_metric_do lm_pgx_def lm_holder_def lm_free_def lm_world_def
  main_node_def main_elector_def LeaderElector_New_def ctl_new_def won_def

lemma lm_attempt: "node_step lm_pgx (lm_free, lm_nodes i) (\<lparr>l_holder = Some 0, l_next = 1, l_closed = []\<rparr>, won)"
proof -
  have "run_state (Start_turn lm_pgx (nd_el (lm_nodes i)) (nd_app (lm_nodes i))) (node_world lm_free (lm_nodes i)) =
      ((Holding, nd_el won, nd_app won), nd_w won)"
    by (simp add: lm_nodes_def lm_run)
  from node_step.attempt [OF _ this] show ?thesis by (simp add: lm_nodes_def lm_run)
qed


text \<open>C38.
  The overlap.  The lock is released before the old leader is told to stop: when an instance
  shuts down, another one can win the election while the first still counts as the leader and
  its scheduler still runs.
\<close>

theorem leaders_overlap:
  "\<exists>d ns. (election_step lm_pgx (=))\<^sup>*\<^sup>* (lm_free, lm_nodes) (d, ns) \<and>
     IsLeader (nd_el (ns 0)) \<and> running (nd_app (ns 0)) \<and> IsLeader (nd_el (ns 1)) \<and> running (nd_app (ns 1))"
proof -
  let ?d = "\<lparr>l_holder = Some 0, l_next = 1, l_closed = []\<rparr>"
  let ?c = "won\<lparr>nd_w := (nd_w won)\<lparr>cancelled := True\<rparr>\<rparr>"
  have 1: "(election_step lm_pgx (=))\<^sup>*\<^sup>* (lm_free, lm_nodes) (?d, lm_nodes(0 := won))"
    using election_step.node [of lm_pgx lm_free lm_nodes 0, OF lm_attempt] by blast
  have 2: "election_step lm_pgx (=) (?d, lm_nodes(0 := won)) (?d, lm_nodes(0 := ?c))"
    using election_step.node [of lm_pgx ?d "lm_nodes(0 := won)" 0 ?d ?c "(=)"] node_step.signal [of lm_pgx ?d won] by simp
  obtain e w where 3: "run_state (holdLock_done lm_pgx (nd_el ?c)) (node_world ?d ?c) = ((Releasing, e), w)"
    "le_isLeader e" "db w = \<lparr>l_holder = None, l_next = 1, l_closed = [0]\<rparr>"
    by (simp add: lm_run)
  let ?r = "\<lparr>nd_phase = Releasing, nd_el = e, nd_app = nd_app ?c, nd_w = w\<rparr>"
  have "nd_phase ?c = Holding" "cancelled (nd_w ?c)" by (simp_all add: won_def)
  from node_step.hold_done [OF this 3(1)]
  have 4: "election_step lm_pgx (=) (?d, lm_nodes(0 := ?c)) (db w, lm_nodes(0 := ?r))"
    using election_step.node [of lm_pgx ?d "lm_nodes(0 := ?c)" 0 "db w" ?r "(=)"] by simp
  let ?n = "(lm_nodes(0 := ?r)) 1"
  obtain e' x w' where 5: "run_state (Start_turn lm_pgx (nd_el ?n) (nd_app ?n)) (node_world (db w) ?n) = ((Holding, e', x), w')"
    "le_isLeader e'" "running x"
    by (simp add: lm_nodes_def 3(3) lm_run)
  let ?w = "\<lparr>nd_phase = Holding, nd_el = e', nd_app = x, nd_w = w'\<rparr>"
  have "nd_phase ?n = Electing" by (simp add: lm_nodes_def main_node_def)
  from node_step.attempt [OF this 5(1)]
  have "election_step lm_pgx (=) (db w, lm_nodes(0 := ?r)) (db w', lm_nodes(0 := ?r, 1 := ?w))"
    using election_step.node [of lm_pgx "db w" "lm_nodes(0 := ?r)" 1 "db w'" ?w "(=)"] by simp
  with 1 2 4 have "(election_step lm_pgx (=))\<^sup>*\<^sup>* (lm_free, lm_nodes) (db w', lm_nodes(0 := ?r, 1 := ?w))" by auto
  then show ?thesis
    by (intro exI conjI, assumption) (simp_all add: IsLeader_def 3 5 won_def)
qed

text \<open>
  The books.  In every reachable state, even if the server ends sessions at will, the flag of an
  instance is set only in office, the metric shows the flag, the scheduler is marked running just
  while in office, and the counters of won and lost elections balance.
\<close>

lemma election_books:
  assumes "\<forall>i. \<exists>cs poll w. ns i = main_node cs poll w \<and> met w = []"
    and "(election_step X E)\<^sup>*\<^sup>* (d, ns) (d', ns')"
  shows "(IsLeader (nd_el (ns' i)) \<longrightarrow> in_office (nd_phase (ns' i))) \<and>
         gauge LeaderStatus (met (nd_w (ns' i))) = (if IsLeader (nd_el (ns' i)) then 1 else 0) \<and>
         running (nd_app (ns' i)) = in_office (nd_phase (ns' i)) \<and>
         counter LeaderElectionsTotal [''acquired''] (met (nd_w (ns' i))) =
           counter LeaderElectionsTotal [''lost''] (met (nd_w (ns' i))) + (if in_office (nd_phase (ns' i)) then 1 else 0)"
proof -
  have "\<forall>i. books_ok (snd (d', ns') i)"
    using assms(2)
  proof (induction rule: rtranclp_induct)
    case base
    show ?case
    proof
      fix i
      obtain cs poll w where "ns i = main_node cs poll w" "met w = []" using assms(1) by blast
      then show "books_ok (snd (d, ns) i)"
        by (simp add: book_simps gauge_def main_node_def main_elector_def LeaderElector_New_def ctl_new_def)
    qed
  next
    case (step s s')
    from step(2,3) show ?case by cases (auto dest: books_step)
  qed
  then show ?thesis by (simp add: books_ok_def)
qed

lemma election_books_witness:
  "gauge LeaderStatus (met (nd_w won)) = 1 \<and> running (nd_app won) \<and>
   counter LeaderElectionsTotal [''acquired''] (met (nd_w won)) = 1"
proof -
  have "\<forall>i. \<exists>cs poll w. lm_nodes i = main_node cs poll w \<and> met w = []"
    by (auto simp: lm_nodes_def lm_world_def intro!: exI)
  moreover have "(election_step lm_pgx (=))\<^sup>*\<^sup>* (lm_free, lm_nodes) (\<lparr>l_holder = Some 0, l_next = 1, l_closed = []\<rparr>, lm_nodes(0 := won))"
    using election_step.node [of lm_pgx lm_free lm_nodes 0, OF lm_attempt] by blast
  ultimately show ?thesis
    using election_books [of lm_nodes lm_pgx "(=)" lm_free _ "lm_nodes(0 := won)" 0]
    by (simp add: in_office_def won_def IsLeader_def counter_def)
qed

text \<open>
  A free lock is taken.  If the server answers and nobody has the lock, one attempt of an
  instance without a connection makes it the leader: it holds the lock, its flag and the metric
  are set and its scheduler runs.
\<close>

lemma free_lock_taken:
  assumes "lock_server X holder used lup" "lup (db w)" "holder (db w) = None" "\<not> cancelled w" "\<not> running x"
  shows "\<exists>e' x' w'. run_state (Start_turn X (main_elector s poll) x) w = ((Holding, e', x'), w') \<and>
           IsLeader e' \<and> le_conn e' \<noteq> None \<and> holder (db w') = le_conn e' \<and> running x' \<and>
           met w' = met w @ [(LeaderStatus, [], SetTo 1), (LeaderElectionsTotal, [''acquired''], Inc), (SchedulerActive, [], SetTo 1)]"
proof -
  note L = assms(1)
  obtain c d1 where 1: "pgx_Connect X s (db w) = (Inr c, d1)" "lup d1" "\<not> pgx_IsClosed X c d1"
    using lock_server.up_connect [OF L assms(2)] by blast
  have "holder d1 = None" using lock_server.connect_new [OF L 1(1)] assms(3) by simp
  then obtain d2 where 2: "pgx_try_lock X c schedulerLockID d1 = (Inr True, d2)"
    using lock_server.up_try [OF L 1(2,3)] by auto
  then have "holder d2 = Some c" using lock_server.try_granted [OF L] by blast
  with 1 2 assms(4,5) show ?thesis
    by (simp add: Start_turn_def tryAcquire_def ensure_conn_def conn_usable_def run_db_call run_metric_do
                  main_elector_def LeaderElector_New_def IsLeader_def)
qed

text \<open>
  A lost lock is noticed.  If the session of the leader no longer has the lock, the next check
  ends its office, whether the check answers or fails: after the turn that follows it is not the
  leader and its scheduler is stopped.
\<close>

lemma lost_lock_noticed:
  assumes "lock_server X holder used lup" "le_conn e = Some c" "holder (db w) \<noteq> Some c" "onRelease e = Some sched_Stop"
  shows "\<exists>e1 w1 e2 x2 w2. run_state (holdLock_tick X e) w = ((Releasing, e1), w1) \<and>
           run_state (Start_release e1 x) w1 = ((Electing, e2, x2), w2) \<and> \<not> IsLeader e2 \<and> \<not> running x2"
proof -
  obtain r d1 where 1: "pgx_lock_count X c schedulerLockID (db w) = (r, d1)" by force
  have no: "\<not> 0 < n" if "r = Inr n" for n
    using lock_server.count_sees [OF assms(1) 1] assms(3) that by simp
  obtain e1 w1 where 2: "run_state (drop_conn X e) (w\<lparr>db := d1\<rparr>) = (e1, w1)" by force
  then have "onRelease e1 = Some sched_Stop" using assms(4) by (auto elim: drop_conn_frame)
  moreover have "run_state (holdLock_tick X e) w = ((Releasing, e1), w1)"
    using assms(2) 1 2 no
    by (cases r) (auto simp: holdLock_tick_def verifyLock_def run_db_call split: bool.split)
  ultimately show ?thesis by (simp add: Start_release_def run_metric_do IsLeader_def)
qed

text \<open>C39.
  Shutting down can panic.  \<^verbatim>\<open>Stop\<close> takes the connection away from the goroutine that holds the
  lock: if the goroutine takes a tick after that, rather than the cancelled context, it queries a
  connection that is \<^verbatim>\<open>nil\<close>.
\<close>

theorem stop_can_panic:
  "\<exists>d ns. (election_step lm_pgx (=))\<^sup>*\<^sup>* (lm_free, lm_nodes) (d, ns) \<and> nd_phase (ns 0) = Panicked"
proof -
  let ?d = "\<lparr>l_holder = Some 0, l_next = 1, l_closed = []\<rparr>"
  let ?c = "won\<lparr>nd_w := (nd_w won)\<lparr>cancelled := True\<rparr>\<rparr>"
  have 1: "(election_step lm_pgx (=))\<^sup>*\<^sup>* (lm_free, lm_nodes) (?d, lm_nodes(0 := won))"
    using election_step.node [of lm_pgx lm_free lm_nodes 0, OF lm_attempt] by blast
  have 2: "election_step lm_pgx (=) (?d, lm_nodes(0 := won)) (?d, lm_nodes(0 := ?c))"
    using election_step.node [of lm_pgx ?d "lm_nodes(0 := won)" 0 ?d ?c "(=)"] node_step.signal [of lm_pgx ?d won] by simp
  obtain e w where 3: "run_state (elector_Stop lm_pgx (nd_el ?c)) (node_world ?d ?c) = (e, w)" "le_conn e = None"
    by (simp add: lm_run)
  let ?s = "?c\<lparr>nd_el := e, nd_w := w\<rparr>"
  from node_step.stop [OF _ 3(1)]
  have 4: "election_step lm_pgx (=) (?d, lm_nodes(0 := ?c)) (db w, lm_nodes(0 := ?s))"
    using election_step.node [of lm_pgx ?d "lm_nodes(0 := ?c)" 0 "db w" ?s "(=)"] by simp
  obtain e' w' where 5: "run_state (holdLock_tick lm_pgx (nd_el ?s)) (node_world (db w) ?s) = ((Panicked, e'), w')"
    using 3(2) by (simp add: holdLock_tick_def verifyLock_def)
  let ?p = "\<lparr>nd_phase = Panicked, nd_el = e', nd_app = nd_app ?s, nd_w = w'\<rparr>"
  have "nd_phase ?s = Holding" by (simp add: won_def)
  from node_step.hold_tick [OF this 5]
  have "election_step lm_pgx (=) (db w, lm_nodes(0 := ?s)) (db w', lm_nodes(0 := ?p))"
    using election_step.node [of lm_pgx "db w" "lm_nodes(0 := ?s)" 0 "db w'" ?p "(=)"] by simp
  with 1 2 4 have "(election_step lm_pgx (=))\<^sup>*\<^sup>* (lm_free, lm_nodes) (db w', lm_nodes(0 := ?p))" by auto
  then show ?thesis by (intro exI conjI, assumption) simp
qed

end
