(* ===== verification/Worker.thy ===== *)
theory Worker
  imports StoreLaws Event
begin

text \<open>
  The package \<^verbatim>\<open>worker\<close> (\<^verbatim>\<open>src/internal/worker/worker.go\<close>): the registry of handlers, the
  processing of one job with its retry logic and metrics, and the pool.  A handler is a
  program of the user: it gets the deadline of its context and the payload, and returns an
  error or none.  Logging is not modelled.
\<close>

section \<open>The registry\<close>

type_synonym ('d, 'r) Handler = "time \<Rightarrow> json option \<Rightarrow> (('d, 'r) world, string option) state"

record ('d, 'r) Registry =
  handlers :: "string \<rightharpoonup> ('d, 'r) Handler"

definition NewRegistry :: "('d, 'r) Registry" where
  "NewRegistry = \<lparr>handlers = Map.empty\<rparr>"

definition Register :: "('d, 'r) Registry \<Rightarrow> string \<Rightarrow> ('d, 'r) Handler \<Rightarrow> ('d, 'r) Registry" where
  "Register r jobType h = r\<lparr>handlers := (handlers r)(jobType \<mapsto> h)\<rparr>"

definition Registry_Get :: "('d, 'r) Registry \<Rightarrow> string \<Rightarrow> ('d, 'r) Handler option" where
  "Registry_Get r jobType = handlers r jobType"

section \<open>The pool\<close>

record ('d, 'r) Pool =
  store :: "'d PostgresStorage"
  queue :: "'r RedisQueue"
  registry :: "('d, 'r) Registry"
  queues :: "string list"
  count :: int
  jobTimeout :: duration
  redisClient :: "'r redis_client"

definition NewPool ::
  "'d PostgresStorage \<Rightarrow> 'r RedisQueue \<Rightarrow> ('d, 'r) Registry \<Rightarrow> int \<Rightarrow> duration \<Rightarrow> 'r redis_client \<Rightarrow> ('d, 'r) Pool" where
  "NewPool st q reg n timeout rdb =
     \<lparr>store = st, queue = q, registry = reg, queues = [], count = n, jobTimeout = timeout, redisClient = rdb\<rparr>"

definition publishEvent :: "lib \<Rightarrow> ('d, 'r) Pool \<Rightarrow> string \<Rightarrow> Job \<Rightarrow> (('d, 'r) world, unit) state" where
  "publishEvent L p eventType job =
     do {
       _ \<leftarrow> PublishJobEvent (redisClient p)
              \<lparr>ev_Type = eventType, ev_JobID = uuid_String L (ID job), ev_Queue = Queue job,
               ev_Status = Status job, Timestamp = zero_time\<rparr>;
       ret ()
     }"

definition handleFailure :: "lib \<Rightarrow> ('d, 'r) Pool \<Rightarrow> Job \<Rightarrow> string \<Rightarrow> (('d, 'r) world, unit) state" where
  "handleFailure L p job jobErr =
     (let newRetryCount = wrap64 (RetryCount job + 1)
      in if newRetryCount \<ge> MaxRetries job then
           do {
             _ \<leftarrow> UpdateJobError (store p) (ID job) StatusDead newRetryCount jobErr;
             publishEvent L p ''job.dead'' job
           }
         else
           do {
             _ \<leftarrow> UpdateJobError (store p) (ID job) StatusRetrying newRetryCount jobErr;
             publishEvent L p ''job.retrying'' job;
             metric_do RetriesTotal [Type job] Inc;
             now \<leftarrow> time_Now;
             let retryAt = Add now (BackoffDuration (float_oob L) newRetryCount);
             _ \<leftarrow> Schedule (queue p) (uuid_String L (ID job)) retryAt;
             ret ()
           })"

text \<open>The end of \<^verbatim>\<open>processJob\<close>, from the handler's return, and its call before it.\<close>

definition after_handler :: "lib \<Rightarrow> ('d, 'r) Pool \<Rightarrow> Job \<Rightarrow> time \<Rightarrow> string option \<Rightarrow> (('d, 'r) world, unit) state" where
  "after_handler L p job start err =
     (case err of
        Some e \<Rightarrow>
          do {
            now \<leftarrow> time_Now;
            metric_do JobDuration [Type job] (Observe (Sub now start));
            metric_do JobsProcessed [Type job, ''failed''] Inc;
            metric_do ErrorsTotal [Type job] Inc;
            handleFailure L p job e
          }
      | None \<Rightarrow>
          do {
            now \<leftarrow> time_Now;
            metric_do JobDuration [Type job] (Observe (Sub now start));
            metric_do JobsProcessed [Type job, ''success''] Inc;
            _ \<leftarrow> UpdateJobStatus (store p) (ID job) StatusCompleted;
            publishEvent L p ''job.completed'' job
          })"

definition run_handler :: "lib \<Rightarrow> ('d, 'r) Pool \<Rightarrow> ('d, 'r) Handler \<Rightarrow> Job \<Rightarrow> (('d, 'r) world, unit) state" where
  "run_handler L p handler job =
     do {
       t \<leftarrow> time_Now;
       let deadline = Add t (jobTimeout p);
       start \<leftarrow> time_Now;
       err \<leftarrow> handler deadline (Payload job);
       after_handler L p job start err
     }"

text \<open>The part of \<^verbatim>\<open>processJob\<close> that has the job.\<close>

definition process_loaded :: "lib \<Rightarrow> ('d, 'r) Pool \<Rightarrow> uuid \<Rightarrow> Job \<Rightarrow> (('d, 'r) world, unit) state" where
  "process_loaded L p jobID job =
     (case Registry_Get (registry p) (Type job) of
        None \<Rightarrow>
          do {
            _ \<leftarrow> UpdateJobError (store p) jobID StatusFailed (RetryCount job)
                   (''no handler for type: '' @ Type job);
            ret ()
          }
      | Some handler \<Rightarrow>
          do {
            err \<leftarrow> UpdateJobStatus (store p) jobID StatusRunning;
            case err of
              Some _ \<Rightarrow> ret ()
            | None \<Rightarrow> do { publishEvent L p ''job.running'' job; run_handler L p handler job }
          })"

definition process_body :: "lib \<Rightarrow> ('d, 'r) Pool \<Rightarrow> string \<Rightarrow> (('d, 'r) world, unit) state" where
  "process_body L p jobIDStr =
     (case uuid_Parse L jobIDStr of
        None \<Rightarrow> ret ()
      | Some jobID \<Rightarrow>
          do {
            r \<leftarrow> GetJob (store p) jobID;
            case r of Inl _ \<Rightarrow> ret () | Inr job \<Rightarrow> process_loaded L p jobID job
          })"

text \<open>The deferred decrement runs on every return.\<close>

definition processJob :: "lib \<Rightarrow> ('d, 'r) Pool \<Rightarrow> string \<Rightarrow> (('d, 'r) world, unit) state" where
  "processJob L p jobIDStr =
     do {
       metric_do ActiveWorkers [] Inc;
       process_body L p jobIDStr;
       metric_do ActiveWorkers [] Dec
     }"

text \<open>
  One round of the loop of a worker; the result says whether the loop goes on.  Sleeping
  leaves the state as it is.
\<close>

definition worker_round :: "lib \<Rightarrow> ('d, 'r) Pool \<Rightarrow> (('d, 'r) world, bool) state" where
  "worker_round L p =
     do {
       done \<leftarrow> gets cancelled;
       if done then ret False
       else do {
         r \<leftarrow> Pop (queue p) (queues p) (1 * time_Second);
         case r of
           Inl _ \<Rightarrow> do { done' \<leftarrow> gets cancelled; ret (\<not> done') }
         | Inr jobID \<Rightarrow>
             if jobID = '''' then ret True
             else do { processJob L p jobID; ret True }
       }
     }"

text \<open>The loop for at most \<open>n\<close> rounds: the result says whether the worker has returned.\<close>

fun worker :: "nat \<Rightarrow> lib \<Rightarrow> ('d, 'r) Pool \<Rightarrow> (('d, 'r) world, bool) state" where
  "worker 0 L p = ret False"
| "worker (Suc n) L p =
     do { go \<leftarrow> worker_round L p; if go then worker n L p else ret True }"

section \<open>What a worker relies on\<close>

locale worker_env =
  S: job_store jobs ok live
    "GetJob (store p) :: uuid \<Rightarrow> (('d, 'r) world, Job result) state"
    "UpdateJobStatus (store p) :: uuid \<Rightarrow> JobStatus \<Rightarrow> (('d, 'r) world, string option) state"
    "UpdateJobError (store p) :: uuid \<Rightarrow> JobStatus \<Rightarrow> int \<Rightarrow> string \<Rightarrow> (('d, 'r) world, string option) state" +
  Q: task_queue ks pub qlive
    "Push (queue p) :: string \<Rightarrow> string \<Rightarrow> (('d, 'r) world, string option) state"
    "Pop (queue p)" "Schedule (queue p)" "GetDueJobs (queue p)" +
  B: event_bus ks pub qlive "PublishJobEvent (redisClient p) :: JobEvent \<Rightarrow> (('d, 'r) world, string option) state" +
  uuid_codec L
  for p :: "('d, 'r) Pool" and jobs :: "'d \<Rightarrow> Job list" and ok live ks pub qlive and L :: lib

text \<open>A handler that keeps its hands off the program's own state; it may read the clock.\<close>

definition tame :: "('d, 'r) Handler \<Rightarrow> bool" where
  "tame h \<longleftrightarrow> (\<forall>t pl w x w'. run_state (h t pl) w = (x, w') \<longrightarrow> w' = w\<lparr>ticks := ticks w'\<rparr>)"

definition tame_registry :: "('d, 'r) Registry \<Rightarrow> bool" where
  "tame_registry r \<longleftrightarrow> (\<forall>t h. Registry_Get r t = Some h \<longrightarrow> tame h)"

text \<open>
  What one job's processing may change, whatever fails: the job itself, its entry in the
  schedule, and the events; the metrics stay well-formed.
\<close>

definition job_frame ::
  "('d \<Rightarrow> Job list) \<Rightarrow> ('r \<Rightarrow> keyspace) \<Rightarrow> uuid \<Rightarrow> string \<Rightarrow> ('d, 'r) world \<Rightarrow> ('d, 'r) world \<Rightarrow> bool" where
  "job_frame jobs ks i sid w w' \<longleftrightarrow>
     map ID (jobs (db w')) = map ID (jobs (db w)) \<and>
     (\<forall>k. k \<noteq> i \<longrightarrow> look (jobs (db w')) k = look (jobs (db w)) k) \<and>
     waiting (ks (rds w')) = waiting (ks (rds w)) \<and>
     (\<forall>m. m \<noteq> sid \<longrightarrow> sched (ks (rds w')) m = sched (ks (rds w)) m) \<and>
     clk w' = clk w \<and> cancelled w' = cancelled w"

definition metrics_ok :: "int \<Rightarrow> ('d, 'r) world \<Rightarrow> bool" where
  "metrics_ok n w \<longleftrightarrow> list_all call_ok (met w) \<and> gauge ActiveWorkers (met w) = n"

definition data_ok :: "('d \<Rightarrow> bool) \<Rightarrow> ('r \<Rightarrow> keyspace) \<Rightarrow> int \<Rightarrow> ('d, 'r) world \<Rightarrow> bool" where
  "data_ok ok ks n w \<longleftrightarrow> ok (db w) \<and> ks_ok (ks (rds w)) \<and> metrics_ok n w"

lemma job_frame_refl: "job_frame jobs ks i sid w w"
  by (simp add: job_frame_def)

lemma metrics_ok_do:
  assumes "metrics_ok n w" "call_ok (m, ls, q)"
  shows "metrics_ok (gauge_step ActiveWorkers (m, ls, q) n) (w\<lparr>met := met w @ [(m, ls, q)]\<rparr>)"
  using assms by (simp add: metrics_ok_def gauge_append)

context worker_env
begin

abbreviation winv :: "int \<Rightarrow> ('d, 'r) world \<Rightarrow> bool" where
  "winv \<equiv> data_ok ok ks"

lemmas winv_def = data_ok_def

definition keeps :: "uuid \<Rightarrow> ('d, 'r) world \<Rightarrow> int \<Rightarrow> ('d, 'r) world \<Rightarrow> bool" where
  "keeps i w0 n w \<longleftrightarrow> winv n w \<and> job_frame jobs ks i (uuid_String L i) w0 w"

lemma keeps_get:
  "valid (keeps i w0 n) (GetJob (store p) i) (\<lambda>r w. keeps i w0 n w \<and> (\<forall>j. r = Inr j \<longrightarrow> ID j = i))"
proof (rule validI)
  fix w x w'
  assume k: "keeps i w0 n w" and r: "run_state (GetJob (store p) i) w = (x, w')"
  from k have "ok (db w)" by (simp add: keeps_def winv_def)
  from S.get_run [OF this r] obtain d where
    d: "w' = w\<lparr>db := d\<rparr>" "ok d" "jobs d = jobs (db w)" "\<And>j. x = Inr j \<Longrightarrow> ID j = i"
    by (metis look_ID)
  with k show "keeps i w0 n w' \<and> (\<forall>j. x = Inr j \<longrightarrow> ID j = i)"
    by (simp add: keeps_def winv_def job_frame_def metrics_ok_def)
qed

lemma keeps_upd:
  assumes "keeps i w0 n w" "ok d" "jobs d = jobs (db w) \<or> jobs d = upd_job i f (jobs (db w))" "\<And>j. ID (f j) = ID j"
  shows "keeps i w0 n (w\<lparr>ticks := m, db := d\<rparr>)"
  using assms ids_upd_job [of f i "jobs (db w)"] look_upd [of f i "jobs (db w)"]
  by (auto simp: keeps_def winv_def job_frame_def metrics_ok_def)

lemma keeps_status: "preserves (keeps i w0 n) (UpdateJobStatus (store p) i st)"
proof (rule validI)
  fix w x w'
  assume k: "keeps i w0 n w" and r: "run_state (UpdateJobStatus (store p) i st) w = (x, w')"
  from k have "ok (db w)" by (simp add: keeps_def winv_def)
  from S.status_run [OF this r] obtain d t u where
    "w' = w\<lparr>ticks := Suc (ticks w), db := d\<rparr>" "ok d"
    "jobs d = jobs (db w) \<or> jobs d = upd_job i (set_status st t u) (jobs (db w))"
    by blast
  with keeps_upd [OF k, of d "set_status st t u"] show "keeps i w0 n w'" by (simp add: set_status_def)
qed

lemma keeps_error: "preserves (keeps i w0 n) (UpdateJobError (store p) i st rc e)"
proof (rule validI)
  fix w x w'
  assume k: "keeps i w0 n w" and r: "run_state (UpdateJobError (store p) i st rc e) w = (x, w')"
  from k have "ok (db w)" by (simp add: keeps_def winv_def)
  from S.error_run [OF this r] obtain d u where
    "w' = w\<lparr>db := d\<rparr>" "ok d"
    "jobs d = jobs (db w) \<or> jobs d = upd_job i (set_error st rc e u) (jobs (db w))"
    by blast
  with keeps_upd [OF k, of d "set_error st rc e u" "ticks w"] show "keeps i w0 n w'" by (simp add: set_error_def)
qed

lemma keeps_publish: "preserves (keeps i w0 n) (publishEvent L p ty j)"
proof -
  have "preserves (keeps i w0 n) (PublishJobEvent (redisClient p) e)" for e
  proof (rule validI)
    fix w x w'
    assume k: "keeps i w0 n w" and r: "run_state (PublishJobEvent (redisClient p) e) w = (x, w')"
    obtain m s where "w' = w\<lparr>ticks := m, rds := s\<rparr>" "ks s = ks (rds w)"
      using B.publish_run [OF r] by blast
    with k show "keeps i w0 n w'" by (simp add: keeps_def winv_def job_frame_def metrics_ok_def)
  qed
  then show ?thesis unfolding publishEvent_def by (blast intro: valid_bind valid_ret)
qed

lemma keeps_schedule: "preserves (keeps i w0 n) (Schedule (queue p) (uuid_String L i) t)"
proof (rule validI)
  fix w x w'
  assume k: "keeps i w0 n w" and r: "run_state (Schedule (queue p) (uuid_String L i) t) w = (x, w')"
  obtain s where "w' = w\<lparr>rds := s\<rparr>" "waiting (ks s) = waiting (ks (rds w))" "ks_ok (ks (rds w)) \<longrightarrow> ks_ok (ks s)"
    "sched (ks s) = sched (ks (rds w)) \<or>
     sched (ks s) = (sched (ks (rds w)))(uuid_String L i \<mapsto> f64_int (Unix t))"
    using Q.schedule_run [OF r] by blast
  with k show "keeps i w0 n w'" by (auto simp: keeps_def winv_def job_frame_def metrics_ok_def)
qed

lemma keeps_metric:
  "call_ok (m, ls, q) \<Longrightarrow> gauge_step ActiveWorkers (m, ls, q) n = k \<Longrightarrow>
     valid (keeps i w0 n) (metric_do m ls q) (\<lambda>_. keeps i w0 k)"
  using metrics_ok_do
  by (fastforce simp: valid_def run_metric_do keeps_def winv_def job_frame_def)

lemma keeps_now: "preserves (keeps i w0 n) time_Now"
  by (simp add: valid_def run_time_Now keeps_def winv_def job_frame_def metrics_ok_def)

lemma keeps_handler:
  assumes "tame h"
  shows "preserves (keeps i w0 n) (h t pl)"
proof (rule validI)
  fix w x w'
  assume "keeps i w0 n w" "run_state (h t pl) w = (x, w')"
  moreover from this assms have "w' = w\<lparr>ticks := ticks w'\<rparr>" unfolding tame_def by blast
  then obtain m where "w' = w\<lparr>ticks := m\<rparr>" by blast
  ultimately show "keeps i w0 n w'" by (simp add: keeps_def winv_def job_frame_def metrics_ok_def)
qed

lemmas keeps_intros = keeps_status keeps_error keeps_publish keeps_schedule keeps_now keeps_metric

lemma keeps_failure: "preserves (keeps i w0 n) (handleFailure L p j e)" if "ID j = i"
  unfolding handleFailure_def Let_def that
  by (intro preserves_intros keeps_intros) (simp_all add: call_ok_def)

lemma keeps_run_handler: "preserves (keeps i w0 n) (run_handler L p h j)" if "ID j = i" "tame h"
  unfolding run_handler_def after_handler_def Let_def that(1)
  by (intro preserves_intros keeps_intros keeps_handler keeps_failure that) (simp_all add: call_ok_def)

lemma keeps_process_loaded:
  "tame_registry (registry p) \<Longrightarrow> ID job = i \<Longrightarrow> preserves (keeps i w0 n) (process_loaded L p i job)"
  unfolding process_loaded_def
  by (intro preserves_intros keeps_intros keeps_run_handler) (simp_all add: tame_registry_def)

lemma keeps_process_body:
  assumes "tame_registry (registry p)" "uuid_Parse L sid = Some i"
  shows "preserves (keeps i w0 n) (process_body L p sid)"
proof -
  have "valid (\<lambda>w. keeps i w0 n w \<and> (\<forall>j. r = Inr j \<longrightarrow> ID j = i))
          (case r of Inl _ \<Rightarrow> ret () | Inr job \<Rightarrow> process_loaded L p i job) (\<lambda>_. keeps i w0 n)" for r
    by (rule valid_pre_conj, rule preserves_sum)
       (auto intro: preserves_ret keeps_process_loaded [OF assms(1)])
  from valid_bind [OF keeps_get this] show ?thesis
    by (simp add: process_body_def assms(2))
qed

lemma keeps_processJob:
  assumes "tame_registry (registry p)" "uuid_Parse L sid = Some i"
  shows "preserves (keeps i w0 n) (processJob L p sid)"
proof -
  have inc: "valid (keeps i w0 n) (metric_do ActiveWorkers [] Inc) (\<lambda>_. keeps i w0 (n + 1))"
    and dec: "valid (keeps i w0 (n + 1)) (metric_do ActiveWorkers [] Dec) (\<lambda>_. keeps i w0 n)"
    by (rule keeps_metric; simp add: call_ok_def)+
  show ?thesis
    unfolding processJob_def
    by (rule valid_bind [OF inc valid_bind [OF keeps_process_body [OF assms] dec]])
qed

text \<open>A queue entry that is not an identifier changes nothing but the two metric calls.\<close>

lemma processJob_bad_id:
  "uuid_Parse L sid = None \<Longrightarrow>
     run_state (processJob L p sid) w =
       ((), w\<lparr>met := met w @ [(ActiveWorkers, [], Inc), (ActiveWorkers, [], Dec)]\<rparr>)"
  by (simp add: processJob_def process_body_def run_metric_do)

lemma processJob_safe:
  assumes "tame_registry (registry p)" "winv n w"
  shows "winv n (exec (processJob L p sid) w) \<and>
         (case uuid_Parse L sid of
            None \<Rightarrow> db (exec (processJob L p sid) w) = db w \<and> rds (exec (processJob L p sid) w) = rds w
          | Some i \<Rightarrow> job_frame jobs ks i (uuid_String L i) w (exec (processJob L p sid) w))"
proof (cases "uuid_Parse L sid")
  case None
  have "winv n (w\<lparr>met := met w @ [(ActiveWorkers, [], Inc), (ActiveWorkers, [], Dec)]\<rparr>)"
    using assms(2) by (simp add: winv_def metrics_ok_def gauge_append call_ok_def)
  with None show ?thesis by (simp add: exec_def processJob_bad_id)
next
  case (Some i)
  have "keeps i w n w" using assms(2) by (simp add: keeps_def job_frame_refl)
  from valid_exec [OF keeps_processJob [OF assms(1) Some] this] Some show ?thesis
    by (simp add: keeps_def)
qed

section \<open>Processing with the services up\<close>

abbreviation serving :: "('d, 'r) world \<Rightarrow> bool" where
  "serving \<equiv> services_up ok live ks qlive"

lemmas serving_def = services_up_def

lemma publish_serving:
  assumes "serving w"
  obtains w' t where "run_state (publishEvent L p ty j) w = ((), w')" "serving w'" "db w' = db w"
    "ks (rds w') = ks (rds w)" "pub (rds w') = pub (rds w) @ [event_msg (job_event L ty j) t]" "met w' = met w" "clk w' = clk w"
proof -
  have "Timestamp (job_event L ty j) = zero_time" by (simp add: job_event_def)
  then obtain n r' t where "run_state (PublishJobEvent (redisClient p) (job_event L ty j)) w = (None, w\<lparr>ticks := n, rds := r'\<rparr>)"
    "qlive r'" "ks r' = ks (rds w)" "pub r' = pub (rds w) @ [event_msg (job_event L ty j) t]"
    using B.publish_exact assms unfolding serving_def by blast
  with assms show thesis
    using that [of "w\<lparr>ticks := n, rds := r'\<rparr>" t] by (simp add: publishEvent_def job_event_def serving_def)
qed

lemma status_serving:
  assumes "serving w" "utf8_length st \<le> 20" "text_ok st"
  obtains w' n u where "run_state (UpdateJobStatus (store p) i st) w = (None, w')" "serving w'" "rds w' = rds w"
    "jobs (db w') = upd_job i (set_status st n u) (jobs (db w))" "met w' = met w" "clk w' = clk w"
proof -
  obtain d' n u where "run_state (UpdateJobStatus (store p) i st) w = (None, w\<lparr>ticks := Suc (ticks w), db := d'\<rparr>)"
    "ok d'" "live d'" "jobs d' = upd_job i (set_status st n u) (jobs (db w))"
    using S.status_exact assms unfolding serving_def by metis
  with assms(1) show thesis
    using that [of "w\<lparr>ticks := Suc (ticks w), db := d'\<rparr>" n u] by (simp add: serving_def)
qed

lemma error_serving:
  assumes "serving w" "utf8_length st \<le> 20" "in_int4 rc" "text_ok st" "text_ok e"
  obtains w' u where "run_state (UpdateJobError (store p) i st rc e) w = (None, w')" "serving w'" "rds w' = rds w"
    "jobs (db w') = upd_job i (set_error st rc e u) (jobs (db w))" "met w' = met w" "clk w' = clk w"
proof -
  obtain d' u where "run_state (UpdateJobError (store p) i st rc e) w = (None, w\<lparr>db := d'\<rparr>)"
    "ok d'" "live d'" "jobs d' = upd_job i (set_error st rc e u) (jobs (db w))"
    using S.error_exact assms unfolding serving_def by metis
  with assms(1) show thesis
    using that [of "w\<lparr>db := d'\<rparr>" u] by (simp add: serving_def)
qed

lemma handler_serving:
  assumes "serving w" "tame h"
  obtains e w' where "run_state (h t pl) w = (e, w')" "serving w'" "rds w' = rds w"
    "db w' = db w" "met w' = met w" "clk w' = clk w"
proof -
  obtain e w' where h: "run_state (h t pl) w = (e, w')" by force
  with assms(2) have "w' = w\<lparr>ticks := ticks w'\<rparr>" unfolding tame_def by blast
  then obtain n where "w' = w\<lparr>ticks := n\<rparr>" by blast
  with h assms(1) show thesis using that by simp
qed

lemma schedule_serving:
  assumes "serving w"
  obtains w' where "run_state (Schedule (queue p) v t) w = (None, w')" "serving w'" "db w' = db w"
    "waiting (ks (rds w')) = waiting (ks (rds w))" "pub (rds w') = pub (rds w)"
    "sched (ks (rds w')) = (sched (ks (rds w)))(v \<mapsto> f64_int (Unix t))" "met w' = met w" "clk w' = clk w"
proof -
  obtain r' where "run_state (Schedule (queue p) v t) w = (None, w\<lparr>rds := r'\<rparr>)" "qlive r'" "pub r' = pub (rds w)"
    "waiting (ks r') = waiting (ks (rds w))" "ks_ok (ks r')"
    "sched (ks r') = (sched (ks (rds w)))(v \<mapsto> f64_int (Unix t))"
    using Q.schedule_exact assms unfolding serving_def by metis
  with assms(1) show thesis using that [of "w\<lparr>rds := r'\<rparr>"] by (simp add: serving_def)
qed

text \<open>The whole of \<^verbatim>\<open>handleFailure\<close>: dead at the last attempt, retrying before.\<close>

lemma handleFailure_dead:
  assumes "serving w" "in_int4 (RetryCount j + 1)" "text_ok e" "RetryCount j + 1 \<ge> MaxRetries j"
  obtains w' u t where "run_state (handleFailure L p j e) w = ((), w')" "serving w'"
    "jobs (db w') = upd_job (ID j) (set_error StatusDead (RetryCount j + 1) e u) (jobs (db w))"
    "ks (rds w') = ks (rds w)" "pub (rds w') = pub (rds w) @ [event_msg (job_event L ''job.dead'' j) t]"
    "met w' = met w" "clk w' = clk w"
proof -
  have wr: "wrap64 (RetryCount j + 1) = RetryCount j + 1"
    using assms(2) by (auto intro!: wrap64_id simp: in_int4_def in_int64_def)
  obtain w1 u where 1: "run_state (UpdateJobError (store p) (ID j) StatusDead (RetryCount j + 1) e) w = (None, w1)"
    "serving w1" "rds w1 = rds w"
    "jobs (db w1) = upd_job (ID j) (set_error StatusDead (RetryCount j + 1) e u) (jobs (db w))" "met w1 = met w" "clk w1 = clk w"
    using error_serving [OF assms(1) _ assms(2) _ assms(3), of StatusDead "ID j"] by auto
  obtain w2 t where 2: "run_state (publishEvent L p ''job.dead'' j) w1 = ((), w2)" "serving w2" "db w2 = db w1"
    "ks (rds w2) = ks (rds w1)" "pub (rds w2) = pub (rds w1) @ [event_msg (job_event L ''job.dead'' j) t]"
    "met w2 = met w1" "clk w2 = clk w1"
    using publish_serving [OF 1(2)] .
  show thesis
    using that [of w2 u t] 1 2 assms(4) by (simp add: handleFailure_def wr)
qed

lemma handleFailure_retry:
  assumes "serving w" "in_int4 (RetryCount j + 1)" "text_ok e" "RetryCount j + 1 < MaxRetries j"
  obtains w' u t n where "run_state (handleFailure L p j e) w = ((), w')" "serving w'"
    "jobs (db w') = upd_job (ID j) (set_error StatusRetrying (RetryCount j + 1) e u) (jobs (db w))"
    "waiting (ks (rds w')) = waiting (ks (rds w))"
    "sched (ks (rds w')) = (sched (ks (rds w)))(uuid_String L (ID j) \<mapsto>
        f64_int (Unix (clk w n + BackoffDuration (float_oob L) (RetryCount j + 1))))"
    "pub (rds w') = pub (rds w) @ [event_msg (job_event L ''job.retrying'' j) t]"
    "met w' = met w @ [(RetriesTotal, [Type j], Inc)]" "clk w' = clk w"
proof -
  have wr: "wrap64 (RetryCount j + 1) = RetryCount j + 1"
    using assms(2) by (auto intro!: wrap64_id simp: in_int4_def in_int64_def)
  obtain w1 u where 1: "run_state (UpdateJobError (store p) (ID j) StatusRetrying (RetryCount j + 1) e) w = (None, w1)"
    "serving w1" "rds w1 = rds w"
    "jobs (db w1) = upd_job (ID j) (set_error StatusRetrying (RetryCount j + 1) e u) (jobs (db w))" "met w1 = met w" "clk w1 = clk w"
    using error_serving [OF assms(1) _ assms(2) _ assms(3), of StatusRetrying "ID j"] by auto
  obtain w2 t where 2: "run_state (publishEvent L p ''job.retrying'' j) w1 = ((), w2)" "serving w2" "db w2 = db w1"
    "ks (rds w2) = ks (rds w1)" "pub (rds w2) = pub (rds w1) @ [event_msg (job_event L ''job.retrying'' j) t]"
    "met w2 = met w1" "clk w2 = clk w1"
    using publish_serving [OF 1(2)] .
  let ?w3 = "w2\<lparr>met := met w2 @ [(RetriesTotal, [Type j], Inc)], ticks := Suc (ticks w2)\<rparr>"
  let ?at = "Add (clk w2 (ticks w2)) (BackoffDuration (float_oob L) (RetryCount j + 1))"
  have "serving ?w3" using 2(2) by simp
  then obtain w4 where 4: "run_state (Schedule (queue p) (uuid_String L (ID j)) ?at) ?w3 = (None, w4)"
    "serving w4" "db w4 = db ?w3" "waiting (ks (rds w4)) = waiting (ks (rds ?w3))" "pub (rds w4) = pub (rds ?w3)"
    "sched (ks (rds w4)) = (sched (ks (rds ?w3)))(uuid_String L (ID j) \<mapsto> f64_int (Unix ?at))" "met w4 = met ?w3" "clk w4 = clk ?w3"
    by (rule schedule_serving)
  show thesis
    using that [of w4 u "ticks w2" t] 1 2 4 assms(4)
    by (simp add: handleFailure_def wr run_metric_do run_time_Now Add_def Let_def)
qed

text \<open>Up to the handler: the job is marked running, and the event tells its former status.\<close>

lemma process_loaded_start:
  assumes "serving w" "handlers (registry p) (Type j) = Some h" "tame h"
  obtains w' s e n u t where
    "run_state (process_loaded L p i j) w = run_state (after_handler L p j s e) w'"
    "\<exists>d v. e = fst (run_state (h d (Payload j)) v)"
    "serving w'" "jobs (db w') = upd_job i (set_status StatusRunning n u) (jobs (db w))"
    "ks (rds w') = ks (rds w)" "pub (rds w') = pub (rds w) @ [event_msg (job_event L ''job.running'' j) t]"
    "met w' = met w" "clk w' = clk w"
proof -
  obtain w1 n u where 1: "run_state (UpdateJobStatus (store p) i StatusRunning) w = (None, w1)" "serving w1"
    "rds w1 = rds w" "jobs (db w1) = upd_job i (set_status StatusRunning n u) (jobs (db w))" "met w1 = met w"
    "clk w1 = clk w"
    using status_serving [OF assms(1), of StatusRunning i] by auto
  obtain w2 t where 2: "run_state (publishEvent L p ''job.running'' j) w1 = ((), w2)" "serving w2" "db w2 = db w1"
    "ks (rds w2) = ks (rds w1)" "pub (rds w2) = pub (rds w1) @ [event_msg (job_event L ''job.running'' j) t]"
    "met w2 = met w1" "clk w2 = clk w1"
    using publish_serving [OF 1(2)] .
  let ?w3 = "w2\<lparr>ticks := Suc (Suc (ticks w2))\<rparr>"
  let ?dl = "Add (clk w2 (ticks w2)) (jobTimeout p)"
  have "serving ?w3" using 2(2) by simp
  then obtain e w4 where 4: "run_state (h ?dl (Payload j)) ?w3 = (e, w4)" "serving w4" "rds w4 = rds ?w3"
    "db w4 = db ?w3" "met w4 = met ?w3" "clk w4 = clk ?w3"
    using assms(3) by (rule handler_serving)
  show thesis
  proof (rule that [where e = e and w' = w4 and s = "clk w2 (Suc (ticks w2))" and n = n and u = u and t = t])
    show "\<exists>d v. e = fst (run_state (h d (Payload j)) v)" using 4(1) by (metis fst_conv)
  qed (use 1 2 4 assms(2) in
        \<open>simp_all add: process_loaded_def Registry_Get_def run_handler_def Let_def run_time_Now\<close>)
qed

lemma processJob_load:
  assumes "serving w" "uuid_Parse L sid = Some i" "look (jobs (db w)) i = Some j"
  obtains w1 where
    "run_state (processJob L p sid) w =
       (let w' = exec (process_loaded L p i j) w1 in ((), w'\<lparr>met := met w' @ [(ActiveWorkers, [], Dec)]\<rparr>))"
    "serving w1" "jobs (db w1) = jobs (db w)" "rds w1 = rds w"
    "met w1 = met w @ [(ActiveWorkers, [], Inc)]" "clk w1 = clk w"
proof -
  let ?w0 = "w\<lparr>met := met w @ [(ActiveWorkers, [], Inc)]\<rparr>"
  have "ok (db ?w0)" "live (db ?w0)" "look (jobs (db ?w0)) i = Some j"
    using assms by (simp_all add: serving_def)
  then obtain d' where "run_state (GetJob (store p) i) ?w0 = (Inr j, ?w0\<lparr>db := d'\<rparr>)" "ok d'" "live d'"
    "jobs d' = jobs (db ?w0)"
    by (rule S.get_exact)
  with assms show thesis
    using that [of "?w0\<lparr>db := d'\<rparr>"]
    by (simp add: processJob_def process_body_def run_metric_do exec_def serving_def Let_def split: prod.split)
qed

lemma processJob_started:
  assumes "serving w" "uuid_Parse L sid = Some i" "look (jobs (db w)) i = Some j"
    and "handlers (registry p) (Type j) = Some h" "tame h" "\<And>d v. fst (run_state (h d (Payload j)) v) = e"
  obtains w2 s n u t where
    "run_state (processJob L p sid) w =
       (let w' = exec (after_handler L p j s e) w2 in ((), w'\<lparr>met := met w' @ [(ActiveWorkers, [], Dec)]\<rparr>))"
    "serving w2" "jobs (db w2) = upd_job i (set_status StatusRunning n u) (jobs (db w))" "ks (rds w2) = ks (rds w)"
    "pub (rds w2) = pub (rds w) @ [event_msg (job_event L ''job.running'' j) t]"
    "met w2 = met w @ [(ActiveWorkers, [], Inc)]" "clk w2 = clk w"
proof -
  obtain w1 where 1: "run_state (processJob L p sid) w =
       (let w' = exec (process_loaded L p i j) w1 in ((), w'\<lparr>met := met w' @ [(ActiveWorkers, [], Dec)]\<rparr>))"
    "serving w1" "jobs (db w1) = jobs (db w)" "rds w1 = rds w" "met w1 = met w @ [(ActiveWorkers, [], Inc)]"
    "clk w1 = clk w"
    using assms(1-3) by (rule processJob_load)
  obtain w2 s e' n u t where 2:
    "run_state (process_loaded L p i j) w1 = run_state (after_handler L p j s e') w2"
    "\<exists>d v. e' = fst (run_state (h d (Payload j)) v)"
    "serving w2" "jobs (db w2) = upd_job i (set_status StatusRunning n u) (jobs (db w1))" "ks (rds w2) = ks (rds w1)"
    "pub (rds w2) = pub (rds w1) @ [event_msg (job_event L ''job.running'' j) t]" "met w2 = met w1" "clk w2 = clk w1"
    using 1(2) assms(4,5) by (rule process_loaded_start)
  have "e' = e" using 2(2) assms(6) by blast
  with 2(1) have "exec (process_loaded L p i j) w1 = exec (after_handler L p j s e) w2"
    by (simp add: exec_def)
  with 1 2 show thesis using that [of s w2 n u t] by simp
qed

lemma processJob_success:
  assumes "serving w" "uuid_Parse L sid = Some i" "look (jobs (db w)) i = Some j"
    and "handlers (registry p) (Type j) = Some h" "tame h" "\<And>d v. fst (run_state (h d (Payload j)) v) = None"
  obtains w' n u n' u' t t' d where "run_state (processJob L p sid) w = ((), w')" "serving w'"
    "jobs (db w') = upd_job i (set_status StatusCompleted n' u') (upd_job i (set_status StatusRunning n u) (jobs (db w)))"
    "ks (rds w') = ks (rds w)"
    "pub (rds w') = pub (rds w) @ [event_msg (job_event L ''job.running'' j) t,
                                   event_msg (job_event L ''job.completed'' j) t']"
    "met w' = met w @ [(ActiveWorkers, [], Inc), (JobDuration, [Type j], Observe d),
                       (JobsProcessed, [Type j, ''success''], Inc), (ActiveWorkers, [], Dec)]"
proof -
  have ID: "ID j = i" using assms(3) by (rule look_ID)
  obtain w2 s n u t where 2: "run_state (processJob L p sid) w =
       (let w' = exec (after_handler L p j s None) w2 in ((), w'\<lparr>met := met w' @ [(ActiveWorkers, [], Dec)]\<rparr>))"
    "serving w2" "jobs (db w2) = upd_job i (set_status StatusRunning n u) (jobs (db w))" "ks (rds w2) = ks (rds w)"
    "pub (rds w2) = pub (rds w) @ [event_msg (job_event L ''job.running'' j) t]"
    "met w2 = met w @ [(ActiveWorkers, [], Inc)]" "clk w2 = clk w"
    using assms by (rule processJob_started)
  define d where "d = Sub (clk w2 (ticks w2)) s"
  define w3 where "w3 = w2\<lparr>ticks := Suc (ticks w2),
     met := met w2 @ [(JobDuration, [Type j], Observe d), (JobsProcessed, [Type j, ''success''], Inc)]\<rparr>"
  have "serving w3" using 2(2) by (simp add: w3_def)
  then obtain w4 n' u' where 4: "run_state (UpdateJobStatus (store p) i StatusCompleted) w3 = (None, w4)" "serving w4"
    "rds w4 = rds w3" "jobs (db w4) = upd_job i (set_status StatusCompleted n' u') (jobs (db w3))" "met w4 = met w3"
    using status_serving [OF _ status_texts(3) status_texts(11), of w3 i] by blast
  obtain w5 t' where 5: "run_state (publishEvent L p ''job.completed'' j) w4 = ((), w5)" "serving w5" "db w5 = db w4"
    "ks (rds w5) = ks (rds w4)" "pub (rds w5) = pub (rds w4) @ [event_msg (job_event L ''job.completed'' j) t']"
    "met w5 = met w4"
    using 4(2) by (rule publish_serving)
  have "run_state (after_handler L p j s None) w2 =
      run_state (do { _ \<leftarrow> UpdateJobStatus (store p) i StatusCompleted; publishEvent L p ''job.completed'' j }) w3"
    by (simp add: after_handler_def run_metric_do run_time_Now ID w3_def d_def)
  then have "exec (after_handler L p j s None) w2 = w5" using 4(1) 5(1) by (simp add: exec_def)
  with 2 4 5 show thesis
    using that [of "w5\<lparr>met := met w5 @ [(ActiveWorkers, [], Dec)]\<rparr>" n' u' n u t t' d] by (simp add: w3_def)
qed

text \<open>A failing handler: the metrics of the failure, then \<open>handleFailure\<close>.\<close>

lemma processJob_failure:
  assumes "serving w" "uuid_Parse L sid = Some i" "look (jobs (db w)) i = Some j"
    and "handlers (registry p) (Type j) = Some h" "tame h" "\<And>d v. fst (run_state (h d (Payload j)) v) = Some e"
  obtains w3 n u t d where
    "run_state (processJob L p sid) w =
       (let w' = exec (handleFailure L p j e) w3 in ((), w'\<lparr>met := met w' @ [(ActiveWorkers, [], Dec)]\<rparr>))"
    "serving w3" "jobs (db w3) = upd_job i (set_status StatusRunning n u) (jobs (db w))" "ks (rds w3) = ks (rds w)"
    "pub (rds w3) = pub (rds w) @ [event_msg (job_event L ''job.running'' j) t]" "clk w3 = clk w"
    "met w3 = met w @ [(ActiveWorkers, [], Inc), (JobDuration, [Type j], Observe d),
                       (JobsProcessed, [Type j, ''failed''], Inc), (ErrorsTotal, [Type j], Inc)]"
proof -
  obtain w2 s n u t where 2: "run_state (processJob L p sid) w =
       (let w' = exec (after_handler L p j s (Some e)) w2 in ((), w'\<lparr>met := met w' @ [(ActiveWorkers, [], Dec)]\<rparr>))"
    "serving w2" "jobs (db w2) = upd_job i (set_status StatusRunning n u) (jobs (db w))" "ks (rds w2) = ks (rds w)"
    "pub (rds w2) = pub (rds w) @ [event_msg (job_event L ''job.running'' j) t]"
    "met w2 = met w @ [(ActiveWorkers, [], Inc)]" "clk w2 = clk w"
    using assms by (rule processJob_started)
  define d where "d = Sub (clk w2 (ticks w2)) s"
  define w3 where "w3 = w2\<lparr>ticks := Suc (ticks w2), met := met w2 @ [(JobDuration, [Type j], Observe d),
     (JobsProcessed, [Type j, ''failed''], Inc), (ErrorsTotal, [Type j], Inc)]\<rparr>"
  have "exec (after_handler L p j s (Some e)) w2 = exec (handleFailure L p j e) w3"
    by (simp add: exec_def after_handler_def run_metric_do run_time_Now w3_def d_def)
  with 2 show thesis using that [of w3 n u t d] by (simp add: w3_def)
qed

lemma processJob_dead:
  assumes "serving w" "uuid_Parse L sid = Some i" "look (jobs (db w)) i = Some j"
    and "handlers (registry p) (Type j) = Some h" "tame h" "\<And>d v. fst (run_state (h d (Payload j)) v) = Some e"
    and "text_ok e" "in_int4 (RetryCount j + 1)" "MaxRetries j \<le> RetryCount j + 1"
  obtains w' n u u' t t' d where "run_state (processJob L p sid) w = ((), w')" "serving w'"
    "jobs (db w') = upd_job i (set_error StatusDead (RetryCount j + 1) e u')
                      (upd_job i (set_status StatusRunning n u) (jobs (db w)))"
    "ks (rds w') = ks (rds w)"
    "pub (rds w') = pub (rds w) @ [event_msg (job_event L ''job.running'' j) t, event_msg (job_event L ''job.dead'' j) t']"
    "met w' = met w @ [(ActiveWorkers, [], Inc), (JobDuration, [Type j], Observe d),
                       (JobsProcessed, [Type j, ''failed''], Inc), (ErrorsTotal, [Type j], Inc), (ActiveWorkers, [], Dec)]"
    "clk w' = clk w"
proof -
  have ID: "ID j = i" using assms(3) by (rule look_ID)
  obtain w3 n u t d where 3: "run_state (processJob L p sid) w =
       (let w' = exec (handleFailure L p j e) w3 in ((), w'\<lparr>met := met w' @ [(ActiveWorkers, [], Dec)]\<rparr>))"
    "serving w3" "jobs (db w3) = upd_job i (set_status StatusRunning n u) (jobs (db w))" "ks (rds w3) = ks (rds w)"
    "pub (rds w3) = pub (rds w) @ [event_msg (job_event L ''job.running'' j) t]" "clk w3 = clk w"
    "met w3 = met w @ [(ActiveWorkers, [], Inc), (JobDuration, [Type j], Observe d),
                       (JobsProcessed, [Type j, ''failed''], Inc), (ErrorsTotal, [Type j], Inc)]"
    using assms(1-6) by (rule processJob_failure)
  obtain w4 u' t' where 4: "run_state (handleFailure L p j e) w3 = ((), w4)" "serving w4"
    "jobs (db w4) = upd_job (ID j) (set_error StatusDead (RetryCount j + 1) e u') (jobs (db w3))"
    "ks (rds w4) = ks (rds w3)" "pub (rds w4) = pub (rds w3) @ [event_msg (job_event L ''job.dead'' j) t']"
    "met w4 = met w3" "clk w4 = clk w3"
    using 3(2) assms(8,7,9) by (rule handleFailure_dead)
  show thesis
    using that [of "w4\<lparr>met := met w4 @ [(ActiveWorkers, [], Dec)]\<rparr>" u' n u t t' d] 3 4 exec_eqI [OF 4(1)]
    by (simp add: ID)
qed

lemma processJob_retry:
  assumes "serving w" "uuid_Parse L sid = Some i" "look (jobs (db w)) i = Some j"
    and "handlers (registry p) (Type j) = Some h" "tame h" "\<And>d v. fst (run_state (h d (Payload j)) v) = Some e"
    and "text_ok e" "in_int4 (RetryCount j + 1)" "RetryCount j + 1 < MaxRetries j"
  obtains w' n u u' t t' d k where "run_state (processJob L p sid) w = ((), w')" "serving w'"
    "jobs (db w') = upd_job i (set_error StatusRetrying (RetryCount j + 1) e u')
                      (upd_job i (set_status StatusRunning n u) (jobs (db w)))"
    "waiting (ks (rds w')) = waiting (ks (rds w))"
    "sched (ks (rds w')) = (sched (ks (rds w)))(uuid_String L i \<mapsto>
        f64_int (Unix (clk w k + BackoffDuration (float_oob L) (RetryCount j + 1))))"
    "pub (rds w') = pub (rds w) @ [event_msg (job_event L ''job.running'' j) t,
                                   event_msg (job_event L ''job.retrying'' j) t']"
    "met w' = met w @ [(ActiveWorkers, [], Inc), (JobDuration, [Type j], Observe d),
                       (JobsProcessed, [Type j, ''failed''], Inc), (ErrorsTotal, [Type j], Inc),
                       (RetriesTotal, [Type j], Inc), (ActiveWorkers, [], Dec)]"
    "clk w' = clk w"
proof -
  have ID: "ID j = i" using assms(3) by (rule look_ID)
  obtain w3 n u t d where 3: "run_state (processJob L p sid) w =
       (let w' = exec (handleFailure L p j e) w3 in ((), w'\<lparr>met := met w' @ [(ActiveWorkers, [], Dec)]\<rparr>))"
    "serving w3" "jobs (db w3) = upd_job i (set_status StatusRunning n u) (jobs (db w))" "ks (rds w3) = ks (rds w)"
    "pub (rds w3) = pub (rds w) @ [event_msg (job_event L ''job.running'' j) t]" "clk w3 = clk w"
    "met w3 = met w @ [(ActiveWorkers, [], Inc), (JobDuration, [Type j], Observe d),
                       (JobsProcessed, [Type j, ''failed''], Inc), (ErrorsTotal, [Type j], Inc)]"
    using assms(1-6) by (rule processJob_failure)
  obtain w4 u' t' k where 4: "run_state (handleFailure L p j e) w3 = ((), w4)" "serving w4"
    "jobs (db w4) = upd_job (ID j) (set_error StatusRetrying (RetryCount j + 1) e u') (jobs (db w3))"
    "waiting (ks (rds w4)) = waiting (ks (rds w3))"
    "sched (ks (rds w4)) = (sched (ks (rds w3)))(uuid_String L (ID j) \<mapsto>
        f64_int (Unix (clk w3 k + BackoffDuration (float_oob L) (RetryCount j + 1))))"
    "pub (rds w4) = pub (rds w3) @ [event_msg (job_event L ''job.retrying'' j) t']"
    "met w4 = met w3 @ [(RetriesTotal, [Type j], Inc)]" "clk w4 = clk w3"
    using 3(2) assms(8,7,9) by (rule handleFailure_retry)
  show thesis
    using that [of "w4\<lparr>met := met w4 @ [(ActiveWorkers, [], Dec)]\<rparr>" u' n u k t t' d] 3 4 exec_eqI [OF 4(1)]
    by (simp add: ID)
qed

lemma processJob_no_handler:
  assumes "serving w" "uuid_Parse L sid = Some i" "look (jobs (db w)) i = Some j"
    and "handlers (registry p) (Type j) = None" "text_ok (Type j)"
  obtains w' u where "run_state (processJob L p sid) w = ((), w')" "serving w'"
    "jobs (db w') = upd_job i (set_error StatusFailed (RetryCount j) (''no handler for type: '' @ Type j) u) (jobs (db w))"
    "rds w' = rds w" "met w' = met w @ [(ActiveWorkers, [], Inc), (ActiveWorkers, [], Dec)]"
proof -
  obtain w1 where 1: "run_state (processJob L p sid) w =
       (let w' = exec (process_loaded L p i j) w1 in ((), w'\<lparr>met := met w' @ [(ActiveWorkers, [], Dec)]\<rparr>))"
    "serving w1" "jobs (db w1) = jobs (db w)" "rds w1 = rds w" "met w1 = met w @ [(ActiveWorkers, [], Inc)]"
    "clk w1 = clk w"
    using assms(1-3) by (rule processJob_load)
  have "jobs_ok (jobs (db w))" using S.ok_jobs assms(1) by (simp add: serving_def)
  then have "in_int4 (RetryCount j)"
    using assms(3) by (auto simp: look_Some_iff jobs_ok_def list_all_iff job_ok_def)
  moreover have "text_ok (''no handler for type: '' @ Type j)"
    using assms(5) by (simp add: text_ok_def)
  ultimately obtain w2 u where 2:
    "run_state (UpdateJobError (store p) i StatusFailed (RetryCount j) (''no handler for type: '' @ Type j)) w1 = (None, w2)"
    "serving w2" "rds w2 = rds w1" "met w2 = met w1"
    "jobs (db w2) = upd_job i (set_error StatusFailed (RetryCount j) (''no handler for type: '' @ Type j) u) (jobs (db w1))"
    using error_serving [OF 1(2) status_texts(4) _ status_texts(12)] by metis
  have "exec (process_loaded L p i j) w1 = w2"
    using 2(1) assms(4) by (simp add: exec_def process_loaded_def Registry_Get_def)
  with 1 2 show thesis
    using that [of "w2\<lparr>met := met w2 @ [(ActiveWorkers, [], Dec)]\<rparr>" u] by simp
qed

end

end
