(* ===== verification/WorkerPool.thy ===== *)
theory WorkerPool
  imports Worker
begin

text \<open>
  The run of a worker pool (\<^verbatim>\<open>Start\<close>, \<^verbatim>\<open>Stop\<close> and the goroutines of
  \<^verbatim>\<open>src/internal/worker/worker.go\<close>) as a step relation over the rounds of its workers,
  and the properties of the worker package over the two servers.  One round of one worker is
  one step; between two steps the rest of the system may move (the relation \<open>E\<close>).
\<close>

section \<open>The worker over the servers\<close>

locale worker_services =
  st: storage "store p" tbl env up +
  rq: redis_queue "queue p" ks pub rup +
  rc: redis "redisClient p" ks pub rup +
  uuid_codec L
  for p :: "('d, 'r) Pool" and tbl :: "'d \<Rightarrow> table" and env up
    and ks :: "'r \<Rightarrow> keyspace" and pub rup and L :: lib

sublocale worker_services \<subseteq>
  wk: worker_env p "\<lambda>d. table_jobs (tbl d)" "\<lambda>d. schema_ok (tbl d)" up ks pub rup L
  by (intro worker_env.intro st.store.job_store_axioms rq.queue.task_queue_axioms
            rc.bus.event_bus_axioms uuid_codec_axioms)

context worker_services
begin

lemma as_worker_env:
  "worker_env p (\<lambda>d. table_jobs (tbl d)) (\<lambda>d. schema_ok (tbl d)) up ks pub rup L"
  by (rule wk.worker_env_axioms)

end

section \<open>Rounds\<close>

context worker_env
begin

lemma pop_winv:
  assumes "winv n w" "run_state (Pop (queue p) qs d) w = (x, w')"
  shows "winv n w'"
proof -
  obtain s where "w' = w\<lparr>rds := s\<rparr>" "ks_ok (ks s) = ks_ok (ks (rds w))"
    using Q.pop_run [OF assms(2)] by blast
  with assms(1) show ?thesis by (simp add: winv_def metrics_ok_def)
qed

lemma round_safe:
  assumes "tame_registry (registry p)" "winv n w" "run_state (worker_round L p) w = (go, w')"
  shows "winv n w'"
proof (cases "cancelled w")
  case True
  with assms show ?thesis by (simp add: worker_round_def)
next
  case False
  obtain x v where p: "run_state (Pop (queue p) (queues p) (1 * time_Second)) w = (x, v)" by force
  note v = pop_winv [OF assms(2) p]
  have "w' = v \<or> (\<exists>sid. run_state (processJob L p sid) v = ((), w'))"
    using assms(3) False p
    by (auto simp: worker_round_def split: sum.splits if_splits prod.splits)
  with v processJob_safe [OF assms(1) v] exec_eqI show ?thesis by metis
qed

text \<open>With the services up, a round takes the oldest entry of the first queue that has one.\<close>

lemma round_takes:
  assumes "serving w" "\<not> cancelled w"
  obtains v where
    "run_state (worker_round L p) w =
       (True, case take_first (queues p) (waiting (ks (rds w))) of
                None \<Rightarrow> v
              | Some (sid, _) \<Rightarrow> if sid = '''' then v else exec (processJob L p sid) v)"
    "serving v" "db v = db w" "pub (rds v) = pub (rds w)" "sched (ks (rds v)) = sched (ks (rds w))" "met v = met w"
    "waiting (ks (rds v)) = (case take_first (queues p) (waiting (ks (rds w))) of
                               None \<Rightarrow> waiting (ks (rds w)) | Some (sid, f) \<Rightarrow> f)" "cancelled v = cancelled w"
proof -
  have "qlive (rds w)" using assms(1) by (simp add: serving_def)
  then obtain s where s:
    "run_state (Pop (queue p) (queues p) (1 * time_Second)) w =
       (Inr (case take_first (queues p) (waiting (ks (rds w))) of None \<Rightarrow> [] | Some (v, f) \<Rightarrow> v), w\<lparr>rds := s\<rparr>)"
    "qlive s" "pub s = pub (rds w)" "sched (ks s) = sched (ks (rds w))" "ks_ok (ks s) = ks_ok (ks (rds w))"
    "waiting (ks s) = (case take_first (queues p) (waiting (ks (rds w))) of
                         None \<Rightarrow> waiting (ks (rds w)) | Some (v, f) \<Rightarrow> f)"
    by (rule Q.pop_exact)
  show thesis
  proof (rule that [of "w\<lparr>rds := s\<rparr>"])
    show "run_state (worker_round L p) w =
       (True, case take_first (queues p) (waiting (ks (rds w))) of
                None \<Rightarrow> w\<lparr>rds := s\<rparr>
              | Some (sid, _) \<Rightarrow> if sid = '''' then w\<lparr>rds := s\<rparr> else exec (processJob L p sid) (w\<lparr>rds := s\<rparr>))"
      using s(1) assms(2)
      by (auto simp: worker_round_def exec_def split: option.splits prod.splits)
  qed (use s assms(1) in \<open>simp_all add: serving_def\<close>)
qed

end

lemma round_cancelled: "cancelled w \<Longrightarrow> run_state (worker_round L p) w = (False, w)"
  by (simp add: worker_round_def)

section \<open>The pool as a step relation\<close>

text \<open>\<open>alive\<close> says of each worker whether it still runs: the wait group counts those.\<close>

record ('d, 'r) pool_run =
  cfg :: "('d, 'r) Pool"
  alive :: "bool list"
  has_cancel :: bool

definition wg :: "('d, 'r) pool_run \<Rightarrow> nat" where
  "wg r = length (filter (\<lambda>b. b) (alive r))"

definition pool_new :: "('d, 'r) Pool \<Rightarrow> ('d, 'r) pool_run" where
  "pool_new p = \<lparr>cfg = p, alive = [], has_cancel = False\<rparr>"

definition Start :: "string list \<Rightarrow> ('d, 'r) pool_run \<Rightarrow> ('d, 'r) pool_run" where
  "Start qs r =
     \<lparr>cfg = (cfg r)\<lparr>queues := qs\<rparr>, alive = alive r @ replicate (nat (count (cfg r))) True, has_cancel = True\<rparr>"

text \<open>\<^verbatim>\<open>Stop\<close> cancels and then waits: it returns in a state with \<open>wg r = 0\<close>.\<close>

definition Stop_cancel :: "('d, 'r) pool_run \<Rightarrow> ('d, 'r) world \<Rightarrow> ('d, 'r) world" where
  "Stop_cancel r w = (if has_cancel r then w\<lparr>cancelled := True\<rparr> else w)"

inductive round_step :: "lib \<Rightarrow> ('d, 'r) pool_run \<times> ('d, 'r) world \<Rightarrow> ('d, 'r) pool_run \<times> ('d, 'r) world \<Rightarrow> bool"
  for L where
  round: "i < length (alive r) \<Longrightarrow> alive r ! i \<Longrightarrow> run_state (worker_round L (cfg r)) w = (go, w') \<Longrightarrow>
            round_step L (r, w) (r\<lparr>alive := (alive r)[i := go]\<rparr>, w')"

inductive pool_step ::
  "lib \<Rightarrow> (('d, 'r) world \<Rightarrow> ('d, 'r) world \<Rightarrow> bool) \<Rightarrow>
     ('d, 'r) pool_run \<times> ('d, 'r) world \<Rightarrow> ('d, 'r) pool_run \<times> ('d, 'r) world \<Rightarrow> bool"
  for L E where
  pool_round: "round_step L (r, w) (r', w') \<Longrightarrow> pool_step L E (r, w) (r', w')"
| pool_stop: "pool_step L E (r, w) (r, Stop_cancel r w)"
| pool_other: "E w w' \<Longrightarrow> pool_step L E (r, w) (r, w')"

inductive_cases round_stepE: "round_step L (r, w) s"
inductive_cases pool_stepE: "pool_step L E (r, w) s"

lemma filter_id_update:
  "i < length xs \<Longrightarrow> xs ! i \<Longrightarrow> Suc (length (filter (\<lambda>b. b) (xs[i := False]))) = length (filter (\<lambda>b. b) xs)"
proof (induction xs arbitrary: i)
  case Nil
  then show ?case by simp
next
  case (Cons x xs)
  show ?case
  proof (cases i)
    case 0
    with Cons.prems show ?thesis by simp
  next
    case (Suc k)
    with Cons.prems Cons.IH [of k] show ?thesis by (cases x) simp_all
  qed
qed
lemma wg_update: "i < length (alive r) \<Longrightarrow> alive r ! i \<Longrightarrow> Suc (wg (r\<lparr>alive := (alive r)[i := False]\<rparr>)) = wg r"
  by (simp add: wg_def filter_id_update)

lemma filter_true_ex: "filter (\<lambda>b. b) xs \<noteq> [] \<Longrightarrow> \<exists>i < length xs. xs ! i"
  by (metis (mono_tags) filter_False in_set_conv_nth)

lemma wg_ex: "0 < wg r \<Longrightarrow> \<exists>i < length (alive r). alive r ! i"
  unfolding wg_def by (rule filter_true_ex) (metis less_numeral_extra(3) list.size(3))

lemma rounds_when_cancelled:
  "(round_step L ^^ n) (r, w) (r', w') \<Longrightarrow> cancelled w \<Longrightarrow> w' = w \<and> wg r' + n = wg r"
proof (induction n arbitrary: r' w')
  case 0
  then show ?case by simp
next
  case (Suc n)
  then obtain r1 w1 where s: "(round_step L ^^ n) (r, w) (r1, w1)" "round_step L (r1, w1) (r', w')"
    by auto
  with Suc have "w1 = w" "wg r1 + n = wg r" by blast+
  moreover from s(2) this(1) Suc.prems(2) have "w' = w \<and> Suc (wg r') = wg r1"
    by (elim round_stepE) (auto simp: round_cancelled wg_update)
  ultimately show ?case by simp
qed

section \<open>Attempts\<close>

context worker_env
begin

lemma attempt_step:
  assumes "serving w" "uuid_Parse L sid = Some i" "look (jobs (db w)) i = Some j"
    and "handlers (registry p) (Type j) = Some h" "tame h" "\<And>d v. fst (run_state (h d (Payload j)) v) = Some e"
    and "text_ok e" "in_int4 (RetryCount j + 1)"
  shows "let w' = exec (processJob L p sid) w in
           serving w' \<and>
           (\<exists>j'. look (jobs (db w')) i = Some j' \<and> Type j' = Type j \<and> Payload j' = Payload j \<and>
                 MaxRetries j' = MaxRetries j \<and> RetryCount j' = RetryCount j + 1 \<and> Error j' = e \<and>
                 Status j' = (if MaxRetries j \<le> RetryCount j + 1 then StatusDead else StatusRetrying)) \<and>
           counter ErrorsTotal [Type j] (met w') = counter ErrorsTotal [Type j] (met w) + 1"
proof (cases "MaxRetries j \<le> RetryCount j + 1")
  case True
  obtain w' n u u' t t' d where w': "run_state (processJob L p sid) w = ((), w')" "serving w'"
    "jobs (db w') = upd_job i (set_error StatusDead (RetryCount j + 1) e u')
                      (upd_job i (set_status StatusRunning n u) (jobs (db w)))"
    "met w' = met w @ [(ActiveWorkers, [], Inc), (JobDuration, [Type j], Observe d),
                       (JobsProcessed, [Type j, ''failed''], Inc), (ErrorsTotal, [Type j], Inc), (ActiveWorkers, [], Dec)]"
    using processJob_dead [OF assms True] .
  then show ?thesis
    using True assms(3) exec_eqI [OF w'(1)]
    by (simp add: set_error_def set_status_def counter_append Let_def) (simp add: counter_def)
next
  case False
  then have F: "RetryCount j + 1 < MaxRetries j" by simp
  obtain w' n u u' t t' d k where w': "run_state (processJob L p sid) w = ((), w')" "serving w'"
    "jobs (db w') = upd_job i (set_error StatusRetrying (RetryCount j + 1) e u')
                      (upd_job i (set_status StatusRunning n u) (jobs (db w)))"
    "met w' = met w @ [(ActiveWorkers, [], Inc), (JobDuration, [Type j], Observe d),
                       (JobsProcessed, [Type j, ''failed''], Inc), (ErrorsTotal, [Type j], Inc),
                       (RetriesTotal, [Type j], Inc), (ActiveWorkers, [], Dec)]"
    using processJob_retry [OF assms F] .
  then show ?thesis
    using F assms(3) exec_eqI [OF w'(1)]
    by (simp add: set_error_def set_status_def counter_append Let_def) (simp add: counter_def)
qed

lemma attempts:
  assumes "serving w" "uuid_Parse L sid = Some i" "look (jobs (db w)) i = Some j"
    and "handlers (registry p) (Type j) = Some h" "tame h" "\<And>d v. fst (run_state (h d (Payload j)) v) = Some e"
    and "text_ok e" "in_int4 (RetryCount j + int n)"
  shows "let w' = (exec (processJob L p sid) ^^ n) w in
           serving w' \<and>
           (\<exists>j'. look (jobs (db w')) i = Some j' \<and> Type j' = Type j \<and> Payload j' = Payload j \<and>
                 MaxRetries j' = MaxRetries j \<and> RetryCount j' = RetryCount j + int n \<and>
                 (0 < n \<longrightarrow> Error j' = e \<and>
                   Status j' = (if MaxRetries j \<le> RetryCount j + int n then StatusDead else StatusRetrying))) \<and>
           counter ErrorsTotal [Type j] (met w') = counter ErrorsTotal [Type j] (met w) + n"
  using assms(8)
proof (induction n)
  case 0
  with assms show ?case by simp
next
  case (Suc n)
  have "jobs_ok (jobs (db w))" using S.ok_jobs assms(1) by (simp add: serving_def)
  then have "in_int4 (RetryCount j)"
    using assms(3) by (auto simp: look_Some_iff jobs_ok_def list_all_iff job_ok_def)
  with Suc.prems have "in_int4 (RetryCount j + int n)" by (auto simp: in_int4_def)
  define v where "v = (exec (processJob L p sid) ^^ n) w"
  obtain j1 where 1: "serving v" "look (jobs (db v)) i = Some j1" "Type j1 = Type j" "Payload j1 = Payload j"
    "MaxRetries j1 = MaxRetries j" "RetryCount j1 = RetryCount j + int n"
    "counter ErrorsTotal [Type j] (met v) = counter ErrorsTotal [Type j] (met w) + n"
    using Suc.IH [OF \<open>in_int4 (RetryCount j + int n)\<close>] by (auto simp: Let_def v_def)
  have "in_int4 (RetryCount j1 + 1)" using Suc.prems 1(6) by (simp add: add.commute add.left_commute)
  from attempt_step [OF 1(1) assms(2) 1(2) _ assms(5) _ assms(7) this] 1 assms(4,6)
  show ?case by (auto simp: Let_def v_def [symmetric] add.commute add.left_commute)
qed

end

section \<open>An instance in memory\<close>

text \<open>
  Two jobs in a table and in a queue, a handler that succeeds and one that fails: the
  concrete inputs on which the properties below are applied.
\<close>

definition ok_handler :: "('d, 'r) Handler" where
  "ok_handler deadline payload = ret None"

definition bad_handler :: "('d, 'r) Handler" where
  "bad_handler deadline payload = ret (Some ''boom'')"

definition demo_job :: "uuid \<Rightarrow> string \<Rightarrow> int \<Rightarrow> Job" where
  "demo_job i ty rc =
     \<lparr>ID = i, Queue = ''default'', Type = ty, Payload = Some (JObj []), Status = StatusPending,
      MaxRetries = 3, RetryCount = rc, RunAt = None, StartedAt = None, CompletedAt = None, Error = [],
      CreatedAt = 0, UpdatedAt = 0\<rparr>"

definition demo_jobs :: "Job list" where
  "demo_jobs = [demo_job 1 ''good'' 0, demo_job 2 ''bad'' 0, demo_job 3 ''bad'' 2, demo_job 4 ''none'' 0]"

definition demo_ks :: keyspace where
  "demo_ks = \<lparr>lists = (\<lambda>k. if k = queueKey ''default'' then [canon_String 2, canon_String 1] else []),
              zsets = (\<lambda>k. [])\<rparr>"

definition demo_pg :: pgmem where
  "demo_pg = \<lparr>m_tbl = map row_of demo_jobs, m_clock = (\<lambda>n. int n * time_Second), m_ids = (\<lambda>n. of_nat (100 + n)),
              m_step = 0, m_faults = []\<rparr>"

definition demo_world :: "(pgmem, rmem) world" where
  "demo_world =
     \<lparr>db = demo_pg, rds = \<lparr>r_ks = demo_ks, r_pub = [], r_faults = []\<rparr>, clk = (\<lambda>n. 0), ticks = 0,
      met = [], cancelled = False\<rparr>"

definition demo_registry :: "(pgmem, rmem) Registry" where
  "demo_registry = Register (Register NewRegistry ''good'' ok_handler) ''bad'' bad_handler"

definition demo_pool :: "(pgmem, rmem) Pool" where
  "demo_pool =
     (NewPool mem_store mem_queue demo_registry 2 (30 * time_Second) rmem_client)\<lparr>queues := [''default'']\<rparr>"

lemma demo_pool_simps [simp]:
  "store demo_pool = mem_store" "queue demo_pool = mem_queue" "redisClient demo_pool = rmem_client"
  "registry demo_pool = demo_registry" "queues demo_pool = [''default'']" "count demo_pool = 2"
  by (simp_all add: demo_pool_def NewPool_def)

interpretation memw: worker_services demo_pool m_tbl mem_env mem_up r_ks r_pub rmem_up canon_lib
  unfolding worker_services_def
  by (simp add: memst.storage_axioms memq.redis_queue_axioms rmem.redis_axioms canon.uuid_codec_axioms)

lemma demo_tame [simp]: "tame ok_handler" "tame bad_handler"
  by (simp_all add: tame_def ok_handler_def bad_handler_def)

lemma demo_handlers [simp]:
  "Registry_Get demo_registry ''good'' = Some ok_handler" "Registry_Get demo_registry ''bad'' = Some bad_handler"
  "Registry_Get demo_registry ''none'' = None"
  by (simp_all add: demo_registry_def Register_def NewRegistry_def Registry_Get_def)

lemma demo_registry_tame: "tame_registry demo_registry"
  by (auto simp: tame_registry_def Registry_Get_def demo_registry_def Register_def NewRegistry_def split: if_splits)

lemma demo_jobs_ok: "jobs_ok demo_jobs"
  by (simp add: jobs_ok_def demo_jobs_def demo_job_def job_ok_def utf8_length_def in_int4_def go_const)

lemma demo_world_up: "services_up (\<lambda>d. schema_ok (m_tbl d)) mem_up r_ks rmem_up demo_world"
  by (simp add: services_up_def demo_world_def demo_pg_def schema_ok_rows demo_jobs_ok mem_up_def rmem_up_def
                ks_ok_def demo_ks_def sane_clock_def year_ok_def time_Second_def)

lemma demo_table [simp]: "table_jobs (m_tbl (db demo_world)) = demo_jobs"
  by (simp add: demo_world_def demo_pg_def)

lemma demo_look [simp]:
  "look demo_jobs 1 = Some (demo_job 1 ''good'' 0)" "look demo_jobs 2 = Some (demo_job 2 ''bad'' 0)"
  "look demo_jobs 3 = Some (demo_job 3 ''bad'' 2)" "look demo_jobs 4 = Some (demo_job 4 ''none'' 0)"
  by (simp_all add: look_def demo_jobs_def demo_job_def)

lemma demo_job_simps [simp]:
  "ID (demo_job i ty rc) = i" "Type (demo_job i ty rc) = ty" "RetryCount (demo_job i ty rc) = rc"
  "MaxRetries (demo_job i ty rc) = 3" "Queue (demo_job i ty rc) = ''default''"
  "Status (demo_job i ty rc) = StatusPending"
  by (simp_all add: demo_job_def)

lemma canon_uuid_simps [simp]:
  "uuid_Parse canon_lib (canon_String i) = Some i" "uuid_String canon_lib = canon_String"
  by (simp_all add: canon_lib_def canon_parse_string)

section \<open>Properties of the worker\<close>

text \<open>C5.
  Success.  With both services up, a stored job whose registered handler returns no error is
  marked running and then completed, no other job changes, queues and schedule are as before,
  the two events are published in this order, and exactly the metrics of a success are
  recorded.
\<close>

theorem processJob_completes:
  assumes "worker_services p tbl env up ks pub rup L"
    and "services_up (\<lambda>d. schema_ok (tbl d)) up ks rup w"
    and "uuid_Parse L sid = Some i" "look (table_jobs (tbl (db w))) i = Some j"
    and "Registry_Get (registry p) (Type j) = Some h" "tame h" "\<forall>d v. fst (run_state (h d (Payload j)) v) = None"
  shows "\<exists>w' n u n' u' t t' d. run_state (processJob L p sid) w = ((), w') \<and>
           table_jobs (tbl (db w')) = upd_job i (set_status StatusCompleted n' u')
             (upd_job i (set_status StatusRunning n u) (table_jobs (tbl (db w)))) \<and>
           ks (rds w') = ks (rds w) \<and>
           pub (rds w') = pub (rds w) @ [event_msg (job_event L ''job.running'' j) t,
                                         event_msg (job_event L ''job.completed'' j) t'] \<and>
           met w' = met w @ [(ActiveWorkers, [], Inc), (JobDuration, [Type j], Observe d),
                             (JobsProcessed, [Type j, ''success''], Inc), (ActiveWorkers, [], Dec)]"
proof -
  note env = worker_services.as_worker_env [OF assms(1)]
  have h: "handlers (registry p) (Type j) = Some h" using assms(5) by (simp add: Registry_Get_def)
  show ?thesis
    by (rule worker_env.processJob_success [OF env assms(2-4) h assms(6) assms(7) [rule_format]])
       (intro exI conjI; assumption)
qed

theorem processJob_completes_witness:
  "\<exists>w' n u n' u' t t' d. run_state (processJob canon_lib demo_pool (canon_String 1)) demo_world = ((), w') \<and>
     table_jobs (m_tbl (db w')) = upd_job 1 (set_status StatusCompleted n' u')
       (upd_job 1 (set_status StatusRunning n u) demo_jobs) \<and>
     r_ks (rds w') = demo_ks \<and>
     r_pub (rds w') = [event_msg (job_event canon_lib ''job.running'' (demo_job 1 ''good'' 0)) t,
                       event_msg (job_event canon_lib ''job.completed'' (demo_job 1 ''good'' 0)) t'] \<and>
     met w' = [(ActiveWorkers, [], Inc), (JobDuration, [''good''], Observe d),
               (JobsProcessed, [''good'', ''success''], Inc), (ActiveWorkers, [], Dec)]"
  using processJob_completes [OF memw.worker_services_axioms demo_world_up,
      of "canon_String 1" 1 "demo_job 1 ''good'' 0" ok_handler]
  by (simp add: ok_handler_def) (simp add: demo_world_def)

text \<open>C6.
  Retry.  When the handler fails and the attempts are not used up, the job becomes retrying
  with its count raised by one and the error stored, its identifier is scheduled at the time
  the clock shows plus the back-off of the new count, and it is put in no queue.
\<close>

theorem processJob_retries:
  assumes "worker_services p tbl env up ks pub rup L"
    and "services_up (\<lambda>d. schema_ok (tbl d)) up ks rup w"
    and "uuid_Parse L sid = Some i" "look (table_jobs (tbl (db w))) i = Some j"
    and "Registry_Get (registry p) (Type j) = Some h" "tame h" "\<forall>d v. fst (run_state (h d (Payload j)) v) = Some e"
    and "text_ok e" "in_int4 (RetryCount j + 1)" "RetryCount j + 1 < MaxRetries j"
  shows "\<exists>w' n u u' t t' d k. run_state (processJob L p sid) w = ((), w') \<and>
           table_jobs (tbl (db w')) = upd_job i (set_error StatusRetrying (RetryCount j + 1) e u')
             (upd_job i (set_status StatusRunning n u) (table_jobs (tbl (db w)))) \<and>
           waiting (ks (rds w')) = waiting (ks (rds w)) \<and>
           sched (ks (rds w')) = (sched (ks (rds w)))(uuid_String L i \<mapsto>
             f64_int (Unix (clk w k + BackoffDuration (float_oob L) (RetryCount j + 1)))) \<and>
           pub (rds w') = pub (rds w) @ [event_msg (job_event L ''job.running'' j) t,
                                         event_msg (job_event L ''job.retrying'' j) t'] \<and>
           met w' = met w @ [(ActiveWorkers, [], Inc), (JobDuration, [Type j], Observe d),
                             (JobsProcessed, [Type j, ''failed''], Inc), (ErrorsTotal, [Type j], Inc),
                             (RetriesTotal, [Type j], Inc), (ActiveWorkers, [], Dec)]"
proof -
  note env = worker_services.as_worker_env [OF assms(1)]
  have h: "handlers (registry p) (Type j) = Some h" using assms(5) by (simp add: Registry_Get_def)
  show ?thesis
    by (rule worker_env.processJob_retry [OF env assms(2-4) h assms(6) assms(7) [rule_format] assms(8-10)])
       (intro exI conjI; assumption)
qed

theorem processJob_retries_witness:
  "\<exists>w' k. run_state (processJob canon_lib demo_pool (canon_String 2)) demo_world = ((), w') \<and>
     sched (r_ks (rds w')) = (sched demo_ks)(canon_String 2 \<mapsto>
       f64_int (Unix (clk demo_world k + BackoffDuration (float_oob canon_lib) 1)))"
  using processJob_retries [OF memw.worker_services_axioms demo_world_up,
      of "canon_String 2" 2 "demo_job 2 ''bad'' 0" bad_handler "''boom''"]
  by (simp add: bad_handler_def text_ok_def in_int4_def) (auto simp: demo_world_def)



text \<open>
  A job whose type has no handler becomes failed with an explanation; its count, the queues,
  the schedule and the events stay as they are.
\<close>

lemma processJob_unknown_type:
  assumes "worker_services p tbl env up ks pub rup L"
    and "services_up (\<lambda>d. schema_ok (tbl d)) up ks rup w"
    and "uuid_Parse L sid = Some i" "look (table_jobs (tbl (db w))) i = Some j"
    and "Registry_Get (registry p) (Type j) = None" "text_ok (Type j)"
  shows "\<exists>w' u. run_state (processJob L p sid) w = ((), w') \<and>
           table_jobs (tbl (db w')) = upd_job i (set_error StatusFailed (RetryCount j)
             (''no handler for type: '' @ Type j) u) (table_jobs (tbl (db w))) \<and>
           rds w' = rds w \<and> met w' = met w @ [(ActiveWorkers, [], Inc), (ActiveWorkers, [], Dec)]"
proof -
  note env = worker_services.as_worker_env [OF assms(1)]
  have h: "handlers (registry p) (Type j) = None" using assms(5) by (simp add: Registry_Get_def)
  show ?thesis
    by (rule worker_env.processJob_no_handler [OF env assms(2-4) h assms(6)])
       (intro exI conjI; assumption)
qed

text \<open>
  Isolation, whatever fails.  Whichever calls to the servers fail, before or after they took
  effect, processing a queue entry keeps the constraints of the table and of the schedule,
  changes no job but the one the entry names, no queue, and no other entry of the schedule;
  every metric call is well-formed and the gauge of active workers returns to its value.
\<close>

lemma processJob_isolated:
  assumes "worker_services p tbl env up ks pub rup L" "tame_registry (registry p)"
    and "data_ok (\<lambda>d. schema_ok (tbl d)) ks n w"
  shows "data_ok (\<lambda>d. schema_ok (tbl d)) ks n (exec (processJob L p sid) w) \<and>
         (case uuid_Parse L sid of
            None \<Rightarrow> db (exec (processJob L p sid) w) = db w \<and> rds (exec (processJob L p sid) w) = rds w
          | Some i \<Rightarrow> job_frame (\<lambda>d. table_jobs (tbl d)) ks i (uuid_String L i) w (exec (processJob L p sid) w))"
  by (rule worker_env.processJob_safe [OF worker_services.as_worker_env [OF assms(1)] assms(2,3)])

definition faulty_world :: "(pgmem, rmem) world" where
  "faulty_world = demo_world\<lparr>db := demo_pg\<lparr>m_faults := [NoFault, Lose ''timeout'']\<rparr>,
                             rds := (rds demo_world)\<lparr>r_faults := [RRefuse ''down'']\<rparr>\<rparr>"

lemma processJob_isolated_witness:
  "job_frame (\<lambda>d. table_jobs (m_tbl d)) r_ks 2 (canon_String 2) faulty_world
     (exec (processJob canon_lib demo_pool (canon_String 2)) faulty_world)"
proof -
  have "data_ok (\<lambda>d. schema_ok (m_tbl d)) r_ks 0 faulty_world"
    by (simp add: data_ok_def faulty_world_def demo_world_def demo_pg_def schema_ok_rows demo_jobs_ok
                  ks_ok_def demo_ks_def metrics_ok_def gauge_def)
  from processJob_isolated [OF memw.worker_services_axioms _ this, of "canon_String 2"] demo_registry_tame
  show ?thesis by simp
qed



text \<open>
  Order.  With the services up, a round of a worker takes the oldest entry of the first queue,
  in the order of the names it was started with, that is not empty, and processes that entry;
  if all are empty the round changes nothing that is stored.
\<close>

lemma worker_round_fifo:
  assumes "worker_services p tbl env up ks pub rup L"
    and "services_up (\<lambda>d. schema_ok (tbl d)) up ks rup w" "\<not> cancelled w"
  shows "\<exists>v. services_up (\<lambda>d. schema_ok (tbl d)) up ks rup v \<and> db v = db w \<and> met v = met w \<and>
           sched (ks (rds v)) = sched (ks (rds w)) \<and> pub (rds v) = pub (rds w) \<and>
           (case take_first (queues p) (waiting (ks (rds w))) of
              None \<Rightarrow> run_state (worker_round L p) w = (True, v) \<and> waiting (ks (rds v)) = waiting (ks (rds w))
            | Some (sid, rest) \<Rightarrow> waiting (ks (rds v)) = rest \<and>
                run_state (worker_round L p) w = (True, if sid = '''' then v else exec (processJob L p sid) v))"
proof -
  note env = worker_services.as_worker_env [OF assms(1)]
  obtain v where
    "run_state (worker_round L p) w =
       (True, case take_first (queues p) (waiting (ks (rds w))) of
                None \<Rightarrow> v
              | Some (sid, _) \<Rightarrow> if sid = '''' then v else exec (processJob L p sid) v)"
    "services_up (\<lambda>d. schema_ok (tbl d)) up ks rup v" "db v = db w" "pub (rds v) = pub (rds w)"
    "sched (ks (rds v)) = sched (ks (rds w))" "met v = met w"
    "waiting (ks (rds v)) = (case take_first (queues p) (waiting (ks (rds w))) of
                               None \<Rightarrow> waiting (ks (rds w)) | Some (sid, f) \<Rightarrow> f)"
    using worker_env.round_takes [OF env assms(2,3)] .
  then show ?thesis by (intro exI [of _ v]) (simp split: option.split prod.split)
qed

lemma demo_waiting: "waiting demo_ks ''default'' = [canon_String 1, canon_String 2]"
  by (simp add: waiting_def demo_ks_def)

lemma pool_step_cfg: "pool_step L E s s' \<Longrightarrow> cfg (fst s') = cfg (fst s)"
  by (induction rule: pool_step.induct) (auto elim!: round_stepE)

lemma pool_step_data:
  assumes "worker_services p tbl env up ks pub rup L" "tame_registry (registry p)"
    and "\<And>w w'. E w w' \<Longrightarrow> data_ok (\<lambda>d. schema_ok (tbl d)) ks n w \<Longrightarrow> data_ok (\<lambda>d. schema_ok (tbl d)) ks n w'"
    and "pool_step L E s s'" "cfg (fst s) = p" "data_ok (\<lambda>d. schema_ok (tbl d)) ks n (snd s)"
  shows "data_ok (\<lambda>d. schema_ok (tbl d)) ks n (snd s')"
  using assms(4)
proof (cases rule: pool_step.cases)
  case (pool_round r w r' w')
  then obtain go where "run_state (worker_round L p) w = (go, w')"
    using assms(5) by (auto elim: round_stepE)
  with worker_env.round_safe [OF worker_services.as_worker_env [OF assms(1)] assms(2)] pool_round assms(6)
  show ?thesis by auto
next
  case (pool_stop r w)
  with assms(6) show ?thesis by (simp add: Stop_cancel_def data_ok_def metrics_ok_def)
next
  case (pool_other w w' r)
  with assms(3,6) show ?thesis by simp
qed

text \<open>
  The invariant of a running pool.  In every state a pool reaches from its start, over any
  interleaving of the rounds of its workers, of \<^verbatim>\<open>Stop\<close>, and of steps of the rest of the
  system that keep it, the table satisfies the constraints of the schema, the schedule is a
  map, all metric calls are well-formed and no worker is counted as active between rounds.
\<close>

lemma pool_run_invariant:
  assumes "worker_services (p\<lparr>queues := qs\<rparr>) tbl env up ks pub rup L" "tame_registry (registry p)"
    and "\<forall>w w'. E w w' \<longrightarrow> data_ok (\<lambda>d. schema_ok (tbl d)) ks n w \<longrightarrow> data_ok (\<lambda>d. schema_ok (tbl d)) ks n w'"
    and "data_ok (\<lambda>d. schema_ok (tbl d)) ks n w"
    and "(pool_step L E)\<^sup>*\<^sup>* (Start qs (pool_new p), w) (r', w')"
  shows "data_ok (\<lambda>d. schema_ok (tbl d)) ks n w'"
proof -
  have "cfg (fst s) = p\<lparr>queues := qs\<rparr> \<and> data_ok (\<lambda>d. schema_ok (tbl d)) ks n (snd s)"
    if "(pool_step L E)\<^sup>*\<^sup>* (Start qs (pool_new p), w) s" for s
    using that
  proof (induction rule: rtranclp_induct)
    case base
    with assms(4) show ?case by (simp add: Start_def pool_new_def)
  next
    case (step y z)
    with pool_step_data [OF assms(1) _ _ step(2)] assms(2,3) pool_step_cfg [OF step(2)]
    show ?case by auto
  qed
  from this [OF assms(5)] show ?thesis by simp
qed



end
