(* ===== verification/Config.thy ===== *)
theory Config
  imports GoStd
begin

text \<open>
  The package \<^verbatim>\<open>config\<close> (\<^verbatim>\<open>src/internal/config/config.go\<close>): the settings of the program, read from
  the environment.  The environment is a function from names to values, the empty string for a
  variable that is not set.  The first section is \<^verbatim>\<open>time.ParseDuration\<close>.
\<close>

section \<open>Parsing durations\<close>

text \<open>Positive floats \<open>m * 2 ^ k\<close> with 53 bits: a quotient, a product, and the integer part.\<close>

definition scale_up :: "nat \<Rightarrow> int \<Rightarrow> nat" where
  "scale_up n k = n * 2 ^ nat k"

definition fl_quot :: "nat \<Rightarrow> nat \<Rightarrow> nat \<times> int" where
  "fl_quot a b =
     (let k0 = int (floorlog 2 a) - int (floorlog 2 b) - 53;
          k = (if 2 ^ 53 \<le> scale_up a (- k0) div scale_up b k0 then k0 + 1 else k0)
      in (round_div (scale_up a (- k)) (scale_up b k), k))"

definition fl_mult :: "nat \<times> int \<Rightarrow> nat \<times> int \<Rightarrow> nat \<times> int" where
  "fl_mult x y =
     (case fl_quot (fst x * fst y) 1 of (m, k) \<Rightarrow> (m, k + snd x + snd y))"

definition fl_trunc :: "nat \<times> int \<Rightarrow> nat" where
  "fl_trunc x = scale_up (fst x) (snd x) div 2 ^ nat (- snd x)"

text \<open>\<^verbatim>\<open>leadingInt\<close>: \<open>None\<close> for an overflow.\<close>

fun leading_int :: "nat \<Rightarrow> string \<Rightarrow> (nat \<times> string) option" where
  "leading_int x [] = Some (x, [])"
| "leading_int x (c # cs) =
     (case digit_val c of
        None \<Rightarrow> Some (x, c # cs)
      | Some d \<Rightarrow>
          if 2 ^ 63 div 10 < x \<or> 2 ^ 63 < x * 10 + d then None else leading_int (x * 10 + d) cs)"

text \<open>\<^verbatim>\<open>leadingFraction\<close>: digits that no longer fit are skipped.\<close>

fun leading_fraction :: "nat \<Rightarrow> nat \<Rightarrow> bool \<Rightarrow> string \<Rightarrow> nat \<times> nat \<times> string" where
  "leading_fraction x scale over [] = (x, scale, [])"
| "leading_fraction x scale over (c # cs) =
     (case digit_val c of
        None \<Rightarrow> (x, scale, c # cs)
      | Some d \<Rightarrow>
          if over \<or> (2 ^ 63 - 1) div 10 < x \<or> 2 ^ 63 < x * 10 + d then leading_fraction x scale True cs
          else leading_fraction (x * 10 + d) (scale * 10) over cs)"

definition unitMap :: "string \<rightharpoonup> nat" where
  "unitMap u = map_of
     [(''ns'', 1), (''us'', 10 ^ 3), ([CHR 0xC2, CHR 0xB5, CHR ''s''], 10 ^ 3), ([CHR 0xCE, CHR 0xBC, CHR ''s''], 10 ^ 3),
      (''ms'', 10 ^ 6), (''s'', 10 ^ 9), (''m'', 60 * 10 ^ 9), (''h'', 3600 * 10 ^ 9)] u"

definition unit_char :: "char \<Rightarrow> bool" where
  "unit_char c \<longleftrightarrow> c \<noteq> CHR ''.'' \<and> digit_val c = None"

text \<open>One number with its unit, in nanoseconds, and the rest of the text.\<close>

definition next_unit :: "string \<Rightarrow> (nat \<times> string) option" where
  "next_unit s =
     (if s = [] \<or> unit_char (hd s) then None
      else case leading_int 0 s of
        None \<Rightarrow> None
      | Some (v, s1) \<Rightarrow>
          let pre = (length s1 \<noteq> length s);
              (f, scale, s2) = (if s1 \<noteq> [] \<and> hd s1 = CHR ''.'' then leading_fraction 0 1 False (tl s1) else (0, 1, s1));
              post = (s1 \<noteq> [] \<and> hd s1 = CHR ''.'' \<and> length s2 \<noteq> length (tl s1));
              u = takeWhile unit_char s2; s3 = dropWhile unit_char s2
          in if (\<not> pre \<and> \<not> post) \<or> u = [] then None
             else (case unitMap u of
               None \<Rightarrow> None
             | Some unit \<Rightarrow>
                 (if 2 ^ 63 div unit < v then None
                  else let v' = v * unit + (if 0 < f then fl_trunc (fl_mult (fl_quot f 1) (fl_quot unit scale)) else 0)
                       in if 2 ^ 63 < v' then None else Some (v', s3))))"

lemma leading_int_length: "leading_int x s = Some (v, s') \<Longrightarrow> length s' \<le> length s"
  by (induction x s rule: leading_int.induct) (auto split: option.splits if_splits)

lemma leading_fraction_length: "leading_fraction x k b s = (v, k', s') \<Longrightarrow> length s' \<le> length s"
  by (induction x k b s rule: leading_fraction.induct) (auto split: option.splits if_splits)

lemma next_unit_length:
  assumes "next_unit s = Some (v, s')"
  shows "length s' < length s"
proof -
  obtain v1 s1 where 1: "leading_int 0 s = Some (v1, s1)"
    using assms by (auto simp: next_unit_def split: if_splits option.splits)
  obtain f k s2 where 2: "(if s1 \<noteq> [] \<and> hd s1 = CHR ''.'' then leading_fraction 0 1 False (tl s1) else (0, 1, s1)) = (f, k, s2)"
    by (metis prod_cases3)
  have "takeWhile unit_char s2 \<noteq> []" "s' = dropWhile unit_char s2"
    using assms 1 2 by (auto simp: next_unit_def Let_def split: if_splits option.splits)
  then have "length s' < length s2"
    by (metis length_append length_greater_0_conv less_add_same_cancel2 takeWhile_dropWhile_id)
  moreover have "length s2 \<le> length s1"
    using 2 leading_fraction_length [of 0 1 False "tl s1" f k s2] by (auto split: if_splits)
  ultimately show ?thesis using leading_int_length [OF 1] by linarith
qed

text \<open>The sum is of 64 bits, and so wraps around when two terms reach \<open>2 ^ 64\<close> together.\<close>

function dur_loop :: "nat \<Rightarrow> string \<Rightarrow> nat option" where
  "dur_loop d s =
     (if s = [] then Some d
      else case next_unit s of
        None \<Rightarrow> None
      | Some (v, s') \<Rightarrow> let d' = (d + v) mod 2 ^ 64 in if 2 ^ 63 < d' then None else dur_loop d' s')"
  by pat_completeness auto
termination by (relation "measure (\<lambda>(d, s). length s)") (auto dest: next_unit_length)

declare dur_loop.simps [simp del]

definition ParseDuration :: "string \<Rightarrow> duration option" where
  "ParseDuration s =
     (let neg = (s \<noteq> [] \<and> hd s = CHR ''-'');
          s1 = (if s \<noteq> [] \<and> (hd s = CHR ''-'' \<or> hd s = CHR ''+'') then tl s else s)
      in if s1 = ''0'' then Some 0
         else if s1 = [] then None
         else case dur_loop 0 s1 of
           None \<Rightarrow> None
         | Some d \<Rightarrow> if neg then Some (- int d) else if 2 ^ 63 \<le> d then None else Some (int d))"

section \<open>Loading the configuration\<close>

record Config =
  HTTPAddr :: string
  PostgresURL :: string
  RedisURL :: string
  APIKey :: string
  WorkerCount :: int
  JobTimeout :: duration
  ShutdownTimeout :: duration
  LogLevel :: string
  LeaderPollInterval :: duration

type_synonym environ = "string \<Rightarrow> string"

definition getEnvOrDefault :: "environ \<Rightarrow> string \<Rightarrow> string \<Rightarrow> string" where
  "getEnvOrDefault env key defaultVal = (let v = env key in if v \<noteq> '''' then v else defaultVal)"

definition getEnvIntOrDefault :: "environ \<Rightarrow> string \<Rightarrow> int \<Rightarrow> int" where
  "getEnvIntOrDefault env key defaultVal =
     (let v = env key
      in if v = '''' then defaultVal
         else case Atoi v of (i, None) \<Rightarrow> i | (_, Some _) \<Rightarrow> defaultVal)"

definition getEnvDurationOrDefault :: "environ \<Rightarrow> string \<Rightarrow> duration \<Rightarrow> duration" where
  "getEnvDurationOrDefault env key defaultVal =
     (let v = env key
      in if v = '''' then defaultVal
         else case ParseDuration v of Some d \<Rightarrow> d | None \<Rightarrow> defaultVal)"

definition Load :: "environ \<Rightarrow> Config result" where
  "Load env =
     (let pgURL = env ''GOQUEUE_POSTGRES_URL''; apiKey = env ''GOQUEUE_API_KEY''
      in if pgURL = '''' then Inl ''GOQUEUE_POSTGRES_URL is required''
         else if apiKey = '''' then Inl ''GOQUEUE_API_KEY is required''
         else Inr
           \<lparr>HTTPAddr = getEnvOrDefault env ''GOQUEUE_HTTP_ADDR'' '':8080'',
            PostgresURL = pgURL,
            RedisURL = getEnvOrDefault env ''GOQUEUE_REDIS_URL'' ''localhost:6379'',
            APIKey = apiKey,
            WorkerCount = getEnvIntOrDefault env ''GOQUEUE_WORKER_COUNT'' 10,
            JobTimeout = getEnvDurationOrDefault env ''GOQUEUE_JOB_TIMEOUT'' (30 * time_Second),
            ShutdownTimeout = getEnvDurationOrDefault env ''GOQUEUE_SHUTDOWN_TIMEOUT'' (30 * time_Second),
            LogLevel = getEnvOrDefault env ''GOQUEUE_LOG_LEVEL'' ''info'',
            LeaderPollInterval = getEnvDurationOrDefault env ''GOQUEUE_LEADER_POLL_INTERVAL'' (2 * time_Second)\<rparr>)"

section \<open>What the program prints it reads back\<close>

lemma leading_int_dec: "n \<le> 2 ^ 63 \<Longrightarrow> leading_int 0 (dec n @ r) = leading_int n r"
proof (induction n arbitrary: r rule: dec.induct)
  case (1 n)
  show ?case
  proof (cases "n < 10")
    case True
    then show ?thesis by (simp add: dec.simps [of n])
  next
    case False
    have "n div 10 * 10 + n mod 10 = n" by simp
    moreover have "n div 10 \<le> 2 ^ 63 div 10" using "1.prems" by (rule div_le_mono)
    moreover have "n div 10 \<le> 2 ^ 63" using "1.prems" by (meson div_le_dividend le_trans)
    then have "leading_int 0 (dec (n div 10) @ [digit (n mod 10)] @ r) = leading_int (n div 10) ([digit (n mod 10)] @ r)"
      using "1.IH" [OF False] by simp
    ultimately show ?thesis using False "1.prems" by (simp add: dec.simps [of n])
  qed
qed

lemma hd_dec_digit: "digit_val (hd (dec n)) \<noteq> None"
proof -
  obtain d where "d < 10" "hd (dec n) = digit d" using dec_digits [of "hd (dec n)" n] by auto
  then show ?thesis by simp
qed

lemma not_unit_dec: "\<not> unit_char (hd (dec n @ r))"
  using hd_dec_digit [of n] by (simp add: unit_char_def)

lemma next_unit_dec:
  assumes "digit_val c = None" "c \<noteq> CHR ''.''" "unitMap [c] = Some k" "0 < k" "n * k \<le> 2 ^ 63"
    and "r = [] \<or> \<not> unit_char (hd r)"
  shows "next_unit (dec n @ c # r) = Some (n * k, r)"
proof -
  have n: "n \<le> 2 ^ 63 div k" using assms(4,5) by (simp add: less_eq_div_iff_mult_less_eq)
  also have "\<dots> \<le> 2 ^ 63" by simp
  finally have i: "leading_int 0 (dec n @ c # r) = Some (n, c # r)"
    using assms(1) by (simp add: leading_int_dec)
  have u: "takeWhile unit_char (c # r) = [c]" "dropWhile unit_char (c # r) = r"
    using assms(1,2,6) by (cases r; auto simp: unit_char_def)+
  have "length (dec n) \<noteq> 0" by simp
  with n i u assms(2-5) not_unit_dec [of n "c # r"] show ?thesis
    by (simp add: next_unit_def Let_def)
qed

lemma dur_loop_dec:
  assumes "digit_val c = None" "c \<noteq> CHR ''.''" "unitMap [c] = Some k" "0 < k" "d + n * k \<le> 2 ^ 63"
    and "r = [] \<or> \<not> unit_char (hd r)"
  shows "dur_loop d (dec n @ c # r) = dur_loop (d + n * k) r"
proof -
  have "n * k \<le> 2 ^ 63" using assms(5) by linarith
  from next_unit_dec [OF assms(1-4) this assms(6)] assms(5) show ?thesis
    by (subst dur_loop.simps) simp
qed

lemma time_units:
  "digit_val CHR ''h'' = None" "digit_val CHR ''m'' = None" "digit_val CHR ''s'' = None"
  "unitMap ''h'' = Some (3600 * 10 ^ 9)" "unitMap ''m'' = Some (60 * 10 ^ 9)" "unitMap ''s'' = Some (10 ^ 9)"
  by (simp_all add: digit_val_def unitMap_def)

lemma digit_zero: "digit 0 = CHR ''0''"
  by code_simp

lemma fmt_frac_zero: "n mod 10 ^ 9 = 0 \<Longrightarrow> fmt_frac n 9 = []"
proof -
  have p: "pad_dec k 0 = replicate k CHR ''0''" for k
    by (induction k) (simp_all add: digit_zero replicate_append_same)
  assume "n mod 10 ^ 9 = 0"
  then show ?thesis by (simp add: fmt_frac_def p)
qed

text \<open>A whole number of seconds.\<close>

lemma dur_loop_seconds:
  assumes "n * 10 ^ 9 < 2 ^ 63" "0 < n"
  shows "dur_loop 0 (Duration_String (int n * time_Second)) = Some (n * 10 ^ 9)"
proof -
  define h m s where "h = n div 3600" and "m = n div 60 mod 60" and "s = n mod 60"
  have n: "n = h * 3600 + m * 60 + s" 
  proof -
    have "n = n div 60 * 60 + n mod 60" by simp
    moreover have "n div 60 = h * 60 + m" using div_mult2_eq [of n 60 60] by (simp add: h_def m_def)
    ultimately show ?thesis by (simp add: s_def)
  qed
  have d: "nat (int n * time_Second) = n * 10 ^ 9" by (simp add: time_Second_def nat_mult_distrib)
  have str: "Duration_String (int n * time_Second) =
      (if n div 60 = 0 then [] else (if h = 0 then [] else dec h @ ''h'') @ dec m @ ''m'') @ dec s @ ''s''"
    using assms(2) d
    by (simp add: Duration_String_def Let_def h_def m_def s_def fmt_frac_zero time_Second_def)
  have sec: "d + s * 10 ^ 9 \<le> 2 ^ 63 \<Longrightarrow> dur_loop d (dec s @ ''s'') = Some (d + s * 10 ^ 9)" for d
    using dur_loop_dec [of "CHR ''s''" "10 ^ 9" d s "[]"] time_units by (simp add: dur_loop.simps [of _ "[]"])
  have min: "d + (m * 60 + s) * 10 ^ 9 \<le> 2 ^ 63 \<Longrightarrow> dur_loop d (dec m @ ''m'' @ dec s @ ''s'') = Some (d + (m * 60 + s) * 10 ^ 9)" for d
    using dur_loop_dec [of "CHR ''m''" "60 * 10 ^ 9" d m "dec s @ ''s''"] time_units not_unit_dec [of s "''s''"]
      sec [of "d + m * (60 * 10 ^ 9)"] by (simp add: algebra_simps)
  have hour: "dur_loop 0 (dec h @ ''h'' @ dec m @ ''m'' @ dec s @ ''s'') = Some (n * 10 ^ 9)"
    using dur_loop_dec [of "CHR ''h''" "3600 * 10 ^ 9" 0 h "dec m @ ''m'' @ dec s @ ''s''"] time_units
      not_unit_dec [of m "''m'' @ dec s @ ''s''"] min [of "h * (3600 * 10 ^ 9)"] assms(1) n by (simp add: algebra_simps)
  consider "n div 60 = 0" | "n div 60 \<noteq> 0" "h = 0" | "n div 60 \<noteq> 0" "h \<noteq> 0" by blast
  then show ?thesis
  proof cases
    case 1
    then have "n = s" by (simp add: s_def)
    with 1 str sec [of 0] assms(1) show ?thesis by simp
  next
    case 2
    then have "n = m * 60 + s" using n by simp
    with min [of 0] assms(1) have "dur_loop 0 (dec m @ ''m'' @ dec s @ ''s'') = Some (n * 10 ^ 9)" by simp
    then show ?thesis unfolding str using 2 by simp
  next
    case 3
    with str hour show ?thesis by simp
  qed
qed

lemma Duration_String_head:
  assumes "0 < n"
  obtains k r where "Duration_String (int n * time_Second) = dec k @ r" "r \<noteq> []"
proof -
  have "Duration_String (int n * time_Second) =
      (if n div 60 = 0 then [] else (if n div 3600 = 0 then [] else dec (n div 3600) @ ''h'') @ dec (n div 60 mod 60) @ ''m'') @
      dec (n mod 60) @ ''s''"
    using assms by (simp add: Duration_String_def Let_def fmt_frac_zero time_Second_def nat_mult_distrib)
  with that show thesis by (auto split: if_splits)
qed

lemma ParseDuration_seconds:
  assumes "n * 10 ^ 9 < 2 ^ 63"
  shows "ParseDuration (Duration_String (int n * time_Second)) = Some (int n * time_Second)"
proof (cases "n = 0")
  case True
  have "dur_loop 0 ''0s'' = Some 0"
    using dur_loop_dec [of "CHR ''s''" "10 ^ 9" 0 0 "[]"] time_units
    by (simp add: dec.simps [of 0] dur_loop.simps [of _ "[]"] digit_zero)
  with True show ?thesis by (simp add: ParseDuration_def Duration_String_def)
next
  case False
  then obtain k r where s: "Duration_String (int n * time_Second) = dec k @ r" "r \<noteq> []"
    by (auto elim: Duration_String_head)
  have "hd (dec k @ r) \<noteq> CHR ''-'' \<and> hd (dec k @ r) \<noteq> CHR ''+''" using hd_dec [of k] by simp
  moreover have "dec k @ r \<noteq> ''0''" using s(2) dec_nonempty [of k] by (auto simp: append_eq_Cons_conv)
  ultimately show ?thesis
    using dur_loop_seconds [OF assms] False assms unfolding s(1)
    by (simp add: ParseDuration_def Let_def time_Second_def)
qed

lemma Duration_String_nonempty: "Duration_String (int n * time_Second) \<noteq> []"
  by (cases "n = 0") (simp add: Duration_String_def, metis Duration_String_head append_is_Nil_conv gr0I)

text \<open>The environment that spells out a configuration.\<close>

definition env_of :: "Config \<Rightarrow> environ" where
  "env_of c v = (case map_of
     [(''GOQUEUE_POSTGRES_URL'', PostgresURL c), (''GOQUEUE_API_KEY'', APIKey c), (''GOQUEUE_HTTP_ADDR'', HTTPAddr c),
      (''GOQUEUE_REDIS_URL'', RedisURL c), (''GOQUEUE_WORKER_COUNT'', fmt_d (WorkerCount c)),
      (''GOQUEUE_JOB_TIMEOUT'', Duration_String (JobTimeout c)),
      (''GOQUEUE_SHUTDOWN_TIMEOUT'', Duration_String (ShutdownTimeout c)), (''GOQUEUE_LOG_LEVEL'', LogLevel c),
      (''GOQUEUE_LEADER_POLL_INTERVAL'', Duration_String (LeaderPollInterval c))] v
   of None \<Rightarrow> [] | Some x \<Rightarrow> x)"

definition whole_seconds :: "duration \<Rightarrow> bool" where
  "whole_seconds d \<longleftrightarrow> 0 \<le> d \<and> d < 2 ^ 63 \<and> d mod time_Second = 0"

lemma whole_seconds_parse:
  assumes "whole_seconds d"
  shows "Duration_String d \<noteq> [] \<and> ParseDuration (Duration_String d) = Some d"
proof -
  have "d div time_Second * time_Second = d" "0 \<le> d div time_Second"
    using assms by (simp_all add: whole_seconds_def time_Second_def mod_eq_0_iff_dvd pos_imp_zdiv_nonneg_iff)
  then have d: "d = int (nat (d div time_Second)) * time_Second" by simp
  have "int (nat (d div time_Second) * 10 ^ 9) < 2 ^ 63"
    using assms d by (simp add: whole_seconds_def time_Second_def)
  then have "nat (d div time_Second) * 10 ^ 9 < 2 ^ 63" by (simp flip: of_nat_less_iff [where 'a = int])
  from ParseDuration_seconds [OF this] Duration_String_nonempty [of "nat (d div time_Second)"] d show ?thesis by metis
qed

text \<open>C31.
  Every configuration can be set: for non-empty strings, any worker count of 64 bits and
  durations of whole seconds, loading the environment that spells a configuration out in the
  program's own formats returns exactly that configuration.
\<close>

theorem config_roundtrip:
  assumes "HTTPAddr c \<noteq> []" "PostgresURL c \<noteq> []" "RedisURL c \<noteq> []" "APIKey c \<noteq> []" "LogLevel c \<noteq> []"
    and "in_int64 (WorkerCount c)"
    and "whole_seconds (JobTimeout c)" "whole_seconds (ShutdownTimeout c)" "whole_seconds (LeaderPollInterval c)"
  shows "Load (env_of c) = Inr c"
proof -
  have "fmt_d (WorkerCount c) \<noteq> []" by (simp add: fmt_d_def)
  then show ?thesis
    using assms(1-6) whole_seconds_parse [OF assms(7)] whole_seconds_parse [OF assms(8)] whole_seconds_parse [OF assms(9)]
    by (simp add: Load_def env_of_def getEnvOrDefault_def getEnvIntOrDefault_def getEnvDurationOrDefault_def Atoi_fmt_d Let_def)
qed

theorem config_roundtrip_witness:
  "Load (env_of \<lparr>HTTPAddr = '':9090'', PostgresURL = ''postgres://db'', RedisURL = ''redis:6379'', APIKey = ''k'', WorkerCount = 4,
     JobTimeout = 90 * time_Second, ShutdownTimeout = 3600 * time_Second, LogLevel = ''debug'', LeaderPollInterval = 5 * time_Second\<rparr>) =
   Inr \<lparr>HTTPAddr = '':9090'', PostgresURL = ''postgres://db'', RedisURL = ''redis:6379'', APIKey = ''k'', WorkerCount = 4,
     JobTimeout = 90 * time_Second, ShutdownTimeout = 3600 * time_Second, LogLevel = ''debug'', LeaderPollInterval = 5 * time_Second\<rparr>"
  by (rule config_roundtrip) (simp_all add: in_int64_def whole_seconds_def time_Second_def)

text \<open>With only the two required variables set, the defaults of the documentation apply.\<close>

lemma config_defaults:
  assumes "\<And>v. v \<noteq> ''GOQUEUE_POSTGRES_URL'' \<Longrightarrow> v \<noteq> ''GOQUEUE_API_KEY'' \<Longrightarrow> env v = []"
    and "env ''GOQUEUE_POSTGRES_URL'' \<noteq> []" "env ''GOQUEUE_API_KEY'' \<noteq> []"
  shows "Load env = Inr
     \<lparr>HTTPAddr = '':8080'', PostgresURL = env ''GOQUEUE_POSTGRES_URL'', RedisURL = ''localhost:6379'', APIKey = env ''GOQUEUE_API_KEY'',
      WorkerCount = 10, JobTimeout = 30 * time_Second, ShutdownTimeout = 30 * time_Second, LogLevel = ''info'',
      LeaderPollInterval = 2 * time_Second\<rparr>"
  using assms by (simp add: Load_def getEnvOrDefault_def getEnvIntOrDefault_def getEnvDurationOrDefault_def)

end
