(* ===== verification/GoTime.thy ===== *)
theory GoTime
  imports GoStd
begin

text \<open>
  \<^verbatim>\<open>time.Parse(time.RFC3339, s)\<close> of the Go library: the layout
  \<^verbatim>\<open>2006-01-02T15:04:05Z07:00\<close> read from left to right.  The hour may have one digit, a
  fraction of a second is accepted after the seconds, and an offset may be as large as 24
  hours and 60 minutes; the day is checked against the month at the end.
\<close>

definition skip_char :: "char \<Rightarrow> string \<Rightarrow> string option" where
  "skip_char c s = (case s of [] \<Rightarrow> None | d # ds \<Rightarrow> if d = c then Some ds else None)"

definition getnum :: "bool \<Rightarrow> string \<Rightarrow> (nat \<times> string) option" where
  "getnum fixed s =
     (case s of
        [] \<Rightarrow> None
      | c # cs \<Rightarrow>
          (case digit_val c of
             None \<Rightarrow> None
           | Some a \<Rightarrow>
               (case cs of
                  [] \<Rightarrow> if fixed then None else Some (a, cs)
                | d # ds \<Rightarrow>
                    (case digit_val d of
                       None \<Rightarrow> if fixed then None else Some (a, cs)
                     | Some b \<Rightarrow> Some (10 * a + b, ds)))))"

fun digits_val :: "int \<Rightarrow> string \<Rightarrow> int option" where
  "digits_val n [] = Some n"
| "digits_val n (c # cs) = (case digit_val c of None \<Rightarrow> None | Some d \<Rightarrow> digits_val (10 * n + int d) cs)"

definition get_year :: "string \<Rightarrow> (int \<times> string) option" where
  "get_year s = (if length s < 4 then None else map_option (\<lambda>y. (y, drop 4 s)) (digits_val 0 (take 4 s)))"

text \<open>The fraction: at most nine of its digits count.\<close>

definition get_fraction :: "string \<Rightarrow> int \<times> string" where
  "get_fraction s =
     (case s of
        c # d # cs \<Rightarrow>
          if (c = CHR ''.'' \<or> c = CHR '','') \<and> digit_val d \<noteq> None
          then let ds = takeWhile (\<lambda>x. digit_val x \<noteq> None) (d # cs); us = take 9 ds
               in (case digits_val 0 us of None \<Rightarrow> 0 | Some n \<Rightarrow> n * 10 ^ (9 - length us),
                   dropWhile (\<lambda>x. digit_val x \<noteq> None) (d # cs))
          else (0, s)
      | _ \<Rightarrow> (0, s))"

text \<open>The offset in seconds east of UTC, at the end of the text.\<close>

definition get_zone :: "string \<Rightarrow> int option" where
  "get_zone s =
     (if s = ''Z'' then Some 0
      else if length s = 6 \<and> s ! 3 = CHR '':'' then
        (case (getnum True (take 2 (drop 1 s)), getnum True (drop 4 s)) of
           (Some (hr, _), Some (mm, _)) \<Rightarrow>
             if hr > 24 \<or> mm > 60 then None
             else if s ! 0 = CHR ''+'' then Some (int ((hr * 60 + mm) * 60))
             else if s ! 0 = CHR ''-'' then Some (- int ((hr * 60 + mm) * 60))
             else None
         | _ \<Rightarrow> None)
      else None)"

definition leap_year :: "int \<Rightarrow> bool" where
  "leap_year y \<longleftrightarrow> y mod 4 = 0 \<and> (y mod 100 \<noteq> 0 \<or> y mod 400 = 0)"

definition days_in :: "nat \<Rightarrow> int \<Rightarrow> int" where
  "days_in m y = (if m = 2 \<and> leap_year y then 29 else [31, 28, 31, 30, 31, 30, 31, 31, 30, 31, 30, 31] ! (m - 1))"

definition days_before_month :: "nat \<Rightarrow> int \<Rightarrow> int" where
  "days_before_month m y = sum_list (map (\<lambda>k. days_in k y) [1..<m])"

definition days_before_year :: "int \<Rightarrow> int" where
  "days_before_year y = 365 * y + (y + 3) div 4 - (y + 99) div 100 + (y + 399) div 400"

definition civil_time :: "int \<Rightarrow> nat \<Rightarrow> nat \<Rightarrow> nat \<Rightarrow> nat \<Rightarrow> nat \<Rightarrow> int \<Rightarrow> time" where
  "civil_time y m d hh mi ss ns =
     (let days = days_before_year y + days_before_month m y + int d - 1 - days_before_year 1970
      in ((days * 24 + int hh) * 3600 + int mi * 60 + int ss) * time_Second + ns)"

definition parse_RFC3339 :: "string \<Rightarrow> time option" where
  "parse_RFC3339 s =
     do {
       (y, s) \<leftarrow> get_year s;
       s \<leftarrow> skip_char CHR ''-'' s;
       (m, s) \<leftarrow> getnum True s;
       s \<leftarrow> skip_char CHR ''-'' s;
       (d, s) \<leftarrow> getnum True s;
       s \<leftarrow> skip_char CHR ''T'' s;
       (hh, s) \<leftarrow> getnum False s;
       s \<leftarrow> skip_char CHR '':'' s;
       (mi, s) \<leftarrow> getnum True s;
       s \<leftarrow> skip_char CHR '':'' s;
       (ss, s) \<leftarrow> getnum True s;
       let (ns, s) = get_fraction s;
       z \<leftarrow> get_zone s;
       if 1 \<le> m \<and> m \<le> 12 \<and> hh < 24 \<and> mi < 60 \<and> ss < 60 \<and> 1 \<le> d \<and> int d \<le> days_in m y
       then Some (civil_time y m d hh mi ss ns - z * time_Second)
       else None
     }"

end
