(* ===== verification/Api.thy ===== *)
theory Api
  imports StoreQueries Event GoTime "HOL-Library.AList"
begin

text \<open>
  The package \<^verbatim>\<open>api\<close> (\<^verbatim>\<open>src/internal/api\<close>): the handlers of the REST interface, the
  authentication and logging around them, the probes, and the table of routes.  A request is
  what the handlers read of it; its body is the first JSON value the decoder finds, \<open>None\<close>
  where there is none.  A response is its status and its JSON body, \<open>None\<close> where the value
  cannot be encoded.
\<close>

section \<open>Requests and responses\<close>

record request =
  Header :: "string \<Rightarrow> string"
  URLQuery :: "string \<Rightarrow> string"
  URLParam :: "string \<Rightarrow> string"
  Body :: "json option"

record response =
  code :: int
  body :: "json option"

definition writeJSON :: "int \<Rightarrow> json option \<Rightarrow> response" where
  "writeJSON status data = \<lparr>code = status, body = data\<rparr>"

record ErrorResponse =
  er_Error :: string

definition json_ErrorResponse :: "ErrorResponse \<Rightarrow> json" where
  [simp]: "json_ErrorResponse e = JObj [(''error'', JStr (er_Error e))]"

definition writeError :: "int \<Rightarrow> string \<Rightarrow> response" where
  "writeError status msg = writeJSON status (Some (json_ErrorResponse \<lparr>er_Error = msg\<rparr>))"

definition time_field :: "string \<Rightarrow> time option \<Rightarrow> (string \<times> json) list" where
  "time_field n t = (case t of None \<Rightarrow> [] | Some x \<Rightarrow> [(n, JTime x)])"

definition json_job :: "lib \<Rightarrow> Job \<Rightarrow> json option" where
  "json_job L j =
     (if list_all year_ok (CreatedAt j # UpdatedAt j # List.map_filter (\<lambda>t. t) [RunAt j, StartedAt j, CompletedAt j])
      then Some (JObj
        ([(''id'', JStr (uuid_String L (ID j))), (''queue'', JStr (Queue j)), (''type'', JStr (Type j)),
          (''payload'', case Payload j of None \<Rightarrow> JNull | Some p \<Rightarrow> p), (''status'', JStr (Status j)),
          (''max_retries'', JNum (fmt_d (MaxRetries j))), (''retry_count'', JNum (fmt_d (RetryCount j)))] @
         time_field ''run_at'' (RunAt j) @ time_field ''started_at'' (StartedAt j) @
         time_field ''completed_at'' (CompletedAt j) @
         (if Error j = [] then [] else [(''error'', JStr (Error j))]) @
         [(''created_at'', JTime (CreatedAt j)), (''updated_at'', JTime (UpdatedAt j))]))
      else None)"

text \<open>A \<^verbatim>\<open>nil\<close> slice is encoded as null.\<close>

definition json_jobs :: "lib \<Rightarrow> Job list \<Rightarrow> json option" where
  "json_jobs L js = (if js = [] then Some JNull else map_option JArr (those (map (json_job L) js)))"

text \<open>A Go map as an association list; the encoder sorts the keys.\<close>

definition json_counts :: "(string \<times> int) list \<Rightarrow> json" where
  "json_counts m = JObj (map (\<lambda>(k, n). (k, JNum (fmt_d n))) (sort_key fst m))"

definition map_get :: "'v \<Rightarrow> 'k \<Rightarrow> ('k \<times> 'v) list \<Rightarrow> 'v" where
  "map_get z k m = (case map_of m k of None \<Rightarrow> z | Some v \<Rightarrow> v)"

definition status_only :: "string \<Rightarrow> json" where
  "status_only s = JObj [(''status'', JStr s)]"

section \<open>The handlers\<close>

record ('d, 'r) ApiHandler =
  h_store :: "'d PostgresStorage"
  h_queue :: "'r RedisQueue"
  h_redisClient :: "'r redis_client"

definition NewHandler :: "'d PostgresStorage \<Rightarrow> 'r RedisQueue \<Rightarrow> ('d, 'r) ApiHandler" where
  "NewHandler st q = \<lparr>h_store = st, h_queue = q, h_redisClient = client q\<rparr>"

record CreateJobRequest =
  cr_Queue :: string
  cr_Type :: string
  cr_Payload :: "json option"
  cr_MaxRetries :: "int option"
  cr_RunAt :: "string option"

text \<open>
  The decoder matches the names of fields without regard to case, for which the letters long s
  and the Kelvin sign count as s and k.
\<close>

definition upper :: "char \<Rightarrow> char" where
  "upper c = (let n = of_char c :: nat in if 97 \<le> n \<and> n \<le> 122 then char_of (n - 32) else c)"

fun fold_name :: "string \<Rightarrow> string" where
  "fold_name [] = []"
| "fold_name (c # cs) =
     (if c = CHR 0xC5 \<and> cs \<noteq> [] \<and> hd cs = CHR 0xBF then CHR ''S'' # fold_name (tl cs)
      else if c = CHR 0xE2 \<and> take 2 cs = [CHR 0x84, CHR 0xAA] then CHR ''K'' # fold_name (drop 2 cs)
      else upper c # fold_name cs)"

text \<open>One field: the request so far, and whether a value had the wrong type.\<close>

definition decode_field :: "string \<times> json \<Rightarrow> CreateJobRequest \<times> bool \<Rightarrow> CreateJobRequest \<times> bool" where
  "decode_field kv st =
     (case (kv, st) of ((k, v), (r, err)) \<Rightarrow>
        if fold_name k = ''QUEUE'' then
          (case v of JNull \<Rightarrow> (r, err) | JStr s \<Rightarrow> (r\<lparr>cr_Queue := s\<rparr>, err) | _ \<Rightarrow> (r, True))
        else if fold_name k = ''TYPE'' then
          (case v of JNull \<Rightarrow> (r, err) | JStr s \<Rightarrow> (r\<lparr>cr_Type := s\<rparr>, err) | _ \<Rightarrow> (r, True))
        else if fold_name k = ''PAYLOAD'' then (r\<lparr>cr_Payload := Some v\<rparr>, err)
        else if fold_name k = ''MAX_RETRIES'' then
          (case v of
             JNull \<Rightarrow> (r\<lparr>cr_MaxRetries := None\<rparr>, err)
           | JNum lit \<Rightarrow>
               (case Atoi lit of (n, None) \<Rightarrow> (r\<lparr>cr_MaxRetries := Some n\<rparr>, err) | (_, Some _) \<Rightarrow> (r, True))
           | _ \<Rightarrow> (r, True))
        else if fold_name k = ''RUN_AT'' then
          (case v of
             JNull \<Rightarrow> (r\<lparr>cr_RunAt := None\<rparr>, err)
           | JStr s \<Rightarrow> (r\<lparr>cr_RunAt := Some s\<rparr>, err)
           | _ \<Rightarrow> (r, True))
        else (r, err))"

definition decode_request :: "json option \<Rightarrow> CreateJobRequest option" where
  "decode_request b =
     (let zero = \<lparr>cr_Queue = [], cr_Type = [], cr_Payload = None, cr_MaxRetries = None, cr_RunAt = None\<rparr>
      in case b of
           Some JNull \<Rightarrow> Some zero
         | Some (JObj fs) \<Rightarrow> (case fold decode_field fs (zero, False) of (r, err) \<Rightarrow> if err then None else Some r)
         | _ \<Rightarrow> None)"

text \<open>The job of a request, or the message of a bad one.\<close>

definition request_job :: "json option \<Rightarrow> Job result" where
  "request_job b =
     (case decode_request b of
        None \<Rightarrow> Inl ''invalid request body''
      | Some r \<Rightarrow>
          if cr_Queue r = [] \<or> cr_Type r = [] then Inl ''queue and type are required''
          else
            let job = \<lparr>ID = 0, Queue = cr_Queue r, Type = cr_Type r,
                       Payload = (case cr_Payload r of None \<Rightarrow> Some (JObj []) | Some p \<Rightarrow> Some p),
                       Status = StatusPending,
                       MaxRetries = (case cr_MaxRetries r of None \<Rightarrow> 3 | Some n \<Rightarrow> n),
                       RetryCount = 0, RunAt = None, StartedAt = None, CompletedAt = None, Error = [],
                       CreatedAt = zero_time, UpdatedAt = zero_time\<rparr>
            in case cr_RunAt r of
                 None \<Rightarrow> Inr job
               | Some s \<Rightarrow>
                   (case parse_RFC3339 s of
                      None \<Rightarrow> Inl ''invalid run_at format, use RFC3339''
                    | Some t \<Rightarrow> Inr (job\<lparr>RunAt := Some t, Status := StatusScheduled\<rparr>)))"

definition api_CreateJob :: "lib \<Rightarrow> ('d, 'r) ApiHandler \<Rightarrow> request \<Rightarrow> (('d, 'r) world, response) state" where
  "api_CreateJob L h r =
     (case request_job (Body r) of
        Inl msg \<Rightarrow> ret (writeError 400 msg)
      | Inr job \<Rightarrow>
          do {
            c \<leftarrow> CreateJob (h_store h) job;
            case c of
              Inl _ \<Rightarrow> ret (writeError 500 ''failed to create job'')
            | Inr created \<Rightarrow>
                do {
                  _ \<leftarrow> (case RunAt job of
                         Some t \<Rightarrow> Schedule (h_queue h) (uuid_String L (ID created)) t
                       | None \<Rightarrow> Push (h_queue h) (Queue job) (uuid_String L (ID created)));
                  ret (writeJSON 201 (json_job L created))
                }
          })"

definition api_GetJob :: "lib \<Rightarrow> ('d, 'r) ApiHandler \<Rightarrow> request \<Rightarrow> (('d, 'r) world, response) state" where
  "api_GetJob L h r =
     (case uuid_Parse L (URLParam r ''id'') of
        None \<Rightarrow> ret (writeError 400 ''invalid job ID'')
      | Some jid \<Rightarrow>
          do {
            x \<leftarrow> GetJob (h_store h) jid;
            ret (case x of Inl _ \<Rightarrow> writeError 404 ''job not found'' | Inr job \<Rightarrow> writeJSON 200 (json_job L job))
          })"

definition list_params :: "request \<Rightarrow> ListFilter" where
  "list_params r =
     (let page = fst (Atoi (URLQuery r ''page'')); lm = fst (Atoi (URLQuery r ''limit''))
      in \<lparr>f_Status = URLQuery r ''status'', f_Queue = URLQuery r ''queue'', f_Type = URLQuery r ''type'',
          Page = (if page < 1 then 1 else page), Limit = (if lm < 1 \<or> lm > 100 then 20 else lm)\<rparr>)"

text \<open>
  \<^verbatim>\<open>int(math.Ceil(float64(total) / float64(limit)))\<close>: the quotient is rounded to 53 bits, to
  nearest and ties to even, before the ceiling is taken.
\<close>

definition ceil_div_f64 :: "nat \<Rightarrow> nat \<Rightarrow> nat" where
  "ceil_div_f64 a b =
     (if a = 0 then 0
      else if a < b then 1
      else let e = floorlog 2 (a div b)
           in if e \<le> 53 then (round_div (a * 2 ^ (53 - e)) b + (2 ^ (53 - e) - 1)) div 2 ^ (53 - e)
              else round_div a (b * 2 ^ (e - 53)) * 2 ^ (e - 53))"

definition total_pages :: "int \<Rightarrow> int \<Rightarrow> int" where
  "total_pages tot lm = int (ceil_div_f64 (f64_nat (nat tot)) (nat lm))"

text \<open>The page that is sent; \<open>Data\<close> is already encoded.\<close>

record Pagination =
  pg_Page :: int
  pg_Limit :: int
  pg_Total :: int
  pg_TotalPages :: int

record PaginatedResponse =
  pr_Data :: json
  pr_Pagination :: Pagination

definition json_Pagination :: "Pagination \<Rightarrow> json" where
  [simp]: "json_Pagination p =
     JObj [(''page'', JNum (fmt_d (pg_Page p))), (''limit'', JNum (fmt_d (pg_Limit p))),
           (''total'', JNum (fmt_d (pg_Total p))), (''total_pages'', JNum (fmt_d (pg_TotalPages p)))]"

definition json_PaginatedResponse :: "PaginatedResponse \<Rightarrow> json" where
  [simp]: "json_PaginatedResponse r = JObj [(''data'', pr_Data r), (''pagination'', json_Pagination (pr_Pagination r))]"

definition list_response :: "lib \<Rightarrow> ListFilter \<Rightarrow> Job list \<Rightarrow> int \<Rightarrow> response" where
  "list_response L f js tot =
     writeJSON 200 (map_option (\<lambda>data. json_PaginatedResponse
       \<lparr>pr_Data = data,
        pr_Pagination = \<lparr>pg_Page = Page f, pg_Limit = Limit f, pg_Total = tot, pg_TotalPages = total_pages tot (Limit f)\<rparr>\<rparr>)
       (json_jobs L js))"

definition api_ListJobs :: "lib \<Rightarrow> ('d, 'r) ApiHandler \<Rightarrow> request \<Rightarrow> (('d, 'r) world, response) state" where
  "api_ListJobs L h r =
     (let f = list_params r
      in do {
        x \<leftarrow> ListJobs (h_store h) f;
        ret (case x of
               Inl _ \<Rightarrow> writeError 500 ''failed to list jobs''
             | Inr (js, tot) \<Rightarrow> list_response L f js tot)
      })"

definition api_publishEvent :: "lib \<Rightarrow> ('d, 'r) ApiHandler \<Rightarrow> string \<Rightarrow> Job \<Rightarrow> (('d, 'r) world, unit) state" where
  "api_publishEvent L h eventType job =
     do {
       _ \<leftarrow> PublishJobEvent (h_redisClient h)
              \<lparr>ev_Type = eventType, ev_JobID = uuid_String L (ID job), ev_Queue = Queue job,
               ev_Status = Status job, Timestamp = zero_time\<rparr>;
       ret ()
     }"

definition api_CancelJob :: "lib \<Rightarrow> ('d, 'r) ApiHandler \<Rightarrow> request \<Rightarrow> (('d, 'r) world, response) state" where
  "api_CancelJob L h r =
     (case uuid_Parse L (URLParam r ''id'') of
        None \<Rightarrow> ret (writeError 400 ''invalid job ID'')
      | Some jid \<Rightarrow>
          do {
            x \<leftarrow> GetJob (h_store h) jid;
            case x of
              Inl _ \<Rightarrow> ret (writeError 404 ''job not found'')
            | Inr job \<Rightarrow>
                if \<not> CanTransitionTo (Status job) StatusCancelled
                then ret (writeError 409 ''job cannot be cancelled in current state'')
                else do {
                  e \<leftarrow> UpdateJobStatus (h_store h) jid StatusCancelled;
                  case e of
                    Some _ \<Rightarrow> ret (writeError 500 ''failed to cancel job'')
                  | None \<Rightarrow>
                      do {
                        api_publishEvent L h ''job.cancelled'' job;
                        ret (writeJSON 200 (Some (status_only ''cancelled'')))
                      }
                }
          })"

definition api_RetryJob :: "lib \<Rightarrow> ('d, 'r) ApiHandler \<Rightarrow> request \<Rightarrow> (('d, 'r) world, response) state" where
  "api_RetryJob L h r =
     (case uuid_Parse L (URLParam r ''id'') of
        None \<Rightarrow> ret (writeError 400 ''invalid job ID'')
      | Some jid \<Rightarrow>
          do {
            x \<leftarrow> GetJob (h_store h) jid;
            case x of
              Inl _ \<Rightarrow> ret (writeError 404 ''job not found'')
            | Inr job \<Rightarrow>
                if Status job \<noteq> StatusDead then ret (writeError 409 ''only dead jobs can be retried'')
                else do {
                  e \<leftarrow> UpdateJobError (h_store h) jid StatusPending 0 '''';
                  case e of
                    Some _ \<Rightarrow> ret (writeError 500 ''failed to retry job'')
                  | None \<Rightarrow>
                      do {
                        _ \<leftarrow> Push (h_queue h) (Queue job) (uuid_String L jid);
                        api_publishEvent L h ''job.retried'' job;
                        ret (writeJSON 200 (Some (status_only ''retrying'')))
                      }
                }
          })"

definition api_DeleteJob :: "lib \<Rightarrow> ('d, 'r) ApiHandler \<Rightarrow> request \<Rightarrow> (('d, 'r) world, response) state" where
  "api_DeleteJob L h r =
     (case uuid_Parse L (URLParam r ''id'') of
        None \<Rightarrow> ret (writeError 400 ''invalid job ID'')
      | Some jid \<Rightarrow>
          do {
            e \<leftarrow> DeleteJob (h_store h) jid;
            ret (case e of
                   Some msg \<Rightarrow> writeError 409 msg
                 | None \<Rightarrow> writeJSON 200 (Some (status_only ''deleted'')))
          })"

section \<open>Statistics\<close>

text \<open>The loops over the statistics, with the additions of a Go \<^verbatim>\<open>int\<close>.\<close>

definition group_stats :: "QueueStat list \<Rightarrow> (string \<times> (string \<times> int) list) list" where
  "group_stats stats =
     fold (\<lambda>s g. AList.update (qs_Queue s) (AList.update (qs_Status s) (qs_Count s) (map_get [] (qs_Queue s) g)) g) stats []"

definition name_stats :: "QueueStat list \<Rightarrow> (string \<times> int) list" where
  "name_stats stats = fold (\<lambda>s m. AList.update (qs_Status s) (qs_Count s) m) stats []"

definition total_stats :: "QueueStat list \<Rightarrow> (string \<times> int) list" where
  "total_stats stats =
     fold (\<lambda>s m. AList.update (qs_Status s) (wrap64 (map_get 0 (qs_Status s) m + qs_Count s)) m) stats []"

definition json_grouped :: "(string \<times> (string \<times> int) list) list \<Rightarrow> json" where
  "json_grouped g = JObj (map (\<lambda>(q, m). (q, json_counts m)) (sort_key fst g))"

definition api_GetQueues :: "('d, 'r) ApiHandler \<Rightarrow> request \<Rightarrow> (('d, 'r) world, response) state" where
  "api_GetQueues h r =
     do {
       x \<leftarrow> GetQueueStats (h_store h);
       ret (case x of
              Inl _ \<Rightarrow> writeError 500 ''failed to get queue stats''
            | Inr stats \<Rightarrow> writeJSON 200 (Some (json_grouped (group_stats stats))))
     }"

definition api_GetQueueByName :: "('d, 'r) ApiHandler \<Rightarrow> request \<Rightarrow> (('d, 'r) world, response) state" where
  "api_GetQueueByName h r =
     do {
       x \<leftarrow> GetQueueStatsByName (h_store h) (URLParam r ''name'');
       ret (case x of
              Inl _ \<Rightarrow> writeError 500 ''failed to get queue stats''
            | Inr stats \<Rightarrow> writeJSON 200 (Some (json_counts (name_stats stats))))
     }"

definition api_GetStats :: "('d, 'r) ApiHandler \<Rightarrow> request \<Rightarrow> (('d, 'r) world, response) state" where
  "api_GetStats h r =
     do {
       x \<leftarrow> GetQueueStats (h_store h);
       ret (case x of
              Inl _ \<Rightarrow> writeError 500 ''failed to get stats''
            | Inr stats \<Rightarrow> writeJSON 200 (Some (json_counts (total_stats stats))))
     }"

section \<open>Authentication, logging, probes and routes\<close>

type_synonym ('d, 'r) http_handler = "request \<Rightarrow> (('d, 'r) world, response) state"

definition APIKeyAuth :: "string \<Rightarrow> ('d, 'r) http_handler \<Rightarrow> ('d, 'r) http_handler" where
  "APIKeyAuth apiKey next_h r =
     (if Header r ''X-API-Key'' \<noteq> apiKey then ret (writeError 401 ''invalid or missing API key'') else next_h r)"

definition RequestLogger :: "('d, 'r) http_handler \<Rightarrow> ('d, 'r) http_handler" where
  "RequestLogger next_h r = do { _ \<leftarrow> time_Now; x \<leftarrow> next_h r; _ \<leftarrow> time_Now; ret x }"

definition HealthHandler :: "('d, 'r) http_handler" where
  "HealthHandler r = ret (writeJSON 200 (Some (status_only ''ok'')))"

definition ReadyHandler :: "bool \<Rightarrow> 'd PostgresStorage \<Rightarrow> ('d, 'r) http_handler" where
  "ReadyHandler isLeader st r =
     do {
       e \<leftarrow> db_call (Ping (pool st));
       let dbOK = (e = None);
       let role = (if isLeader then ''leader'' else ''standby'');
       let status = (if \<not> dbOK then 503 else 200);
       ret (writeJSON status (Some (JObj [(''db'', JBool dbOK), (''ready'', JBool dbOK), (''status'', JStr role)])))
     }"

datatype http_method = GET | POST | DELETE

datatype endpoint =
    EHealth | EReady | EMetrics | ECreateJob | EListJobs | EGetJob | ECancelJob | ERetryJob | EDeleteJob
  | EGetQueues | EGetQueueByName | EGetStats | ESwagger | EDashboard | EDashboardJobs | EDashboardJob
  | EDashboardDLQ | EWS

text \<open>
  The routes: a method (\<open>None\<close> for all), a pattern, and an endpoint.  The routes of the group
  \<^verbatim>\<open>/api/v1\<close> are behind the key.
\<close>

definition api_routes :: "(http_method option \<times> string \<times> endpoint) list" where
  "api_routes =
     [(Some POST, ''/jobs'', ECreateJob), (Some GET, ''/jobs'', EListJobs), (Some GET, ''/jobs/{id}'', EGetJob),
      (Some POST, ''/jobs/{id}/cancel'', ECancelJob), (Some POST, ''/jobs/{id}/retry'', ERetryJob),
      (Some DELETE, ''/jobs/{id}'', EDeleteJob), (Some GET, ''/queues'', EGetQueues),
      (Some GET, ''/queues/{name}'', EGetQueueByName), (Some GET, ''/stats'', EGetStats)]"

definition open_routes :: "(http_method option \<times> string \<times> endpoint) list" where
  "open_routes =
     [(Some GET, ''/health'', EHealth), (Some GET, ''/ready'', EReady), (None, ''/metrics'', EMetrics),
      (Some GET, ''/swagger/*'', ESwagger), (Some GET, ''/dashboard'', EDashboard),
      (Some GET, ''/dashboard/jobs'', EDashboardJobs), (Some GET, ''/dashboard/jobs/{id}'', EDashboardJob),
      (Some GET, ''/dashboard/dlq'', EDashboardDLQ), (Some GET, ''/ws'', EWS)]"

definition routes :: "(http_method option \<times> string \<times> endpoint \<times> bool) list" where
  "routes =
     map (\<lambda>(m, p, e). (m, p, e, False)) open_routes @
     map (\<lambda>(m, p, e). (m, ''/api/v1'' @ p, e, True)) api_routes"

text \<open>\<open>other\<close> are the handlers of the endpoints that are not part of this package.\<close>

fun endpoint_handler ::
  "lib \<Rightarrow> ('d, 'r) ApiHandler \<Rightarrow> bool \<Rightarrow> (endpoint \<Rightarrow> ('d, 'r) http_handler) \<Rightarrow> endpoint \<Rightarrow> ('d, 'r) http_handler" where
  "endpoint_handler L h isLeader other EHealth = HealthHandler"
| "endpoint_handler L h isLeader other EReady = ReadyHandler isLeader (h_store h)"
| "endpoint_handler L h isLeader other ECreateJob = api_CreateJob L h"
| "endpoint_handler L h isLeader other EListJobs = api_ListJobs L h"
| "endpoint_handler L h isLeader other EGetJob = api_GetJob L h"
| "endpoint_handler L h isLeader other ECancelJob = api_CancelJob L h"
| "endpoint_handler L h isLeader other ERetryJob = api_RetryJob L h"
| "endpoint_handler L h isLeader other EDeleteJob = api_DeleteJob L h"
| "endpoint_handler L h isLeader other EGetQueues = api_GetQueues h"
| "endpoint_handler L h isLeader other EGetQueueByName = api_GetQueueByName h"
| "endpoint_handler L h isLeader other EGetStats = api_GetStats h"
| "endpoint_handler L h isLeader other e = other e"

definition serve_route ::
  "lib \<Rightarrow> ('d, 'r) ApiHandler \<Rightarrow> string \<Rightarrow> bool \<Rightarrow> (endpoint \<Rightarrow> ('d, 'r) http_handler) \<Rightarrow>
     http_method option \<times> string \<times> endpoint \<times> bool \<Rightarrow> ('d, 'r) http_handler" where
  "serve_route L h apiKey isLeader other rt =
     (case rt of (_, _, e, auth) \<Rightarrow>
        RequestLogger (if auth then APIKeyAuth apiKey (endpoint_handler L h isLeader other e)
                       else endpoint_handler L h isLeader other e))"

section \<open>Totals\<close>

lemma map_get_update [simp]: "map_get z k (AList.update k' v m) = (if k = k' then v else map_get z k m)"
  by (simp add: map_get_def update_conv')

lemma wrap64_add: "wrap64 (wrap64 a + b) = wrap64 (a + b)"
  by (simp add: wrap64_def) (metis (no_types, opaque_lifting) add.assoc add.commute diff_add_cancel mod_add_left_eq)

definition sum_status :: "string \<Rightarrow> QueueStat list \<Rightarrow> int" where
  "sum_status st stats = sum_list (map qs_Count (filter (\<lambda>s. qs_Status s = st) stats))"

lemma total_stats_fold:
  "in_int64 (map_get 0 st m) \<Longrightarrow>
     map_get 0 st (fold (\<lambda>s m. AList.update (qs_Status s) (wrap64 (map_get 0 (qs_Status s) m + qs_Count s)) m) stats m)
       = wrap64 (map_get 0 st m + sum_status st stats)"
proof (induction stats arbitrary: m)
  case Nil
  then show ?case by (simp add: sum_status_def wrap64_id)
next
  case (Cons s stats)
  let ?m = "AList.update (qs_Status s) (wrap64 (map_get 0 (qs_Status s) m + qs_Count s)) m"
  have "in_int64 (map_get 0 st ?m)" using Cons.prems wrap64_range by simp
  from Cons.IH [OF this] show ?case
    by (auto simp: sum_status_def wrap64_add add.assoc)
qed

lemma total_stats_get: "map_get 0 st (total_stats stats) = wrap64 (sum_status st stats)"
  using total_stats_fold [of st "[]" stats] by (simp add: total_stats_def map_get_def in_int64_def)

lemma count_partition:
  assumes "finite P" "job_key ` set js \<subseteq> P"
  shows "(\<Sum>k | k \<in> P \<and> snd k = st. length (filter (\<lambda>j. job_key j = k) js)) = length (filter (\<lambda>j. Status j = st) js)"
  using assms(2)
proof (induction js)
  case Nil
  then show ?case by simp
next
  case (Cons j js)
  have fin: "finite {k \<in> P. snd k = st}" using assms(1) by simp
  have "(\<Sum>k | k \<in> P \<and> snd k = st. length (filter (\<lambda>i. job_key i = k) (j # js))) =
      (\<Sum>k | k \<in> P \<and> snd k = st. (if job_key j = k then 1 else 0) + length (filter (\<lambda>i. job_key i = k) js))"
    by (intro sum.cong) auto
  also have "\<dots> = (if job_key j \<in> {k \<in> P. snd k = st} then 1 else 0) + length (filter (\<lambda>i. Status i = st) js)"
    using Cons fin by (simp add: sum.distrib)
  also have "\<dots> = length (filter (\<lambda>i. Status i = st) (j # js))"
    using Cons.prems by (auto simp: job_key_def)
  finally show ?case .
qed

lemma sum_status_stats:
  assumes "distinct ks" "set ks = job_key ` set js"
  shows "sum_status st (map (stat_of js) ks) = int (length (filter (\<lambda>j. Status j = st) js))"
proof -
  have "sum_status st (map (stat_of js) ks) =
      sum_list (map (\<lambda>k. int (length (filter (\<lambda>j. job_key j = k) js))) (filter (\<lambda>k. snd k = st) ks))"
    by (simp add: sum_status_def filter_map comp_def stat_of_def)
  also have "\<dots> = (\<Sum>k | k \<in> set ks \<and> snd k = st. int (length (filter (\<lambda>j. job_key j = k) js)))"
    using assms(1) by (subst sum_list_distinct_conv_sum_set) auto
  also have "\<dots> = int (length (filter (\<lambda>j. Status j = st) js))"
    using count_partition [of "set ks" js st] assms(2) by (simp flip: of_nat_sum)
  finally show ?thesis .
qed

text \<open>The groups: a later entry for the same queue and status replaces an earlier one.\<close>

lemma group_stats_snoc:
  "group_stats (stats @ [s]) =
     AList.update (qs_Queue s) (AList.update (qs_Status s) (qs_Count s) (map_get [] (qs_Queue s) (group_stats stats))) (group_stats stats)"
  by (simp add: group_stats_def)

lemma group_stats_get:
  assumes "distinct ks" "set ks = job_key ` set js"
  shows "map_get 0 x (map_get [] q (group_stats (map (stat_of js) ks))) =
           int (length (filter (\<lambda>j. Queue j = q \<and> Status j = x) js))"
proof -
  have *: "map_get 0 x (map_get [] q (group_stats (map (stat_of js) ks))) =
      (if (q, x) \<in> set ks then int (length (filter (\<lambda>j. job_key j = (q, x)) js)) else 0)" for ks :: "(string \<times> string) list"
    by (induction ks rule: rev_induct)
       (auto simp: group_stats_snoc stat_of_def map_get_def [of _ _ "[]"] group_stats_def [of "[]"] prod_eq_iff)
  have "filter (\<lambda>j. job_key j = (q, x)) js = []" if "(q, x) \<notin> set ks"
    using that assms(2) by (auto simp: filter_empty_conv) (metis image_eqI)
  then show ?thesis by (auto simp: * job_key_def cong: filter_cong)
qed

section \<open>Pages\<close>

text \<open>Where the number of jobs stays below \<open>2 ^ 46\<close>, the rounding of the quotient does no harm.\<close>

lemma ceil_between:
  fixes m c G :: nat
  assumes "m \<le> c * G" "(c - 1) * G < m" "0 < c" "0 < G"
  shows "(m + (G - 1)) div G = c"
proof -
  have "c * G \<le> m + (G - 1)"
    using assms by (cases c) auto
  moreover have "m + (G - 1) < Suc c * G" using assms by simp
  ultimately show ?thesis by (metis div_nat_eqI mult.commute)
qed

lemma ceil_props:
  fixes a b :: nat
  assumes "0 < b"
  shows "a \<le> (a + (b - 1)) div b * b" "0 < a \<Longrightarrow> ((a + (b - 1)) div b - 1) * b < a" "0 < a \<Longrightarrow> 0 < (a + (b - 1)) div b"
proof -
  let ?c = "(a + (b - 1)) div b"
  have e: "?c * b + (a + (b - 1)) mod b = a + (b - 1)" by simp
  have "(a + (b - 1)) mod b < b" using assms by simp
  with e assms show "a \<le> ?c * b" by linarith
  show pos: "0 < a \<Longrightarrow> 0 < ?c" using assms by (simp add: div_greater_zero_iff)
  assume "0 < a"
  with pos obtain k where k: "?c = Suc k" by (cases ?c) auto
  with e have "k * b + b \<le> a + (b - 1)" by (metis add.commute le_add1 mult_Suc)
  with assms k show "(?c - 1) * b < a" by simp
qed

lemma ceil_div_f64_exact:
  assumes "0 < b" "b \<le> 100" "a < 2 ^ 46"
  shows "ceil_div_f64 a b = (a + (b - 1)) div b"
proof (cases "a < b")
  case True
  show ?thesis
  proof (cases "a = 0")
    case False
    then have "(a + (b - 1)) div b = 1" using True assms(1) by (intro div_nat_eqI) auto
    with True False show ?thesis by (simp add: ceil_div_f64_def)
  qed (use assms(1) in \<open>simp add: ceil_div_f64_def\<close>)
next
  case False
  define c e G where "c = (a + (b - 1)) div b" and "e = floorlog 2 (a div b)" and "G = (2 :: nat) ^ (53 - e)"
  have a0: "0 < a" using False assms(1) by simp
  note c = ceil_props [OF assms(1), of a, folded c_def]
  have "a div b \<le> a" by simp
  then have "a div b < 2 ^ 46" using assms(3) by linarith
  then have e: "e \<le> 46" unfolding e_def by (intro floorlog_leI) auto
  then have "(2 :: nat) ^ 7 \<le> G" unfolding G_def by (intro power_increasing) auto
  then have G: "b \<le> G" "0 < G" using assms(2) by auto
  let ?m = "round_div (a * G) b"
  have "2 * (b * ?m) \<le> 2 * (a * G) + b" by (rule round_div_bounds(2) [OF assms(1)])
  moreover have "a * G \<le> c * b * G" using c(1) by simp
  ultimately have "2 * (b * ?m) \<le> 2 * (c * b * G) + b" by linarith
  then have "b * (2 * ?m) \<le> b * (2 * (c * G) + 1)" by (simp add: algebra_simps)
  then have "2 * ?m \<le> 2 * (c * G) + 1" using assms(1) by (simp only: mult_le_cancel1 if_True simp_thms)
  then have up: "?m \<le> c * G" by linarith
  have "Suc ((c - 1) * b) * G \<le> a * G" using c(2) [OF a0] by (intro mult_le_mono1) simp
  then have "b * ((c - 1) * G + 1) \<le> a * G" using G(1) by (simp add: algebra_simps)
  then have "(c - 1) * G + 1 \<le> a * G div b"
    using assms(1) by (simp add: less_eq_div_iff_mult_less_eq mult.commute)
  also have "\<dots> \<le> ?m" by (rule round_div_bounds(1) [OF assms(1)])
  finally have lo: "(c - 1) * G < ?m" by simp
  have "ceil_div_f64 a b = (?m + (G - 1)) div G"
    using False a0 e by (simp add: ceil_div_f64_def Let_def e_def G_def)
  also have "\<dots> = c" by (rule ceil_between [OF up lo c(3) [OF a0] G(2)])
  finally show ?thesis by (simp add: c_def)
qed

lemma list_page_params: "list_page (list_params r) = list_params r"
  by (simp add: list_page_def list_params_def Let_def)

lemma total_pages_exact:
  assumes "0 < lm" "lm \<le> 100" "0 \<le> tot" "tot < 2 ^ 46"
  shows "total_pages tot lm = (tot + (lm - 1)) div lm"
proof -
  have "nat tot < 2 ^ 46" using assms by (simp add: nat_less_iff)
  then have "total_pages tot lm = int ((nat tot + (nat lm - 1)) div nat lm)"
    using assms f64_nat_exact [of "nat tot"] ceil_div_f64_exact [of "nat lm" "nat tot"]
    by (simp add: total_pages_def)
  also have "\<dots> = (tot + (lm - 1)) div lm"
    using assms by (simp add: zdiv_int of_nat_diff add_diff_eq)
  finally show ?thesis .
qed

end
