(* ===== verification/Hub.thy ===== *)
theory Hub
  imports Prelude "HOL-Library.Sublist"
begin

text \<open>
  The WebSocket hub of the dashboard (\<^verbatim>\<open>src/internal/dashboard/hub.go\<close>, \<^verbatim>\<open>client.go\<close>, and
  \<^verbatim>\<open>ServeWS\<close> of \<^verbatim>\<open>handler.go\<close>): the goroutine that owns the clients, the two goroutines of
  each client, and the channels between them.  A client is a number for its pointer.  The
  connection is outside: whether it is accepted and whether a write or a read fails is left open.
  Three fields record the history: the messages the hub took from its channel, what was written
  to each connection, and whether the loop of the hub touched the map of the clients while
  \<^verbatim>\<open>Shutdown\<close>, in the goroutine of \<^verbatim>\<open>main\<close>, ranged over it.
\<close>

type_synonym cid = nat
type_synonym msg = string

section \<open>The state\<close>

text \<open>\<open>buf\<close> and \<open>closed\<close> are the channel \<^verbatim>\<open>send\<close>; the pumps are alive until their goroutines return.\<close>

record Client =
  buf :: "msg list"
  closed :: bool
  write_alive :: bool
  read_alive :: bool
  out :: "msg list"
  joined :: nat

text \<open>Where \<^verbatim>\<open>Shutdown\<close> is: between two clients of its range, or with one picked and not yet closed.\<close>

datatype shutdown = NotShut | Ranging | Picked cid | ShutDone

record Hub =
  clients :: "cid set"
  broadcast :: "msg list"
  register :: "cid list"
  unregister :: "cid list"
  mem :: "cid \<rightharpoonup> Client"
  run_alive :: bool
  hub_done :: bool
  hub_panicked :: bool
  sent :: "msg list"
  down :: shutdown
  raced :: bool

definition chan_cap :: nat where [go_const]: "chan_cap = 256"

definition NewHub :: Hub where
  "NewHub = \<lparr>clients = {}, broadcast = [], register = [], unregister = [], mem = Map.empty, run_alive = True,
             hub_done = False, hub_panicked = False, sent = [], down = NotShut, raced = False\<rparr>"

definition new_client :: Client where
  "new_client = \<lparr>buf = [], closed = False, write_alive = True, read_alive = True, out = [], joined = 0\<rparr>"

definition upd_client :: "cid \<Rightarrow> (Client \<Rightarrow> Client) \<Rightarrow> Hub \<Rightarrow> Hub" where
  "upd_client c f h = h\<lparr>mem := (mem h)(c := map_option f (mem h c))\<rparr>"

definition client_of :: "Hub \<Rightarrow> cid \<Rightarrow> Client" where
  "client_of h c = (case mem h c of None \<Rightarrow> new_client | Some x \<Rightarrow> x)"

text \<open>\<^verbatim>\<open>close(client.send)\<close> panics on a channel that is closed, and so does a send.\<close>

definition close_send :: "cid \<Rightarrow> Hub \<Rightarrow> Hub" where
  "close_send c h =
     (if closed (client_of h c) then h\<lparr>hub_panicked := True\<rparr> else upd_client c (\<lambda>x. x\<lparr>closed := True\<rparr>) h)"

section \<open>The hub\<close>

definition run_register :: "Hub \<Rightarrow> Hub" where
  "run_register h =
     (case register h of
        [] \<Rightarrow> h
      | c # cs \<Rightarrow> upd_client c (\<lambda>x. x\<lparr>joined := length (sent h)\<rparr>) (h\<lparr>register := cs, clients := insert c (clients h)\<rparr>))"

definition run_unregister :: "Hub \<Rightarrow> Hub" where
  "run_unregister h =
     (case unregister h of
        [] \<Rightarrow> h
      | c # cs \<Rightarrow>
          (let h' = h\<lparr>unregister := cs\<rparr>
           in if c \<in> clients h then close_send c (h'\<lparr>clients := clients h - {c}\<rparr>) else h'))"

text \<open>One turn of the loop over the clients: a client whose channel is full is dropped.\<close>

definition deliver :: "msg \<Rightarrow> cid \<Rightarrow> Hub \<Rightarrow> Hub" where
  "deliver m c h =
     (if closed (client_of h c) then h\<lparr>hub_panicked := True\<rparr>
      else if length (buf (client_of h c)) < chan_cap then upd_client c (\<lambda>x. x\<lparr>buf := buf x @ [m]\<rparr>) h
      else (close_send c h)\<lparr>clients := clients h - {c}\<rparr>)"

text \<open>\<open>order\<close>: the order in which \<^verbatim>\<open>range\<close> visits the map.\<close>

definition run_broadcast :: "cid list \<Rightarrow> Hub \<Rightarrow> Hub" where
  "run_broadcast order h =
     (case broadcast h of
        [] \<Rightarrow> h
      | m # ms \<Rightarrow> fold (deliver m) order (h\<lparr>broadcast := ms, sent := sent h @ [m]\<rparr>))"

definition Shutdown_client :: "cid \<Rightarrow> Hub \<Rightarrow> Hub" where
  "Shutdown_client c h = (close_send c h)\<lparr>clients := clients h - {c}\<rparr>"

definition Shutdown :: "cid list \<Rightarrow> Hub \<Rightarrow> Hub" where
  "Shutdown order h = fold Shutdown_client order h"

section \<open>The goroutines together\<close>

text \<open>\<open>accepted\<close>: whether the upgrade of the connection succeeded.\<close>

definition ServeWS :: "bool \<Rightarrow> cid \<Rightarrow> Hub \<Rightarrow> Hub" where
  "ServeWS accepted c h =
     (if \<not> accepted then h else h\<lparr>mem := (mem h)(c \<mapsto> new_client), register := register h @ [c]\<rparr>)"

text \<open>The end of a pump: it puts its client into the channel \<^verbatim>\<open>unregister\<close>.\<close>

definition writePump_end :: "cid \<Rightarrow> Hub \<Rightarrow> Hub" where
  "writePump_end c h = (upd_client c (\<lambda>x. x\<lparr>write_alive := False\<rparr>) h)\<lparr>unregister := unregister h @ [c]\<rparr>"

definition readPump_end :: "cid \<Rightarrow> Hub \<Rightarrow> Hub" where
  "readPump_end c h = (upd_client c (\<lambda>x. x\<lparr>read_alive := False\<rparr>) h)\<lparr>unregister := unregister h @ [c]\<rparr>"

text \<open>
  A send to a full channel blocks: its step is possible only when there is room.  The pumps run
  with a background context, so only a failure or a closed channel ends them.  A turn of the loop
  of \<^verbatim>\<open>Run\<close> is one step (\<open>turn\<close>).  \<^verbatim>\<open>Shutdown\<close> does not wait for the loop: its range picks a client
  of the map in one step and closes its channel in another, and turns of the loop may fall between.
\<close>

definition ranging :: "Hub \<Rightarrow> bool" where
  "ranging h \<longleftrightarrow> down h = Ranging \<or> (\<exists>c. down h = Picked c)"

definition turn :: "(Hub \<Rightarrow> Hub) \<Rightarrow> Hub \<Rightarrow> Hub" where
  "turn f h = (f h)\<lparr>raced := raced h \<or> ranging h\<rparr>"

inductive hub_step :: "Hub \<Rightarrow> Hub \<Rightarrow> bool" where
  serve_ws: "mem h c = None \<Longrightarrow> length (register h) < chan_cap \<Longrightarrow> hub_step h (ServeWS accepted c h)"
| send: "length (broadcast h) < chan_cap \<Longrightarrow> hub_step h (h\<lparr>broadcast := broadcast h @ [m]\<rparr>)"
| register: "run_alive h \<Longrightarrow> register h \<noteq> [] \<Longrightarrow> hub_step h (turn run_register h)"
| unregister: "run_alive h \<Longrightarrow> unregister h \<noteq> [] \<Longrightarrow> hub_step h (turn run_unregister h)"
| broadcast: "run_alive h \<Longrightarrow> broadcast h \<noteq> [] \<Longrightarrow> distinct order \<Longrightarrow> set order = clients h \<Longrightarrow>
    hub_step h (turn (run_broadcast order) h)"
| returned: "hub_done h \<Longrightarrow> hub_step h (h\<lparr>run_alive := False\<rparr>)"
| written: "mem h c = Some x \<Longrightarrow> write_alive x \<Longrightarrow> buf x = m # ms \<Longrightarrow>
    hub_step h (upd_client c (\<lambda>x. x\<lparr>buf := ms, out := out x @ [m]\<rparr>) h)"
| write_failed: "mem h c = Some x \<Longrightarrow> write_alive x \<Longrightarrow> buf x = m # ms \<Longrightarrow> length (unregister h) < chan_cap \<Longrightarrow>
    hub_step h (writePump_end c (upd_client c (\<lambda>x. x\<lparr>buf := ms\<rparr>) h))"
| write_closed: "mem h c = Some x \<Longrightarrow> write_alive x \<Longrightarrow> buf x = [] \<Longrightarrow> closed x \<Longrightarrow> length (unregister h) < chan_cap \<Longrightarrow>
    hub_step h (writePump_end c h)"
| read_failed: "mem h c = Some x \<Longrightarrow> read_alive x \<Longrightarrow> length (unregister h) < chan_cap \<Longrightarrow> hub_step h (readPump_end c h)"
| cancel: "hub_step h (h\<lparr>hub_done := True\<rparr>)"
| shutdown: "hub_done h \<Longrightarrow> down h = NotShut \<Longrightarrow> hub_step h (h\<lparr>down := Ranging\<rparr>)"
| shutdown_pick: "down h = Ranging \<Longrightarrow> c \<in> clients h \<Longrightarrow> hub_step h (h\<lparr>down := Picked c\<rparr>)"
| shutdown_close: "down h = Picked c \<Longrightarrow> hub_step h ((Shutdown_client c h)\<lparr>down := Ranging\<rparr>)"
| shutdown_end: "down h = Ranging \<Longrightarrow> clients h = {} \<Longrightarrow> hub_step h (h\<lparr>down := ShutDone\<rparr>)"

section \<open>The order of the loop\<close>

text \<open>The effect of a broadcast on all clients at once.\<close>

definition delivered :: "msg \<Rightarrow> Client \<Rightarrow> Client" where
  "delivered m x = (if length (buf x) < chan_cap then x\<lparr>buf := buf x @ [m]\<rparr> else x\<lparr>closed := True\<rparr>)"

definition all_delivered :: "msg \<Rightarrow> cid set \<Rightarrow> Hub \<Rightarrow> Hub" where
  "all_delivered m C h =
     h\<lparr>mem := (\<lambda>c. if c \<in> C then map_option (delivered m) (mem h c) else mem h c),
       clients := {c \<in> clients h. c \<in> C \<longrightarrow> length (buf (client_of h c)) < chan_cap}\<rparr>"

lemma deliver_one:
  assumes "mem h c = Some x" "\<not> closed x" "c \<in> clients h"
  shows "deliver m c h = all_delivered m {c} h"
  using assms by (auto simp: deliver_def close_send_def all_delivered_def client_of_def upd_client_def delivered_def fun_eq_iff
      intro!: Hub.equality)

lemma all_delivered_insert:
  assumes "c \<notin> C"
  shows "all_delivered m C (all_delivered m {c} h) = all_delivered m (insert c C) h"
  using assms by (auto simp: all_delivered_def client_of_def fun_eq_iff intro!: Hub.equality)

lemma broadcast_any_order:
  assumes "distinct cs" "\<And>c. c \<in> set cs \<Longrightarrow> c \<in> clients h \<and> (\<exists>x. mem h c = Some x \<and> \<not> closed x)"
  shows "fold (deliver m) cs h = all_delivered m (set cs) h"
  using assms
proof (induction cs arbitrary: h)
  case Nil
  then show ?case by (simp add: all_delivered_def)
next
  case (Cons c cs)
  obtain x where "mem h c = Some x" "\<not> closed x" "c \<in> clients h" using Cons.prems(2) [of c] by auto
  then have "deliver m c h = all_delivered m {c} h" by (rule deliver_one)
  moreover have "c' \<in> clients (all_delivered m {c} h) \<and> (\<exists>x. mem (all_delivered m {c} h) c' = Some x \<and> \<not> closed x)"
    if "c' \<in> set cs" for c'
    using Cons.prems(1) Cons.prems(2) [of c'] that by (auto simp: all_delivered_def)
  ultimately show ?case using Cons.IH [of "all_delivered m {c} h"] Cons.prems(1) by (simp add: all_delivered_insert)
qed

section \<open>The invariant\<close>

text \<open>
  A client of the hub, or on its way to it, has an open channel; one on its way is new.  What a
  client whose writer is alive got, and what still waits in its channel, is exactly what the hub
  took from its channel since the client joined; for any other client it is the beginning of it.
\<close>

definition client_ok :: "Hub \<Rightarrow> cid \<Rightarrow> Client \<Rightarrow> bool" where
  "client_ok h c x \<longleftrightarrow>
     length (buf x) \<le> chan_cap \<and> joined x \<le> length (sent h) \<and>
     (c \<in> set (register h) \<longrightarrow> \<not> closed x \<and> out x = [] \<and> buf x = []) \<and>
     (c \<in> clients h \<longrightarrow> \<not> closed x) \<and>
     (write_alive x \<longrightarrow> c \<in> clients h \<longrightarrow> out x @ buf x = drop (joined x) (sent h)) \<and>
     (write_alive x \<longrightarrow> prefix (out x @ buf x) (drop (joined x) (sent h))) \<and>
     prefix (out x) (drop (joined x) (sent h))"

definition hub_ok :: "Hub \<Rightarrow> bool" where
  "hub_ok h \<longleftrightarrow>
     \<not> hub_panicked h \<and> finite (clients h) \<and> distinct (register h) \<and> set (register h) \<inter> clients h = {} \<and>
     (\<forall>c. c \<in> clients h \<or> c \<in> set (register h) \<or> c \<in> set (unregister h) \<longrightarrow> mem h c \<noteq> None) \<and>
     (\<forall>c x. mem h c = Some x \<longrightarrow> client_ok h c x)"

lemma hub_okI:
  assumes "\<not> hub_panicked h" "finite (clients h)" "distinct (register h)" "set (register h) \<inter> clients h = {}"
    and "\<And>c. c \<in> clients h \<or> c \<in> set (register h) \<or> c \<in> set (unregister h) \<Longrightarrow> mem h c \<noteq> None"
    and "\<And>c x. mem h c = Some x \<Longrightarrow> client_ok h c x"
  shows "hub_ok h"
  using assms by (auto simp: hub_ok_def)

lemma hub_okD:
  assumes "hub_ok h"
  shows "\<not> hub_panicked h" "finite (clients h)" "distinct (register h)" "set (register h) \<inter> clients h = {}"
    and "c \<in> clients h \<Longrightarrow> \<exists>x. mem h c = Some x \<and> client_ok h c x \<and> \<not> closed x"
    and "c \<in> set (register h) \<or> c \<in> set (unregister h) \<Longrightarrow> mem h c \<noteq> None"
    and "mem h c = Some x \<Longrightarrow> client_ok h c x"
  using assms unfolding hub_ok_def client_ok_def by blast+

lemma client_ok_cong:
  "client_ok h c x \<Longrightarrow> register h' = register h \<Longrightarrow> clients h' = clients h \<Longrightarrow> sent h' = sent h \<Longrightarrow> client_ok h' c x"
  by (simp add: client_ok_def)

text \<open>A change of one client.\<close>

lemma hub_ok_upd:
  assumes "hub_ok h" "mem h c = Some x" "client_ok h c (f x)" "set u \<subseteq> insert c (set (unregister h))"
  shows "hub_ok ((upd_client c f h)\<lparr>unregister := u\<rparr>)"
proof (rule hub_okI)
  fix c' x' assume "mem ((upd_client c f h)\<lparr>unregister := u\<rparr>) c' = Some x'"
  then have "client_ok h c' x'"
    using assms(2,3) hub_okD(7) [OF assms(1)] by (auto simp: upd_client_def split: if_splits)
  then show "client_ok ((upd_client c f h)\<lparr>unregister := u\<rparr>) c' x'"
    by (rule client_ok_cong) (simp_all add: upd_client_def)
next
  fix c' assume "c' \<in> clients ((upd_client c f h)\<lparr>unregister := u\<rparr>) \<or> c' \<in> set (register ((upd_client c f h)\<lparr>unregister := u\<rparr>)) \<or>
    c' \<in> set (unregister ((upd_client c f h)\<lparr>unregister := u\<rparr>))"
  then show "mem ((upd_client c f h)\<lparr>unregister := u\<rparr>) c' \<noteq> None"
    using assms(2,4) hub_okD(5,6) [OF assms(1), of c'] by (auto simp: upd_client_def)
qed (use hub_okD [OF assms(1)] in \<open>simp_all add: upd_client_def\<close>)

text \<open>Dropping a client from the map and closing its channel.\<close>

lemma hub_ok_drop:
  assumes "hub_ok h" "c \<in> clients h"
  shows "hub_ok ((close_send c h)\<lparr>clients := clients h - {c}\<rparr>)"
proof -
  obtain x where x: "mem h c = Some x" "client_ok h c x" "\<not> closed x" using hub_okD(5) [OF assms] by blast
  have eq: "(close_send c h)\<lparr>clients := clients h - {c}\<rparr> =
      h\<lparr>mem := (mem h)(c \<mapsto> x\<lparr>closed := True\<rparr>), clients := clients h - {c}\<rparr>"
    using x by (simp add: close_send_def client_of_def upd_client_def)
  have "c \<notin> set (register h)" using hub_okD(4) [OF assms(1)] assms(2) by blast
  then show ?thesis
    unfolding eq
  proof (intro hub_okI, goal_cases)
    case (6 c' x')
    with x hub_okD(7) [OF assms(1), of c' x'] show ?case by (auto simp: client_ok_def split: if_splits)
  next
    case (5 c')
    with hub_okD(5,6) [OF assms(1), of c'] show ?case by auto
  qed (use hub_okD(1-4) [OF assms(1)] in auto)
qed

lemma hub_ok_register:
  assumes "hub_ok h"
  shows "hub_ok (run_register h)"
proof (cases "register h")
  case Nil
  with assms show ?thesis by (simp add: run_register_def)
next
  case (Cons c cs)
  obtain x where x: "mem h c = Some x" using hub_okD(6) [OF assms, of c] Cons by auto
  have new: "\<not> closed x" "out x = []" "buf x = []"
    using hub_okD(7) [OF assms x] Cons by (auto simp: client_ok_def)
  have eq: "run_register h =
      h\<lparr>register := cs, clients := insert c (clients h), mem := (mem h)(c \<mapsto> x\<lparr>joined := length (sent h)\<rparr>)\<rparr>"
    using Cons x by (simp add: run_register_def upd_client_def)
  show ?thesis
    unfolding eq
  proof (intro hub_okI, goal_cases)
    case (6 c' x')
    show ?case
    proof (cases "c' = c")
      case True
      moreover have "c \<notin> set cs" using hub_okD(3) [OF assms] Cons by simp
      ultimately show ?thesis using 6 new by (auto simp: client_ok_def)
    next
      case False
      with 6 have "client_ok h c' x'" using hub_okD(7) [OF assms, of c' x'] by simp
      with False Cons show ?thesis by (simp add: client_ok_def)
    qed
  next
    case (5 c')
    with hub_okD(5,6) [OF assms, of c'] Cons show ?case by auto
  qed (use hub_okD(1-4) [OF assms] Cons in auto)
qed

lemma hub_ok_unregister:
  assumes "hub_ok h"
  shows "hub_ok (run_unregister h)"
proof (cases "unregister h")
  case Nil
  with assms show ?thesis by (simp add: run_unregister_def)
next
  case (Cons c cs)
  let ?h = "h\<lparr>unregister := cs\<rparr>"
  have ok: "hub_ok ?h"
    using assms Cons unfolding hub_ok_def client_ok_def by auto
  have "close_send c (?h\<lparr>clients := clients h - {c}\<rparr>) = (close_send c ?h)\<lparr>clients := clients ?h - {c}\<rparr>"
    by (simp add: close_send_def client_of_def upd_client_def)
  with Cons ok hub_ok_drop [OF ok, of c] show ?thesis by (simp add: run_unregister_def Let_def)
qed

lemma hub_ok_broadcast:
  assumes "hub_ok h" "distinct order" "set order = clients h"
  shows "hub_ok (run_broadcast order h)"
proof (cases "broadcast h")
  case Nil
  with assms show ?thesis by (simp add: run_broadcast_def)
next
  case (Cons m ms)
  let ?h = "h\<lparr>broadcast := ms, sent := sent h @ [m]\<rparr>"
  have open_ch: "c \<in> clients ?h \<and> (\<exists>x. mem ?h c = Some x \<and> \<not> closed x)" if "c \<in> set order" for c
    using hub_okD(5) [OF assms(1), of c] that assms(3) by auto
  have eq: "run_broadcast order h = all_delivered m (clients h) ?h"
    using broadcast_any_order [OF assms(2) open_ch] Cons assms(3) by (simp add: run_broadcast_def)
  show ?thesis
    unfolding eq
  proof (intro hub_okI, goal_cases)
    case (6 c x)
    show ?case
    proof (cases "c \<in> clients h")
      case True
      then obtain y where y: "mem h c = Some y" "client_ok h c y" "\<not> closed y" using hub_okD(5) [OF assms(1)] by blast
      have j: "drop (joined y) (sent h @ [m]) = drop (joined y) (sent h) @ [m]" using y(2) by (simp add: client_ok_def)
      have r: "c \<notin> set (register h)" using hub_okD(4) [OF assms(1)] True by blast
      have x: "x = delivered m y" using 6 True y(1) by (simp add: all_delivered_def)
      show ?thesis
      proof (cases "length (buf y) < chan_cap")
        case True
        have w: "out y @ buf y @ [m] = drop (joined y) (sent h) @ [m]" if "write_alive y"
          using y(2) that \<open>c \<in> clients h\<close> by (simp add: client_ok_def flip: append_assoc)
        have p: "prefix (out y) (drop (joined y) (sent h) @ [m])" using y(2) by (simp add: client_ok_def)
        from True y(2,3) r j x w p show ?thesis
          by (auto simp: client_ok_def all_delivered_def delivered_def)
      next
        case False
        with y(1,2) r j x show ?thesis
          by (auto simp: client_ok_def all_delivered_def delivered_def client_of_def prefix_def)
      qed
    next
      case False
      then have "client_ok h c x" using 6 hub_okD(7) [OF assms(1), of c x] by (simp add: all_delivered_def)
      with False show ?thesis by (auto simp: client_ok_def all_delivered_def intro: prefix_order.trans)
    qed
  next
    case (5 c)
    with hub_okD(5,6) [OF assms(1), of c] show ?case by (auto simp: all_delivered_def)
  qed (use hub_okD(1-4) [OF assms(1)] in \<open>auto simp: all_delivered_def\<close>)
qed

lemma hub_ok_shutdown:
  assumes "hub_ok h" "distinct order" "set order \<subseteq> clients h"
  shows "hub_ok (Shutdown order h)"
  using assms
proof (induction order arbitrary: h)
  case Nil
  then show ?case by (simp add: Shutdown_def)
next
  case (Cons c cs)
  let ?h = "(close_send c h)\<lparr>clients := clients h - {c}\<rparr>"
  have "Shutdown (c # cs) h = Shutdown cs ?h" by (simp add: Shutdown_def Shutdown_client_def)
  moreover have "hub_ok ?h" using Cons.prems by (intro hub_ok_drop) auto
  moreover have "set cs \<subseteq> clients ?h" using Cons.prems by auto
  ultimately show ?case using Cons by simp
qed

lemma hub_ok_flags:
  "hub_ok (h\<lparr>broadcast := b\<rparr>) = hub_ok h" "hub_ok (h\<lparr>run_alive := a\<rparr>) = hub_ok h" "hub_ok (h\<lparr>hub_done := d\<rparr>) = hub_ok h"
  "hub_ok (h\<lparr>down := e\<rparr>) = hub_ok h" "hub_ok (h\<lparr>raced := f\<rparr>) = hub_ok h"
  by (simp_all add: hub_ok_def client_ok_def)

lemma hub_step_ok:
  assumes "hub_step h h'" "hub_ok h" "\<And>c. down h = Picked c \<Longrightarrow> c \<in> clients h"
  shows "hub_ok h'"
  using assms(1)
proof cases
  case (serve_ws c accepted)
  have c: "c \<notin> clients h" "c \<notin> set (register h)"
    using hub_okD(5,6) [OF assms(2), of c] serve_ws by auto
  have "hub_ok (ServeWS True c h)"
  proof (intro hub_okI, goal_cases)
    case (6 c' x)
    with c hub_okD(7) [OF assms(2), of c' x] show ?case
      by (auto simp: ServeWS_def client_ok_def new_client_def split: if_splits)
  next
    case (5 c')
    with hub_okD(5,6) [OF assms(2), of c'] show ?case by (auto simp: ServeWS_def)
  qed (use hub_okD(1-4) [OF assms(2)] c in \<open>auto simp: ServeWS_def\<close>)
  with assms(2) show ?thesis unfolding serve_ws(1) by (cases accepted) (simp_all add: ServeWS_def)
next
  case (written c x m ms)
  then have "client_ok h c (x\<lparr>buf := ms, out := out x @ [m]\<rparr>)"
    using hub_okD(7) [OF assms(2) written(2)] hub_okD(6) [OF assms(2), of c]
    by (auto simp: client_ok_def prefix_def)
  from hub_ok_upd [OF assms(2) written(2), where u = "unregister h" and f = "\<lambda>x. x\<lparr>buf := ms, out := out x @ [m]\<rparr>", OF this] written show ?thesis
    by (simp add: upd_client_def subset_insertI)
next
  case (write_failed c x m ms)
  then have "client_ok h c (x\<lparr>buf := ms, write_alive := False\<rparr>)"
    using hub_okD(7) [OF assms(2) write_failed(2)] by (auto simp: client_ok_def)
  from hub_ok_upd [OF assms(2) write_failed(2), where u = "unregister h @ [c]" and f = "\<lambda>x. x\<lparr>buf := ms, write_alive := False\<rparr>", OF this]
  show ?thesis unfolding write_failed(1) by (simp add: upd_client_def writePump_end_def write_failed(2))
next
  case (write_closed c x)
  then have "client_ok h c (x\<lparr>write_alive := False\<rparr>)"
    using hub_okD(7) [OF assms(2) write_closed(2)] by (auto simp: client_ok_def)
  from hub_ok_upd [OF assms(2) write_closed(2), where u = "unregister h @ [c]" and f = "\<lambda>x. x\<lparr>write_alive := False\<rparr>", OF this] show ?thesis
    unfolding write_closed(1) by (simp add: writePump_end_def)
next
  case (read_failed c x)
  then have "client_ok h c (x\<lparr>read_alive := False\<rparr>)"
    using hub_okD(7) [OF assms(2) read_failed(2)] by (auto simp: client_ok_def)
  from hub_ok_upd [OF assms(2) read_failed(2), where u = "unregister h @ [c]" and f = "\<lambda>x. x\<lparr>read_alive := False\<rparr>", OF this] show ?thesis
    unfolding read_failed(1) by (simp add: readPump_end_def)
next
  case (broadcast order)
  with assms(2) show ?thesis by (simp add: turn_def hub_ok_flags hub_ok_broadcast)
next
  case (shutdown_close c)
  with hub_ok_drop [OF assms(2) assms(3)] show ?thesis by (simp add: hub_ok_flags Shutdown_client_def)
qed (simp_all add: assms(2) turn_def hub_ok_register hub_ok_unregister hub_ok_flags)

text \<open>Only a turn of the loop during the range can take away the client that \<^verbatim>\<open>Shutdown\<close> has picked.\<close>

lemma down_run:
  "down (close_send c h) = down h" "down (run_register h) = down h" "down (run_unregister h) = down h"
  "down (fold (deliver m) cs h) = down h" "down (run_broadcast cs h) = down h"
proof -
  show c: "down (close_send c h) = down h" for c h by (simp add: close_send_def upd_client_def)
  show "down (run_register h) = down h" by (simp add: run_register_def upd_client_def split: list.split)
  show "down (run_unregister h) = down h" by (simp add: run_unregister_def Let_def c split: list.split)
  have "down (deliver m c h) = down h" for m c h by (simp add: deliver_def c upd_client_def)
  then show f: "down (fold (deliver m) cs h) = down h" for m cs h by (induction cs arbitrary: h) simp_all
  show "down (run_broadcast cs h) = down h" by (simp add: run_broadcast_def f split: list.split)
qed

lemma raced_calls: "raced (close_send c h) = raced h" "raced (Shutdown_client c h) = raced h"
  "raced (upd_client c f h) = raced h" "raced (ServeWS b c h) = raced h"
  by (simp_all add: close_send_def Shutdown_client_def upd_client_def ServeWS_def)

lemma hub_step_raced: "hub_step h h' \<Longrightarrow> raced h \<Longrightarrow> raced h'"
  by (induction rule: hub_step.induct) (simp_all add: turn_def raced_calls writePump_end_def readPump_end_def)

lemma hub_step_picked:
  assumes "hub_step h h'" "\<not> raced h'" "\<And>c. down h = Picked c \<Longrightarrow> c \<in> clients h" "down h' = Picked c"
  shows "c \<in> clients h'"
  using assms
proof (induction rule: hub_step.induct)
  case (register h)
  then show ?case by (auto simp: turn_def down_run ranging_def)
next
  case (unregister h)
  then show ?case by (auto simp: turn_def down_run ranging_def)
next
  case (broadcast h order)
  then show ?case by (auto simp: turn_def down_run ranging_def)
qed (simp_all add: ServeWS_def upd_client_def writePump_end_def readPump_end_def split: if_splits)

lemma hub_new_ok: "hub_ok NewHub"
  by (simp add: hub_ok_def NewHub_def)

lemma hub_reach_ok: "hub_step\<^sup>*\<^sup>* NewHub h \<Longrightarrow> \<not> raced h \<Longrightarrow> hub_ok h \<and> (\<forall>c. down h = Picked c \<longrightarrow> c \<in> clients h)"
proof (induction rule: rtranclp_induct)
  case base
  show ?case using hub_new_ok by (simp add: NewHub_def)
next
  case (step y z)
  have "\<not> raced y" using hub_step_raced [OF step.hyps(2)] step.prems by blast
  with step.IH have y: "hub_ok y" "\<And>c. down y = Picked c \<Longrightarrow> c \<in> clients y" by blast+
  from hub_step_ok [OF step.hyps(2) y] hub_step_picked [OF step.hyps(2) step.prems y(2)] show ?case by blast
qed

section \<open>Properties\<close>

text \<open>C29.
  The hub panics only by the race with its shutdown.  In every state the hub and its clients
  reach, whatever connections fail, and unless a turn of the loop fell into the range of
  \<^verbatim>\<open>Shutdown\<close>, no channel was closed twice and nothing was sent on a closed one; the channel of
  every registered client is open and within its capacity.
\<close>

theorem hub_never_panics:
  assumes "hub_step\<^sup>*\<^sup>* NewHub h" "\<not> raced h"
  shows "\<not> hub_panicked h \<and>
         (\<forall>c\<in>clients h. \<exists>x. mem h c = Some x \<and> \<not> closed x \<and> length (buf x) \<le> 256)"
proof -
  have ok: "hub_ok h" using hub_reach_ok [OF assms] by blast
  from hub_okD(1,5) [OF ok] show ?thesis by (fastforce simp: client_ok_def chan_cap_def)
qed

definition demo_hub :: Hub where
  "demo_hub = upd_client 0 (\<lambda>x. x\<lparr>buf := [], out := [''<div>'']\<rparr>)
     (run_broadcast [0] ((run_register (ServeWS True 0 NewHub))\<lparr>broadcast := [''<div>'']\<rparr>))"

lemma demo_hub_clients: "clients demo_hub = {0}" "sent demo_hub = [''<div>'']"
  "mem demo_hub 0 = Some (new_client\<lparr>out := [''<div>'']\<rparr>)" "\<not> raced demo_hub" "down demo_hub = NotShut"
  "unregister demo_hub = []" "run_alive demo_hub"
  by (auto simp: demo_hub_def run_broadcast_def run_register_def ServeWS_def NewHub_def upd_client_def deliver_def
      client_of_def new_client_def chan_cap_def)

lemma demo_hub_reach: "hub_step\<^sup>*\<^sup>* NewHub demo_hub"
proof -
  let ?h1 = "ServeWS True 0 NewHub"
  let ?h2 = "run_register ?h1"
  let ?h3 = "?h2\<lparr>broadcast := [''<div>'']\<rparr>"
  let ?h4 = "run_broadcast [0] ?h3"
  have "hub_step NewHub ?h1" by (rule hub_step.serve_ws) (simp_all add: NewHub_def chan_cap_def)
  moreover have "hub_step ?h1 ?h2"
    using hub_step.register [of ?h1] by (simp add: turn_def ranging_def run_register_def ServeWS_def NewHub_def upd_client_def)
  moreover have "hub_step ?h2 ?h3"
    using hub_step.send [of ?h2 "''<div>''"] by (simp add: run_register_def ServeWS_def NewHub_def upd_client_def chan_cap_def)
  moreover have "hub_step ?h3 ?h4"
    using hub_step.broadcast [of ?h3 "[0]"]
    by (simp add: turn_def ranging_def run_broadcast_def deliver_def client_of_def new_client_def chan_cap_def run_register_def
        ServeWS_def NewHub_def upd_client_def)
  moreover have "hub_step ?h4 demo_hub"
  proof -
    have "mem ?h4 0 = Some (new_client\<lparr>buf := [''<div>'']\<rparr>)"
      by (simp add: run_broadcast_def run_register_def ServeWS_def NewHub_def upd_client_def deliver_def client_of_def
          new_client_def chan_cap_def)
    from hub_step.written [OF this] show ?thesis
      by (simp add: demo_hub_def new_client_def upd_client_def run_broadcast_def run_register_def ServeWS_def NewHub_def
          deliver_def client_of_def chan_cap_def)
  qed
  ultimately show ?thesis by (meson converse_rtranclp_into_rtranclp rtranclp.rtrancl_refl)
qed

theorem hub_never_panics_witness:
  "\<not> hub_panicked demo_hub \<and> (\<exists>x. mem demo_hub 0 = Some x \<and> \<not> closed x \<and> length (buf x) \<le> 256)"
  using hub_never_panics [OF demo_hub_reach demo_hub_clients(4)] by (simp add: demo_hub_clients)

text \<open>C30.
  Delivery in order.  What was written to a connection is always the beginning of what the hub
  took from its channel since the client joined; and for a client that is still registered and
  whose writer is alive, what was written followed by what waits in its channel is exactly that:
  nothing is lost, doubled or reordered.  (Again unless the loop and the shutdown overlapped.)
\<close>

theorem hub_delivers_in_order:
  assumes "hub_step\<^sup>*\<^sup>* NewHub h" "\<not> raced h" "mem h c = Some x"
  shows "prefix (out x) (drop (joined x) (sent h)) \<and>
         (c \<in> clients h \<and> write_alive x \<longrightarrow> out x @ buf x = drop (joined x) (sent h))"
  using hub_okD(7) [OF hub_reach_ok [OF assms(1,2), THEN conjunct1] assms(3)] by (simp add: client_ok_def)

theorem hub_delivers_in_order_witness:
  "\<exists>x. mem demo_hub 0 = Some x \<and> out x = [''<div>''] \<and> prefix (out x) (drop (joined x) (sent demo_hub)) \<and>
     out x @ buf x = drop (joined x) (sent demo_hub)"
  using hub_delivers_in_order [OF demo_hub_reach demo_hub_clients(4), of 0] by (simp add: demo_hub_clients new_client_def)

text \<open>C40.
  The shutdown can panic.  When the range of \<^verbatim>\<open>Shutdown\<close> has come to a client and, before it
  closes the channel, the loop, which has not yet looked at its context, handles the end of that
  client's connection, the channel is closed twice.
\<close>

theorem shutdown_can_panic: "\<exists>h. hub_step\<^sup>*\<^sup>* NewHub h \<and> raced h \<and> hub_panicked h"
proof -
  let ?h1 = "demo_hub\<lparr>hub_done := True\<rparr>"
  let ?h2 = "readPump_end 0 ?h1"
  let ?h3 = "?h2\<lparr>down := Ranging\<rparr>"
  let ?h4 = "?h3\<lparr>down := Picked 0\<rparr>"
  let ?h5 = "turn run_unregister ?h4"
  let ?h6 = "(Shutdown_client 0 ?h5)\<lparr>down := Ranging\<rparr>"
  note demo = demo_hub_clients
  have "hub_step demo_hub ?h1" by (rule hub_step.cancel)
  moreover have "hub_step ?h1 ?h2"
    using demo hub_step.read_failed [of ?h1 0 "new_client\<lparr>out := [''<div>'']\<rparr>"] by (simp add: new_client_def chan_cap_def)
  moreover have "hub_step ?h2 ?h3"
    using hub_step.shutdown [of ?h2] by (simp add: readPump_end_def upd_client_def demo)
  moreover have "hub_step ?h3 ?h4"
    using hub_step.shutdown_pick [of ?h3 0] by (simp add: readPump_end_def upd_client_def demo)
  moreover have "hub_step ?h4 ?h5"
    using hub_step.unregister [of ?h4] by (simp add: readPump_end_def upd_client_def demo)
  moreover have "hub_step ?h5 ?h6"
    by (rule hub_step.shutdown_close) (simp add: turn_def down_run)
  ultimately have "hub_step\<^sup>*\<^sup>* NewHub ?h6" using demo_hub_reach by (meson rtranclp.rtrancl_into_rtrancl)
  moreover have "raced ?h6" by (simp add: turn_def ranging_def raced_calls)
  moreover have "hub_panicked ?h6"
    by (simp add: Shutdown_client_def turn_def readPump_end_def upd_client_def run_unregister_def close_send_def client_of_def
        demo new_client_def)
  ultimately show ?thesis by blast
qed

text \<open>Uninterrupted, the steps of the shutdown are the range over all clients.\<close>

lemma shutdown_runs:
  assumes "down h = Ranging" "distinct order" "set order = clients h"
  shows "hub_step\<^sup>*\<^sup>* h ((Shutdown order h)\<lparr>down := ShutDone\<rparr>)"
  using assms
proof (induction order arbitrary: h)
  case Nil
  then show ?case using hub_step.shutdown_end [of h] by (simp add: Shutdown_def r_into_rtranclp)
next
  case (Cons c cs)
  let ?h = "(Shutdown_client c h)\<lparr>down := Ranging\<rparr>"
  have same: "(Shutdown_client c (h\<lparr>down := Picked c\<rparr>))\<lparr>down := Ranging\<rparr> = ?h"
    by (simp add: Shutdown_client_def close_send_def client_of_def upd_client_def)
  have 1: "hub_step h (h\<lparr>down := Picked c\<rparr>)" using Cons.prems by (intro hub_step.shutdown_pick) auto
  have 2: "hub_step (h\<lparr>down := Picked c\<rparr>) ?h"
    using hub_step.shutdown_close [of "h\<lparr>down := Picked c\<rparr>" c] by (simp add: same)
  have "set cs = clients ?h" using Cons.prems by (auto simp: Shutdown_client_def)
  then have "hub_step\<^sup>*\<^sup>* ?h ((Shutdown cs ?h)\<lparr>down := ShutDone\<rparr>)" using Cons by simp
  moreover have "Shutdown_client c' (h'\<lparr>down := d\<rparr>) = (Shutdown_client c' h')\<lparr>down := d\<rparr>" for c' h' d
    by (simp add: Shutdown_client_def close_send_def client_of_def upd_client_def)
  then have "Shutdown cs (h'\<lparr>down := d\<rparr>) = (Shutdown cs h')\<lparr>down := d\<rparr>" for h' d
    by (induction cs arbitrary: h') (simp_all add: Shutdown_def)
  then have "(Shutdown cs ?h)\<lparr>down := ShutDone\<rparr> = (Shutdown (c # cs) h)\<lparr>down := ShutDone\<rparr>"
    by (simp add: Shutdown_def)
  ultimately show ?case using 1 2 by (metis converse_rtranclp_into_rtranclp)
qed

end
