(* ===== verification/Dashboard.thy ===== *)
theory Dashboard
  imports Api Hub
begin

text \<open>
  The dashboard (\<^verbatim>\<open>src/internal/dashboard/templates.go\<close>, \<^verbatim>\<open>handler.go\<close>, \<^verbatim>\<open>publisher.go\<close>, and the
  older page in \<^verbatim>\<open>src/internal/api/dashboard.go\<close>): what the fragments are computed from, the
  handlers that serve them, and the subscriber that broadcasts them to the hub.  The HTML files
  are not modelled: executing a template is a parameter, from the name of the template and the
  data it is given to the text it wrote and the error it ended with.
\<close>

section \<open>The data of the templates\<close>

record JobListData =
  jl_Jobs :: "Job list"
  jl_Page :: int
  jl_TotalPages :: int
  jl_Total :: int
  jl_Filter :: ListFilter
  jl_APIKey :: string

record DLQData =
  dlq_Jobs :: "Job list"
  dlq_APIKey :: string

record JobDetailData =
  jd_Job :: Job
  jd_APIKey :: string

record ChartData =
  ch_Labels :: "string list"
  ch_Completed :: "int list"
  ch_Failed :: "int list"
  ch_Dead :: "int list"

record DashboardData =
  dd_Stats :: "(string \<times> int) list"
  dd_APIKey :: string
  dd_JobListData :: JobListData
  dd_DLQData :: DLQData
  dd_ChartJSON :: string

datatype template_data =
    TStats "(string \<times> int) list"
  | TWSStatus bool
  | TJobList JobListData
  | TJobDetail JobDetailData
  | TDLQ DLQData
  | TPage DashboardData
  | TOldPage "Job list" "(string \<times> int) list" string

text \<open>\<open>tr_zone\<close> is the offset of \<^verbatim>\<open>time.Local\<close> from UTC, in seconds, at a time.\<close>

record 'd TemplateRenderer =
  tr_tmpl :: "string \<Rightarrow> template_data \<Rightarrow> string \<times> string option"
  tr_store :: "'d PostgresStorage"
  tr_apiKey :: string
  tr_zone :: "time \<Rightarrow> int"

definition NewTemplateRenderer ::
  "(string \<Rightarrow> template_data \<Rightarrow> string \<times> string option) \<Rightarrow> (time \<Rightarrow> int) \<Rightarrow> 'd PostgresStorage \<Rightarrow> string \<Rightarrow> 'd TemplateRenderer" where
  "NewTemplateRenderer tmpl zone st apiKey = \<lparr>tr_tmpl = tmpl, tr_store = st, tr_apiKey = apiKey, tr_zone = zone\<rparr>"

section \<open>The fragments\<close>

text \<open>A template executed into a buffer: on an error the buffer is thrown away.\<close>

definition execute :: "'d TemplateRenderer \<Rightarrow> string \<Rightarrow> string \<Rightarrow> template_data \<Rightarrow> string result" where
  "execute t name what data =
     (case tr_tmpl t name data of (html, None) \<Rightarrow> Inr html | (_, Some e) \<Rightarrow> Inl (what @ e))"

definition RenderStatsFragment :: "'d TemplateRenderer \<Rightarrow> (('d, 'r) world, string result) state" where
  "RenderStatsFragment t =
     do {
       x \<leftarrow> GetQueueStats (tr_store t);
       ret (case x of
              Inl e \<Rightarrow> Inl (''get queue stats: '' @ e)
            | Inr stats \<Rightarrow> execute t ''stats'' ''render stats: '' (TStats (total_stats stats)))
     }"

definition RenderWSStatus :: "'d TemplateRenderer \<Rightarrow> bool \<Rightarrow> string result" where
  "RenderWSStatus t up_now = execute t ''ws_status'' ''render ws status: '' (TWSStatus up_now)"

definition RenderJobListFragment :: "'d TemplateRenderer \<Rightarrow> ListFilter \<Rightarrow> string \<Rightarrow> (('d, 'r) world, string result) state" where
  "RenderJobListFragment t f apiKey =
     do {
       x \<leftarrow> ListJobs (tr_store t) f;
       ret (case x of
              Inl e \<Rightarrow> Inl (''list jobs: '' @ e)
            | Inr (jobs, tot) \<Rightarrow>
                (let f1 = (if Limit f < 1 then f\<lparr>Limit := 20\<rparr> else f);
                     n = total_pages tot (Limit f1);
                     totalPages = (if n < 1 then 1 else n)
                 in execute t ''job_list'' ''render job list: ''
                      (TJobList \<lparr>jl_Jobs = jobs, jl_Page = Page f1, jl_TotalPages = totalPages, jl_Total = tot,
                                 jl_Filter = f1, jl_APIKey = apiKey\<rparr>)))
     }"

definition RenderJobDetailFragment :: "'d TemplateRenderer \<Rightarrow> uuid \<Rightarrow> (('d, 'r) world, string result) state" where
  "RenderJobDetailFragment t jid =
     do {
       x \<leftarrow> GetJob (tr_store t) jid;
       ret (case x of
              Inl e \<Rightarrow> Inl (''get job: '' @ e)
            | Inr job \<Rightarrow>
                execute t ''job_detail'' ''render job detail: '' (TJobDetail \<lparr>jd_Job = job, jd_APIKey = tr_apiKey t\<rparr>))
     }"

definition dead_filter :: ListFilter where
  "dead_filter = \<lparr>f_Status = ''dead'', f_Queue = '''', f_Type = '''', Page = 1, Limit = 100\<rparr>"

definition RenderDLQFragment :: "'d TemplateRenderer \<Rightarrow> string \<Rightarrow> (('d, 'r) world, string result) state" where
  "RenderDLQFragment t apiKey =
     do {
       x \<leftarrow> ListJobs (tr_store t) dead_filter;
       ret (case x of
              Inl e \<Rightarrow> Inl (''list dead jobs: '' @ e)
            | Inr (jobs, _) \<Rightarrow> execute t ''dlq'' ''render dlq: '' (TDLQ \<lparr>dlq_Jobs = jobs, dlq_APIKey = apiKey\<rparr>))
     }"

section \<open>The chart\<close>

text \<open>\<^verbatim>\<open>Bucket.Format("15:04")\<close>, in local time.\<close>

definition two_digits :: "nat \<Rightarrow> string" where
  "two_digits n = [digit (n div 10), digit (n mod 10)]"

definition Format_hm :: "(time \<Rightarrow> int) \<Rightarrow> time \<Rightarrow> string" where
  "Format_hm zone t =
     (let s = nat ((Unix t + zone t) mod 86400)
      in two_digits (s div 3600) @ '':'' @ two_digits (s div 60 mod 60))"

text \<open>A bucket: completed, failed, dead.\<close>

type_synonym bucketData = "int \<times> int \<times> int"

fun bucket_add :: "string \<Rightarrow> int \<Rightarrow> bucketData \<Rightarrow> bucketData" where
  "bucket_add st n (c, f, d) =
     (if st = ''completed'' then (wrap64 (c + n), f, d)
      else if st = ''failed'' then (c, wrap64 (f + n), d)
      else if st = ''dead'' then (c, f, wrap64 (d + n))
      else (c, f, d))"

text \<open>The map of the buckets and the labels in the order of their first occurrence.\<close>

definition bucket_step ::
  "(time \<Rightarrow> int) \<Rightarrow> TimeSeriesStat \<Rightarrow> (string \<times> bucketData) list \<times> string list \<Rightarrow> (string \<times> bucketData) list \<times> string list" where
  "bucket_step zone s st =
     (case st of (m, labels) \<Rightarrow>
        let label = Format_hm zone (ts_Bucket s);
            (m1, labels1) = (if map_of m label = None then (AList.update label (0, 0, 0) m, labels @ [label]) else (m, labels))
        in (AList.update label (bucket_add (ts_Status s) (ts_Count s) (map_get (0, 0, 0) label m1)) m1, labels1))"

definition chart_of :: "(time \<Rightarrow> int) \<Rightarrow> TimeSeriesStat list \<Rightarrow> ChartData" where
  "chart_of zone stats =
     (case fold (bucket_step zone) stats ([], []) of (m, labels) \<Rightarrow>
        \<lparr>ch_Labels = labels,
         ch_Completed = map (\<lambda>l. fst (map_get (0, 0, 0) l m)) labels,
         ch_Failed = map (\<lambda>l. fst (snd (map_get (0, 0, 0) l m))) labels,
         ch_Dead = map (\<lambda>l. snd (snd (map_get (0, 0, 0) l m))) labels\<rparr>)"

definition buildChartData :: "'d TemplateRenderer \<Rightarrow> (('d, 'r) world, ChartData result) state" where
  "buildChartData t =
     do {
       x \<leftarrow> GetTimeSeries (tr_store t) (3600 * time_Second) ''minute'';
       ret (case x of
              Inl e \<Rightarrow> Inl (''get time series: '' @ e)
            | Inr stats \<Rightarrow> Inr (chart_of (tr_zone t) stats))
     }"

text \<open>The JSON text of a chart; its labels are digits and a colon, which need no escapes.\<close>

fun commas :: "string list \<Rightarrow> string" where
  "commas [] = ''''"
| "commas [x] = x"
| "commas (x # xs) = x @ '','' @ commas xs"

definition json_array :: "string list \<Rightarrow> string" where
  "json_array xs = ''['' @ commas xs @ '']''"

definition quoted :: "string \<Rightarrow> string" where
  "quoted s = CHR 0x22 # s @ [CHR 0x22]"

definition chart_json :: "ChartData \<Rightarrow> string" where
  "chart_json c =
     ''{'' @ quoted ''labels'' @ '':'' @ json_array (map quoted (ch_Labels c)) @ '','' @
     quoted ''completed'' @ '':'' @ json_array (map fmt_d (ch_Completed c)) @ '','' @
     quoted ''failed'' @ '':'' @ json_array (map fmt_d (ch_Failed c)) @ '','' @
     quoted ''dead'' @ '':'' @ json_array (map fmt_d (ch_Dead c)) @ ''}''"

definition chart_div :: "string \<Rightarrow> string" where
  "chart_div json =
     ''<div id='' @ quoted ''chart-data'' @ '' hx-swap-oob='' @ quoted ''true'' @ '' style='' @ quoted ''display:none'' @
     '' data-chart='' @ [CHR 0x27] @ json @ [CHR 0x27] @ ''></div>''"

definition RenderChartDataFragment :: "'d TemplateRenderer \<Rightarrow> (('d, 'r) world, string result) state" where
  "RenderChartDataFragment t =
     do {
       x \<leftarrow> buildChartData t;
       ret (case x of Inl e \<Rightarrow> Inl e | Inr c \<Rightarrow> Inr (chart_div (chart_json c)))
     }"

section \<open>Broadcasting\<close>

definition or_nothing :: "string result \<Rightarrow> string" where
  "or_nothing r = (case r of Inl _ \<Rightarrow> '''' | Inr html \<Rightarrow> html)"

definition first_page :: ListFilter where
  "first_page = \<lparr>f_Status = '''', f_Queue = '''', f_Type = '''', Page = 1, Limit = 50\<rparr>"

text \<open>What \<^verbatim>\<open>broadcastAllFragments\<close> sends to the hub, \<open>None\<close> where it sends nothing.\<close>

definition broadcastAllFragments :: "'d TemplateRenderer \<Rightarrow> (('d, 'r) world, msg option) state" where
  "broadcastAllFragments t =
     do {
       a \<leftarrow> RenderStatsFragment t;
       b \<leftarrow> RenderJobListFragment t first_page (tr_apiKey t);
       c \<leftarrow> RenderDLQFragment t (tr_apiKey t);
       d \<leftarrow> RenderChartDataFragment t;
       let allHTML = or_nothing a @ or_nothing b @ or_nothing c @ or_nothing d;
       ret (if allHTML = '''' then None else Some allHTML)
     }"

text \<open>
  \<^verbatim>\<open>json.Unmarshal\<close> into a \<^verbatim>\<open>JobEvent\<close>: whether it succeeds.  The text fields take strings, the
  timestamp a time; null and unknown fields are passed over.
\<close>

definition event_field_ok :: "string \<times> json \<Rightarrow> bool" where
  "event_field_ok kv =
     (case kv of (k, v) \<Rightarrow>
        if fold_name k \<in> {''TYPE'', ''JOB_ID'', ''QUEUE'', ''STATUS''} then
          (case v of JNull \<Rightarrow> True | JStr _ \<Rightarrow> True | JTime _ \<Rightarrow> True | _ \<Rightarrow> False)
        else if fold_name k = ''TIMESTAMP'' then
          (case v of JNull \<Rightarrow> True | JTime _ \<Rightarrow> True | JStr s \<Rightarrow> parse_RFC3339 s \<noteq> None | _ \<Rightarrow> False)
        else True)"

definition unmarshal_event_ok :: "json option \<Rightarrow> bool" where
  "unmarshal_event_ok b =
     (case b of Some JNull \<Rightarrow> True | Some (JObj fs) \<Rightarrow> list_all event_field_ok fs | _ \<Rightarrow> False)"

text \<open>A turn of the subscriber: a message of the channel (\<open>Some\<close> its payload) or a tick.\<close>

definition subscriber_turn :: "'d TemplateRenderer \<Rightarrow> json option option \<Rightarrow> (('d, 'r) world, msg option) state" where
  "subscriber_turn t input =
     (case input of
        Some payload \<Rightarrow> if unmarshal_event_ok payload then broadcastAllFragments t else ret None
      | None \<Rightarrow> broadcastAllFragments t)"

section \<open>The handlers\<close>

text \<open>An HTML answer: its body is its text.  \<^verbatim>\<open>http.Error\<close> appends a newline.\<close>

definition html_response :: "int \<Rightarrow> string \<Rightarrow> response" where
  "html_response c s = \<lparr>code = c, body = Some (JStr s)\<rparr>"

definition http_Error :: "string \<Rightarrow> int \<Rightarrow> response" where
  "http_Error s c = html_response c (s @ [CHR 0x0A])"

text \<open>The data of the page; where a query failed, its zero value stands.\<close>

definition page_data ::
  "string \<Rightarrow> (Job list \<times> int) result \<Rightarrow> (Job list \<times> int) result \<Rightarrow> QueueStat list result \<Rightarrow> ChartData result \<Rightarrow> DashboardData" where
  "page_data apiKey x y q c =
     (let (jobs, tot) = (case x of Inl _ \<Rightarrow> ([], 0) | Inr p \<Rightarrow> p);
          deadJobs = (case y of Inl _ \<Rightarrow> [] | Inr (js, _) \<Rightarrow> js);
          stats = total_stats (case q of Inl _ \<Rightarrow> [] | Inr ss \<Rightarrow> ss);
          totalPages = (if tot > 50 then (let n = wrap64 (tot + 49) in sgn n * (\<bar>n\<bar> div 50)) else 1);
          chartJSON = (case c of Inl _ \<Rightarrow> chart_json \<lparr>ch_Labels = [], ch_Completed = [], ch_Failed = [], ch_Dead = []\<rparr>
                               | Inr cd \<Rightarrow> chart_json cd)
      in \<lparr>dd_Stats = stats, dd_APIKey = apiKey,
          dd_JobListData = \<lparr>jl_Jobs = jobs, jl_Page = 1, jl_TotalPages = totalPages, jl_Total = tot,
                            jl_Filter = first_page, jl_APIKey = apiKey\<rparr>,
          dd_DLQData = \<lparr>dlq_Jobs = deadJobs, dlq_APIKey = apiKey\<rparr>, dd_ChartJSON = chartJSON\<rparr>)"

text \<open>The page is written to the connection as it is rendered: an error comes too late for the status.\<close>

definition page_response :: "string \<times> string option \<Rightarrow> response" where
  "page_response res =
     (case res of
        (html, None) \<Rightarrow> html_response 200 html
      | (html, Some _) \<Rightarrow>
          if html = '''' then http_Error ''Internal Server Error'' 500
          else html_response 200 (html @ ''Internal Server Error'' @ [CHR 0x0A]))"

definition DashboardPageHandler :: "'d TemplateRenderer \<Rightarrow> 'd PostgresStorage \<Rightarrow> string \<Rightarrow> ('d, 'r) http_handler" where
  "DashboardPageHandler t st apiKey r =
     do {
       x \<leftarrow> ListJobs st first_page;
       y \<leftarrow> ListJobs st dead_filter;
       q \<leftarrow> GetQueueStats st;
       c \<leftarrow> buildChartData t;
       ret (page_response (tr_tmpl t ''layout.html'' (TPage (page_data apiKey x y q c))))
     }"

definition list_query :: "request \<Rightarrow> ListFilter" where
  "list_query r =
     \<lparr>f_Status = URLQuery r ''filter-status'', f_Queue = URLQuery r ''filter-queue'', f_Type = URLQuery r ''filter-type'',
      Page = (let p = URLQuery r ''page''
              in if p = '''' then 1 else (case Atoi p of (n, None) \<Rightarrow> if n > 0 then n else 1 | (_, Some _) \<Rightarrow> 1)),
      Limit = 50\<rparr>"

definition JobListHandler :: "'d TemplateRenderer \<Rightarrow> string \<Rightarrow> ('d, 'r) http_handler" where
  "JobListHandler t apiKey r =
     do {
       x \<leftarrow> RenderJobListFragment t (list_query r) apiKey;
       ret (case x of Inl _ \<Rightarrow> http_Error ''Internal Server Error'' 500 | Inr html \<Rightarrow> html_response 200 html)
     }"

definition JobDetailHandler :: "lib \<Rightarrow> 'd TemplateRenderer \<Rightarrow> ('d, 'r) http_handler" where
  "JobDetailHandler L t r =
     (case uuid_Parse L (URLParam r ''id'') of
        None \<Rightarrow> ret (http_Error ''Invalid job ID'' 400)
      | Some jid \<Rightarrow>
          do {
            x \<leftarrow> RenderJobDetailFragment t jid;
            ret (case x of Inl _ \<Rightarrow> http_Error ''Job not found'' 404 | Inr html \<Rightarrow> html_response 200 html)
          })"

definition DLQHandler :: "'d TemplateRenderer \<Rightarrow> string \<Rightarrow> ('d, 'r) http_handler" where
  "DLQHandler t apiKey r =
     do {
       x \<leftarrow> RenderDLQFragment t apiKey;
       ret (case x of Inl _ \<Rightarrow> http_Error ''Internal Server Error'' 500 | Inr html \<Rightarrow> html_response 200 html)
     }"

text \<open>The older page, which no route serves.\<close>

definition DashboardHandler ::
  "(template_data \<Rightarrow> string \<times> string option) \<Rightarrow> 'd PostgresStorage \<Rightarrow> string \<Rightarrow> ('d, 'r) http_handler" where
  "DashboardHandler tmpl st apiKey r =
     do {
       x \<leftarrow> ListJobs st first_page;
       q \<leftarrow> GetQueueStats st;
       let jobs = (case x of Inl _ \<Rightarrow> [] | Inr (js, _) \<Rightarrow> js);
       let stats = total_stats (case q of Inl _ \<Rightarrow> [] | Inr ss \<Rightarrow> ss);
       ret (html_response 200 (fst (tmpl (TOldPage jobs stats apiKey))))
     }"

text \<open>
  The handlers of the router that belong to this package; \<open>rest\<close> are those of the packages the
  router only calls: the metrics page, Swagger, and the upgrade of \<^verbatim>\<open>/ws\<close>.
\<close>

fun dashboard_endpoint ::
  "lib \<Rightarrow> 'd TemplateRenderer \<Rightarrow> 'd PostgresStorage \<Rightarrow> string \<Rightarrow> (endpoint \<Rightarrow> ('d, 'r) http_handler) \<Rightarrow> endpoint \<Rightarrow> ('d, 'r) http_handler" where
  "dashboard_endpoint L t st apiKey rest EDashboard = DashboardPageHandler t st apiKey"
| "dashboard_endpoint L t st apiKey rest EDashboardJobs = JobListHandler t apiKey"
| "dashboard_endpoint L t st apiKey rest EDashboardJob = JobDetailHandler L t"
| "dashboard_endpoint L t st apiKey rest EDashboardDLQ = DLQHandler t apiKey"
| "dashboard_endpoint L t st apiKey rest e = rest e"

section \<open>The chart against its specification\<close>

text \<open>The sum of the counts of a label and a status.\<close>

definition label_sum :: "(time \<Rightarrow> int) \<Rightarrow> TimeSeriesStat list \<Rightarrow> string \<Rightarrow> string \<Rightarrow> int" where
  "label_sum zone stats l st =
     sum_list (map ts_Count (filter (\<lambda>s. Format_hm zone (ts_Bucket s) = l \<and> ts_Status s = st) stats))"

definition first_occs :: "'a list \<Rightarrow> 'a list" where
  "first_occs xs = fold (\<lambda>x ys. if x \<in> set ys then ys else ys @ [x]) xs []"

definition chart_spec :: "(time \<Rightarrow> int) \<Rightarrow> TimeSeriesStat list \<Rightarrow> ChartData" where
  "chart_spec zone stats =
     (let ls = first_occs (map (\<lambda>s. Format_hm zone (ts_Bucket s)) stats)
      in \<lparr>ch_Labels = ls, ch_Completed = map (\<lambda>l. label_sum zone stats l ''completed'') ls,
          ch_Failed = map (\<lambda>l. label_sum zone stats l ''failed'') ls, ch_Dead = map (\<lambda>l. label_sum zone stats l ''dead'') ls\<rparr>)"

lemma first_occs_snoc: "first_occs (xs @ [x]) = (if x \<in> set (first_occs xs) then first_occs xs else first_occs xs @ [x])"
  by (simp add: first_occs_def)

lemma set_first_occs [simp]: "set (first_occs xs) = set xs"
  by (induction xs rule: rev_induct) (auto simp: first_occs_snoc, auto simp: first_occs_def)

lemma wrap64_in [simp]: "in_int64 (wrap64 a)"
  by (rule wrap64_range)

lemma bucket_fold:
  "\<exists>m. fold (bucket_step zone) stats ([], []) = (m, first_occs (map (\<lambda>s. Format_hm zone (ts_Bucket s)) stats)) \<and>
       (\<forall>l. (map_of m l = None) = (l \<notin> set (map (\<lambda>s. Format_hm zone (ts_Bucket s)) stats))) \<and>
       (\<forall>l. map_get (0, 0, 0) l m = (wrap64 (label_sum zone stats l ''completed''), wrap64 (label_sum zone stats l ''failed''),
                                     wrap64 (label_sum zone stats l ''dead'')))"
proof (induction stats rule: rev_induct)
  case Nil
  show ?case by (simp add: first_occs_def map_get_def label_sum_def wrap64_def)
next
  case (snoc s stats)
  let ?l = "Format_hm zone (ts_Bucket s)"
  obtain m where m: "fold (bucket_step zone) stats ([], []) = (m, first_occs (map (\<lambda>s. Format_hm zone (ts_Bucket s)) stats))"
    "\<And>l. (map_of m l = None) = (l \<notin> set (map (\<lambda>s. Format_hm zone (ts_Bucket s)) stats))"
    "\<And>l. map_get (0, 0, 0) l m = (wrap64 (label_sum zone stats l ''completed''), wrap64 (label_sum zone stats l ''failed''),
                                  wrap64 (label_sum zone stats l ''dead''))"
    using snoc by blast
  have zero: "map_get (0, 0, 0) l m = (0, 0, 0)" if "map_of m l = None" for l
    using that by (simp add: map_get_def)
  define m' where "m' = (if map_of m ?l = None then AList.update ?l (0, 0, 0) m else m)"
  have get: "map_get (0, 0, 0) l m' = map_get (0, 0, 0) l m" for l
    using zero by (auto simp: m'_def)
  have dom: "map_of m' l = None \<longleftrightarrow> map_of m l = None \<and> l \<noteq> ?l" for l
    by (auto simp: m'_def update_conv')
  let ?m = "AList.update ?l (bucket_add (ts_Status s) (ts_Count s) (map_get (0, 0, 0) ?l m')) m'"
  have f: "fold (bucket_step zone) (stats @ [s]) ([], []) =
      (?m, first_occs (map (\<lambda>s. Format_hm zone (ts_Bucket s)) (stats @ [s])))"
    using m(2) [of ?l] by (auto simp: m(1) bucket_step_def Let_def m'_def first_occs_snoc)
  have sum: "label_sum zone (stats @ [s]) l st =
      label_sum zone stats l st + (if l = ?l \<and> ts_Status s = st then ts_Count s else 0)" for l st
    by (auto simp: label_sum_def)
  have "map_get (0, 0, 0) l ?m = (wrap64 (label_sum zone (stats @ [s]) l ''completed''), wrap64 (label_sum zone (stats @ [s]) l ''failed''),
      wrap64 (label_sum zone (stats @ [s]) l ''dead''))" for l
    by (simp add: get m(3) sum wrap64_add)
  moreover have "(map_of ?m l = None) = (l \<notin> set (map (\<lambda>s. Format_hm zone (ts_Bucket s)) (stats @ [s])))" for l
    using dom [of l] m(2) [of l] by (auto simp: update_conv')
  ultimately show ?case using f by blast
qed

lemma chart_of_spec:
  assumes "\<And>l st. in_int64 (label_sum zone stats l st)"
  shows "chart_of zone stats = chart_spec zone stats"
proof -
  obtain m where "fold (bucket_step zone) stats ([], []) = (m, first_occs (map (\<lambda>s. Format_hm zone (ts_Bucket s)) stats))"
    "\<And>l. map_get (0, 0, 0) l m = (wrap64 (label_sum zone stats l ''completed''), wrap64 (label_sum zone stats l ''failed''),
                                  wrap64 (label_sum zone stats l ''dead''))"
    using bucket_fold by blast
  with assms show ?thesis by (simp add: chart_of_def chart_spec_def Let_def wrap64_id)
qed

end
