(* ===== verification/Application.thy ===== *)
theory Application
  imports ElectionRun WorkerPool Config Dashboard
begin

text \<open>
  The program as a whole (\<^verbatim>\<open>src/cmd/goqueue/main.go\<close>): the connections it opens, the demonstration
  handlers it registers, the pool, scheduler, elector and hub it builds from the configuration,
  the two collectors of metrics, and the shutdown.  What it takes from packages outside the
  repository to connect and to migrate is a parameter (\<open>drivers\<close>).
\<close>

section \<open>Opening the connections\<close>

datatype mig_result = MigOk | MigNoChange | MigErr string

text \<open>
  \<open>iofs_New\<close> and \<open>migrate_New\<close> are the two constructors that prepare the migrations, \<open>migrate_Up\<close>
  runs them; \<open>rd_New\<close> and \<open>rd_Ping\<close> are the client of Redis and its ping, and the last two
  close the connections.
\<close>

record ('d, 'r) drivers =
  pgxpool_New :: "string \<Rightarrow> 'd \<Rightarrow> 'd pgxpool result \<times> 'd"
  iofs_New :: "string option"
  migrate_New :: "string \<Rightarrow> 'd \<Rightarrow> string option \<times> 'd"
  migrate_Up :: "'d \<Rightarrow> mig_result \<times> 'd"
  rd_New :: "string \<Rightarrow> 'r redis_client"
  rd_Ping :: "'r redis_client \<Rightarrow> 'r \<Rightarrow> string option \<times> 'r"
  pgxpool_Close :: "'d pgxpool \<Rightarrow> 'd \<Rightarrow> 'd"
  rd_Close :: "'r redis_client \<Rightarrow> 'r \<Rightarrow> string option \<times> 'r"

definition NewPostgresStorage :: "('d, 'r) drivers \<Rightarrow> string \<Rightarrow> (('d, 'r) world, 'd PostgresStorage result) state" where
  "NewPostgresStorage D url =
     do {
       r \<leftarrow> db_call (pgxpool_New D url);
       case r of
         Inl e \<Rightarrow> ret (Inl (''connect to postgres: '' @ e))
       | Inr p \<Rightarrow>
           do {
             err \<leftarrow> db_call (Ping p);
             ret (case err of Some e \<Rightarrow> Inl (''ping postgres: '' @ e) | None \<Rightarrow> Inr \<lparr>pool = p, connStr = url\<rparr>)
           }
     }"

definition RunMigrations :: "('d, 'r) drivers \<Rightarrow> 'd PostgresStorage \<Rightarrow> (('d, 'r) world, string option) state" where
  "RunMigrations D s =
     (case iofs_New D of
        Some e \<Rightarrow> ret (Some (''create migration source: '' @ e))
      | None \<Rightarrow>
          do {
            m \<leftarrow> db_call (migrate_New D (connStr s));
            case m of
              Some e \<Rightarrow> ret (Some (''create migrate instance: '' @ e))
            | None \<Rightarrow>
                do {
                  u \<leftarrow> db_call (migrate_Up D);
                  ret (case u of MigErr e \<Rightarrow> Some (''run migrations: '' @ e) | _ \<Rightarrow> None)
                }
          })"

definition NewRedisQueue :: "('d, 'r) drivers \<Rightarrow> string \<Rightarrow> (('d, 'r) world, 'r RedisQueue result) state" where
  "NewRedisQueue D addr =
     (let c = rd_New D addr
      in do {
        err \<leftarrow> rds_call (rd_Ping D c);
        ret (case err of Some e \<Rightarrow> Inl (''connect to redis: '' @ e) | None \<Rightarrow> Inr \<lparr>client = c\<rparr>)
      })"

text \<open>The accessors, and the closing of the connections; the error of the Redis client is ignored.\<close>

definition PostgresStorage_Pool :: "'d PostgresStorage \<Rightarrow> 'd pgxpool" where
  "PostgresStorage_Pool s = pool s"

definition PostgresStorage_Close :: "('d, 'r) drivers \<Rightarrow> 'd PostgresStorage \<Rightarrow> (('d, 'r) world, unit) state" where
  "PostgresStorage_Close D s = db_call (\<lambda>d. ((), pgxpool_Close D (pool s) d))"

definition RedisQueue_Client :: "'r RedisQueue \<Rightarrow> 'r redis_client" where
  "RedisQueue_Client q = client q"

definition RedisQueue_Close :: "('d, 'r) drivers \<Rightarrow> 'r RedisQueue \<Rightarrow> (('d, 'r) world, unit) state" where
  "RedisQueue_Close D q = do { _ \<leftarrow> rds_call (rd_Close D (client q)); ret () }"

section \<open>What \<^verbatim>\<open>main\<close> registers\<close>

datatype log_level = LevelDebug | LevelInfo | LevelWarn | LevelError

definition log_level_of :: "string \<Rightarrow> log_level" where
  "log_level_of s =
     (if s = ''debug'' then LevelDebug else if s = ''warn'' then LevelWarn else if s = ''error'' then LevelError else LevelInfo)"

text \<open>The handlers sleep; \<open>roll\<close> is the draw of \<^verbatim>\<open>rand.Intn(10)\<close>.\<close>

definition demoHandler :: "('d, 'r) Handler" where
  "demoHandler deadline payload = ret None"

definition flakyHandler :: "(('d, 'r) world \<Rightarrow> nat) \<Rightarrow> ('d, 'r) Handler" where
  "flakyHandler roll deadline payload =
     do { n \<leftarrow> gets roll; ret (if n = 0 then Some ''random failure for testing'' else None) }"

definition main_registry :: "(('d, 'r) world \<Rightarrow> nat) \<Rightarrow> ('d, 'r) Registry" where
  "main_registry roll =
     Register (Register (Register (Register NewRegistry ''process'' demoHandler) ''send_email'' (flakyHandler roll))
       ''push_notify'' demoHandler) ''generate_report'' (flakyHandler roll)"

definition main_queues :: "string list" where
  "main_queues = [''default'', ''email'', ''notification'', ''report'']"

section \<open>Starting\<close>

record ('c, 'd, 'r) app =
  app_cfg :: Config
  app_store :: "'d PostgresStorage"
  app_queue :: "'r RedisQueue"
  app_hub :: Hub
  app_renderer :: "'d TemplateRenderer"
  app_pool :: "('d, 'r) pool_run"
  app_sched :: "('d, 'r) Scheduler"
  app_elector :: "('c, sched_ctl, 'd, 'r) LeaderElector"

definition main_app ::
  "(string \<Rightarrow> template_data \<Rightarrow> string \<times> string option) \<Rightarrow> (time \<Rightarrow> int) \<Rightarrow> (('d, 'r) world \<Rightarrow> nat) \<Rightarrow> Config \<Rightarrow> 'd PostgresStorage \<Rightarrow> 'r RedisQueue \<Rightarrow> ('c, 'd, 'r) app" where
  "main_app tmpl zone roll conf st rq =
     \<lparr>app_cfg = conf, app_store = st, app_queue = rq, app_hub = NewHub,
      app_renderer = NewTemplateRenderer tmpl zone st (APIKey conf),
      app_pool = Start main_queues
        (pool_new (NewPool st rq (main_registry roll) (WorkerCount conf) (JobTimeout conf) (RedisQueue_Client rq))),
      app_sched = Scheduler_New st rq (JobTimeout conf) (RedisQueue_Client rq),
      app_elector = main_elector (PostgresURL conf) (LeaderPollInterval conf)\<rparr>"

text \<open>
  The router (\<^verbatim>\<open>NewRouter\<close>) over the parts of the program; \<open>rest\<close> serves what the router only
  mounts: the metrics page, Swagger and the upgrade of \<^verbatim>\<open>/ws\<close>.
\<close>

definition NewRouter ::
  "lib \<Rightarrow> (endpoint \<Rightarrow> ('d, 'r) http_handler) \<Rightarrow> ('c, 'd, 'r) app \<Rightarrow>
     http_method option \<times> string \<times> endpoint \<times> bool \<Rightarrow> ('d, 'r) http_handler" where
  "NewRouter L rest a =
     serve_route L (NewHandler (app_store a) (app_queue a)) (APIKey (app_cfg a)) (IsLeader (app_elector a))
       (dashboard_endpoint L (app_renderer a) (app_store a) (APIKey (app_cfg a)) rest)"

text \<open>From the environment to the running program; \<open>Inl\<close> is an exit with status 1.\<close>

definition main_start ::
  "('d, 'r) drivers \<Rightarrow> (string \<Rightarrow> template_data \<Rightarrow> string \<times> string option) \<Rightarrow> (time \<Rightarrow> int) \<Rightarrow> (('d, 'r) world \<Rightarrow> nat) \<Rightarrow> environ \<Rightarrow> (('d, 'r) world, ('c, 'd, 'r) app result) state" where
  "main_start D tmpl zone roll env =
     (case Load env of
        Inl e \<Rightarrow> ret (Inl (''failed to load config: '' @ e))
      | Inr conf \<Rightarrow>
          do {
            s \<leftarrow> NewPostgresStorage D (PostgresURL conf);
            case s of
              Inl e \<Rightarrow> ret (Inl (''failed to connect to postgres: '' @ e))
            | Inr st \<Rightarrow>
                do {
                  m \<leftarrow> RunMigrations D st;
                  case m of
                    Some e \<Rightarrow> ret (Inl (''failed to run migrations: '' @ e))
                  | None \<Rightarrow>
                      do {
                        r \<leftarrow> NewRedisQueue D (RedisURL conf);
                        ret (case r of
                               Inl e \<Rightarrow> Inl (''failed to connect to redis: '' @ e)
                             | Inr rq \<Rightarrow> Inr (main_app tmpl zone roll conf st rq))
                      }
                }
          })"

section \<open>The collectors of metrics\<close>

record pool_stat =
  AcquiredConns :: int
  IdleConns :: int
  MaxConns :: int
  TotalConns :: int

text \<open>\<open>stat\<close> is \<^verbatim>\<open>Stat()\<close> of the pool at that time.\<close>

definition collect_pool :: "('d pgxpool \<Rightarrow> pool_stat) \<Rightarrow> 'd PostgresStorage \<Rightarrow> (('d, 'r) world, unit) state" where
  "collect_pool stat st =
     (let s = stat (PostgresStorage_Pool st)
      in do {
       metric_do DBPoolAcquired [] (SetTo (f64_int (AcquiredConns s)));
       metric_do DBPoolIdle [] (SetTo (f64_int (IdleConns s)));
       metric_do DBPoolMax [] (SetTo (f64_int (MaxConns s)));
       metric_do DBPoolTotal [] (SetTo (f64_int (TotalConns s)))
     })"

definition collect_depth :: "'r RedisQueue \<Rightarrow> string list \<Rightarrow> (('d, 'r) world, unit) state" where
  "collect_depth rq qs =
     for_each qs (\<lambda>q. do {
       n \<leftarrow> QueueLength rq q;
       case n of
         Inl _ \<Rightarrow> ret ()
       | Inr k \<Rightarrow> metric_do QueueDepth [q] (SetTo (f64_int k))
     })"

section \<open>Shutting down\<close>

text \<open>
  After a signal: the context is cancelled, the hub shut down (\<open>order\<close> is the order in which
  \<^verbatim>\<open>range\<close> visits its clients), the elector stopped, the HTTP server shut down, and the pool
  stopped, which cancels its context.
\<close>

definition main_shutdown ::
  "('c, 'd) pgx \<Rightarrow> cid list \<Rightarrow> ('c, 'd, 'r) app \<Rightarrow> (('d, 'r) world, ('c, 'd, 'r) app) state" where
  "main_shutdown X order a =
     do {
       modify (\<lambda>w. w\<lparr>cancelled := True\<rparr>);
       e \<leftarrow> elector_Stop X (app_elector a);
       modify (Stop_cancel (app_pool a));
       ret (a\<lparr>app_hub := Shutdown order ((app_hub a)\<lparr>hub_done := True\<rparr>), app_elector := e\<rparr>)
     }"

text \<open>
  The end of \<^verbatim>\<open>main\<close>, when \<^verbatim>\<open>pool.Stop\<close> has waited for the workers (\<open>wg\<close>): the deferred calls
  run in reverse order, Redis before PostgreSQL, and the context is cancelled once more.
\<close>

definition main_exit :: "('d, 'r) drivers \<Rightarrow> ('c, 'd, 'r) app \<Rightarrow> (('d, 'r) world, unit) state" where
  "main_exit D a =
     do {
       RedisQueue_Close D (app_queue a);
       PostgresStorage_Close D (app_store a);
       modify (\<lambda>w. w\<lparr>cancelled := True\<rparr>)
     }"

section \<open>Facts\<close>

lemma main_registry_tame: "tame_registry (main_registry roll)"
  by (auto simp: tame_registry_def Registry_Get_def main_registry_def Register_def NewRegistry_def tame_def demoHandler_def
      flakyHandler_def split: if_splits)

text \<open>The types the program can process, and what the handlers of these types answer.\<close>

lemma main_registry_types:
  "(Registry_Get (main_registry roll) ty \<noteq> None) = (ty \<in> {''process'', ''send_email'', ''push_notify'', ''generate_report''})"
  by (auto simp: Registry_Get_def main_registry_def Register_def NewRegistry_def)

text \<open>A queue the pool was not started with is never taken from.\<close>

lemma take_first_other:
  "take_first qs f = Some (v, g) \<Longrightarrow> q \<notin> set qs \<Longrightarrow> g q = f q"
  by (induction qs arbitrary: f) (auto split: list.splits)

context worker_env
begin

lemma round_other_queue:
  assumes "tame_registry (registry p)" "winv n w" "run_state (worker_round L p) w = (go, w')" "q \<notin> set (queues p)"
  shows "waiting (ks (rds w')) q = waiting (ks (rds w)) q"
proof (cases "cancelled w")
  case True
  with assms(3) show ?thesis by (simp add: worker_round_def)
next
  case False
  obtain x v where p: "run_state (Pop (queue p) (queues p) (1 * time_Second)) w = (x, v)" by force
  have v: "waiting (ks (rds v)) q = waiting (ks (rds w)) q"
    using Q.pop_run [OF p] take_first_other [OF _ assms(4)] by (auto split: option.splits)
  have "w' = v \<or> (\<exists>sid. run_state (processJob L p sid) v = ((), w'))"
    using assms(3) False p by (auto simp: worker_round_def split: sum.splits if_splits prod.splits)
  then show ?thesis
  proof
    assume "\<exists>sid. run_state (processJob L p sid) v = ((), w')"
    then obtain sid where "exec (processJob L p sid) v = w'" using exec_eqI by metis
    with processJob_safe [OF assms(1) pop_winv [OF assms(2) p], of sid] v show ?thesis
      by (auto simp: job_frame_def split: option.splits)
  qed (use v in simp)
qed

lemma rounds_other_queue:
  assumes "tame_registry (registry p)" "q \<notin> set (queues p)" "(round_step L)\<^sup>*\<^sup>* s s'" "cfg (fst s) = p" "winv n (snd s)"
  shows "cfg (fst s') = p \<and> winv n (snd s') \<and> waiting (ks (rds (snd s'))) q = waiting (ks (rds (snd s))) q"
  using assms(3)
proof induction
  case base
  with assms(4,5) show ?case by simp
next
  case (step t u)
  obtain r w where t: "t = (r, w)" by (cases t)
  obtain go w' where "run_state (worker_round L (cfg r)) w = (go, w')" "snd u = w'" "cfg (fst u) = cfg r"
    using step.hyps(2) t by (auto elim: round_stepE)
  with step.IH t round_safe [OF assms(1), of n w go w'] round_other_queue [OF assms(1) _ _ assms(2), of n w go w']
  show ?case by auto
qed

end

text \<open>With Redis answering, the collector records the length of every queue, in the order of the names.\<close>

lemma collect_depth_exact:
  assumes "redis (client rq) ks pub rup" "rup (rds w)"
  shows "\<exists>w'. run_state (collect_depth rq qs) w = ((), w') \<and> ks (rds w') = ks (rds w) \<and> db w' = db w \<and> rup (rds w') \<and>
           clk w' = clk w \<and>
           met w' = met w @ map (\<lambda>q. (QueueDepth, [q], SetTo (f64_int (int (length (waiting (ks (rds w)) q)))))) qs"
  using assms(2)
proof (induction qs arbitrary: w)
  case Nil
  then show ?case by (simp add: collect_depth_def)
next
  case (Cons q qs)
  obtain n r' where l: "LLen (client rq) (queueKey q) (rds w) = (Inr n, r')" "rup r'" using redis.up_llen [OF assms(1) Cons.prems] by blast
  have n: "n = int (length (waiting (ks (rds w)) q))" "ks r' = ks (rds w)"
    using redis.llen_ok [OF assms(1) l(1)] redis.llen_ks [OF assms(1) l(1)] by (simp_all add: waiting_def)
  let ?w = "w\<lparr>rds := r', met := met w @ [(QueueDepth, [q], SetTo (f64_int n))]\<rparr>"
  have "run_state (collect_depth rq (q # qs)) w = run_state (collect_depth rq qs) ?w"
    using l(1) by (simp add: collect_depth_def QueueLength_def run_rds_call run_metric_do)
  with Cons.IH [of ?w] l(2) n show ?case by auto
qed

text \<open>The order of the start: nothing is called before the configuration is complete.\<close>

lemma main_start_config:
  assumes "env ''GOQUEUE_POSTGRES_URL'' = [] \<or> env ''GOQUEUE_API_KEY'' = []"
  shows "\<exists>e. run_state (main_start D tmpl zone roll env) w = (Inl (''failed to load config: '' @ e), w)"
  using assms by (auto simp: main_start_def Load_def Let_def)

text \<open>After the shutdown the context is cancelled, so that every round of a worker is its last.\<close>

lemma Shutdown_hub_done: "hub_done (Shutdown order h) = hub_done h"
  by (induction order arbitrary: h) (simp_all add: Shutdown_def Shutdown_client_def close_send_def upd_client_def split: option.splits)

lemma main_shutdown_cancels:
  assumes "run_state (main_shutdown X order a) w = (a', w')"
  shows "cancelled w' \<and> \<not> IsLeader (app_elector a') \<and> hub_done (app_hub a')"
proof -
  obtain e w1 where 1: "run_state (drop_conn X (app_elector a)) (w\<lparr>cancelled := True\<rparr>) = (e, w1)" by force
  obtain d where "w1 = w\<lparr>cancelled := True, db := d\<rparr>" by (rule drop_conn_frame [OF 1]) simp
  with assms 1 show ?thesis
    by (auto simp: main_shutdown_def elector_Stop_def run_metric_do Stop_cancel_def IsLeader_def Shutdown_hub_done)
qed

text \<open>At the end both connections are closed, that of Redis first, and nothing else is called.\<close>

lemma main_exit_closes:
  "run_state (main_exit D a) w =
     ((), w\<lparr>rds := snd (rd_Close D (client (app_queue a)) (rds w)), db := pgxpool_Close D (pool (app_store a)) (db w),
           cancelled := True\<rparr>)"
  by (simp add: main_exit_def RedisQueue_Close_def PostgresStorage_Close_def run_rds_call run_db_call split: prod.split)

section \<open>Queues nobody serves\<close>

text \<open>
  A queue the program was not started with is never served.  The API accepts any name for a
  queue, the pool takes only from the four it was started with: in whatever order its workers
  take rounds, and whichever calls fail, an entry of another queue stays where it is.
\<close>

lemma unknown_queue_starves:
  assumes "worker_services (cfg (app_pool a)) tbl env up ks pub rup L" "a = main_app tmpl zone roll conf st rq"
    and "data_ok (\<lambda>d. schema_ok (tbl d)) ks n w" "q \<notin> {''default'', ''email'', ''notification'', ''report''}"
    and "(round_step L)\<^sup>*\<^sup>* (app_pool a, w) (r', w')"
  shows "waiting (ks (rds w')) q = waiting (ks (rds w)) q"
proof -
  note env = worker_services.as_worker_env [OF assms(1)]
  have reg: "tame_registry (registry (cfg (app_pool a)))" "q \<notin> set (queues (cfg (app_pool a)))"
    using assms(2,4) main_registry_tame
    by (auto simp: main_app_def Start_def pool_new_def NewPool_def main_queues_def)
  from worker_env.rounds_other_queue [OF env reg assms(5), of n] assms(3) show ?thesis by simp
qed

definition vip_world :: "(pgmem, rmem) world" where
  "vip_world = demo_world\<lparr>rds := (rds demo_world)\<lparr>r_ks :=
     \<lparr>lists = (\<lambda>k. if k = queueKey ''vip'' then [canon_String 1] else []), zsets = (\<lambda>_. [])\<rparr>\<rparr>\<rparr>"

definition demo_conf :: Config where
  "demo_conf = \<lparr>HTTPAddr = '':8080'', PostgresURL = ''postgres:'', RedisURL = ''redis:'', APIKey = ''key'', WorkerCount = 2,
     JobTimeout = 30 * time_Second, ShutdownTimeout = 30 * time_Second, LogLevel = ''info'',
     LeaderPollInterval = 5 * time_Second\<rparr>"

definition demo_app :: "(nat, pgmem, rmem) app" where
  "demo_app = main_app (\<lambda>_ _. ([], None)) (\<lambda>_. 0) (\<lambda>_. 0) demo_conf mem_store mem_queue"

interpretation memapp: worker_services "cfg (app_pool demo_app)" m_tbl mem_env mem_up r_ks r_pub rmem_up canon_lib
  unfolding worker_services_def
  by (simp add: demo_app_def main_app_def Start_def pool_new_def NewPool_def RedisQueue_Client_def mem_queue_def memst.storage_axioms
      memq.redis_queue_axioms [unfolded mem_queue_def] rmem.redis_axioms canon.uuid_codec_axioms)

lemma unknown_queue_starves_witness:
  "\<exists>r' w'. round_step canon_lib (app_pool demo_app, vip_world) (r', w') \<and>
           waiting (r_ks (rds w')) ''vip'' = [canon_String 1]"
proof -
  obtain go w' where run: "run_state (worker_round canon_lib (cfg (app_pool demo_app))) vip_world = (go, w')" by force
  have step: "round_step canon_lib (app_pool demo_app, vip_world)
      ((app_pool demo_app)\<lparr>alive := (alive (app_pool demo_app))[0 := go]\<rparr>, w')"
    by (rule round_step.round [OF _ _ run]) (simp_all add: demo_app_def main_app_def Start_def pool_new_def NewPool_def demo_conf_def)
  have "data_ok (\<lambda>d. schema_ok (m_tbl d)) r_ks 0 vip_world"
    using demo_world_up by (simp add: data_ok_def services_up_def metrics_ok_def vip_world_def demo_world_def gauge_def ks_ok_def)
  with unknown_queue_starves [OF memapp.worker_services_axioms demo_app_def, of 0 vip_world "''vip''"] step
  have "waiting (r_ks (rds w')) ''vip'' = waiting (r_ks (rds vip_world)) ''vip''" by (auto intro: r_into_rtranclp)
  with step show ?thesis by (auto simp: vip_world_def waiting_def)
qed

end
