(* ===== verification/ApiRun.thy ===== *)
theory ApiRun
  imports Api WorkerPool
begin

text \<open>
  The API over the two servers: what each handler answers and does.
\<close>

locale api_services =
  st: storage "h_store h" tbl env up +
  rq: redis_queue "h_queue h" ks pub rup +
  rc: redis "h_redisClient h" ks pub rup +
  uuid_codec L
  for h :: "('d, 'r) ApiHandler" and tbl :: "'d \<Rightarrow> table" and env up
    and ks :: "'r \<Rightarrow> keyspace" and pub rup and L :: lib
begin

abbreviation serving :: "('d, 'r) world \<Rightarrow> bool" where
  "serving \<equiv> services_up (\<lambda>d. schema_ok (tbl d)) up ks rup"

abbreviation jobs :: "('d, 'r) world \<Rightarrow> Job list" where
  "jobs w \<equiv> table_jobs (tbl (db w))"

lemma publish_serving:
  assumes "serving w"
  obtains w' t where "run_state (api_publishEvent L h ty j) w = ((), w')" "serving w'" "db w' = db w"
    "ks (rds w') = ks (rds w)" "pub (rds w') = pub (rds w) @ [event_msg (job_event L ty j) t]"
proof -
  have "Timestamp (job_event L ty j) = zero_time" by (simp add: job_event_def)
  then obtain n r' t where "run_state (PublishJobEvent (h_redisClient h) (job_event L ty j)) w = (None, w\<lparr>ticks := n, rds := r'\<rparr>)"
    "rup r'" "ks r' = ks (rds w)" "pub r' = pub (rds w) @ [event_msg (job_event L ty j) t]"
    using rc.bus.publish_exact assms unfolding services_up_def by blast
  with assms show thesis
    using that [of "w\<lparr>ticks := n, rds := r'\<rparr>" t] by (simp add: api_publishEvent_def job_event_def services_up_def)
qed

lemma push_serving:
  assumes "serving w"
  obtains w' where "run_state (Push (h_queue h) q v) w = (None, w')" "serving w'" "db w' = db w"
    "waiting (ks (rds w')) = (waiting (ks (rds w)))(q := waiting (ks (rds w)) q @ [v])"
    "sched (ks (rds w')) = sched (ks (rds w))" "pub (rds w') = pub (rds w)"
proof -
  have "rup (rds w)" using assms by (simp add: services_up_def)
  then obtain r' where "run_state (Push (h_queue h) q v) w = (None, w\<lparr>rds := r'\<rparr>)" "rup r'" "pub r' = pub (rds w)"
    "sched (ks r') = sched (ks (rds w))" "ks_ok (ks r') = ks_ok (ks (rds w))"
    "waiting (ks r') = (waiting (ks (rds w)))(q := waiting (ks (rds w)) q @ [v])"
    by (rule rq.queue.push_exact)
  with assms show thesis using that [of "w\<lparr>rds := r'\<rparr>"] by (simp add: services_up_def)
qed

lemma schedule_serving:
  assumes "serving w"
  obtains w' where "run_state (Schedule (h_queue h) v t) w = (None, w')" "serving w'" "db w' = db w"
    "waiting (ks (rds w')) = waiting (ks (rds w))" "pub (rds w') = pub (rds w)"
    "sched (ks (rds w')) = (sched (ks (rds w)))(v \<mapsto> f64_int (Unix t))"
proof -
  have "rup (rds w)" "ks_ok (ks (rds w))" using assms by (simp_all add: services_up_def)
  then obtain r' where "run_state (Schedule (h_queue h) v t) w = (None, w\<lparr>rds := r'\<rparr>)" "rup r'" "pub r' = pub (rds w)"
    "waiting (ks r') = waiting (ks (rds w))" "ks_ok (ks r')"
    "sched (ks r') = (sched (ks (rds w)))(v \<mapsto> f64_int (Unix t))"
    by (rule rq.queue.schedule_exact)
  with assms show thesis using that [of "w\<lparr>rds := r'\<rparr>"] by (simp add: services_up_def)
qed

lemma get_serving:
  assumes "serving w"
  obtains e w' where "run_state (GetJob (h_store h) i) w = (case look (jobs w) i of Some j \<Rightarrow> Inr j | None \<Rightarrow> Inl e, w')"
    "serving w'" "rds w' = rds w" "jobs w' = jobs w"
proof -
  have up: "schema_ok (tbl (db w))" "up (db w)" using assms by (simp_all add: services_up_def)
  show thesis
  proof (cases "look (jobs w) i")
    case None
    obtain e d' where "run_state (GetJob (h_store h) i) w = (Inl e, w\<lparr>db := d'\<rparr>)" "schema_ok (tbl d')" "up d'"
      "table_jobs (tbl d') = jobs w"
      using up None by (rule st.store.get_none_exact)
    with None assms show thesis using that [of e "w\<lparr>db := d'\<rparr>"] by (simp add: services_up_def)
  next
    case (Some j)
    obtain d' where "run_state (GetJob (h_store h) i) w = (Inr j, w\<lparr>db := d'\<rparr>)" "schema_ok (tbl d')" "up d'"
      "table_jobs (tbl d') = jobs w"
      using up Some by (rule st.store.get_exact)
    with Some assms show thesis using that [of _ "w\<lparr>db := d'\<rparr>"] by (simp add: services_up_def)
  qed
qed

lemma create_serving:
  assumes "serving w" "Option.bind (Payload job) (jsonb_in (env (db w))) = Some p"
    and "text_ok (Queue job)" "text_ok (Type job)" "text_ok (Status job)"
    and "jobs_ok (jobs w @ [new_job (env (db w)) p job])"
  obtains w' where "run_state (CreateJob (h_store h) job) w = (Inr (new_job (env (db w)) p job), w')" "serving w'"
    "rds w' = rds w" "jobs w' = jobs w @ [new_job (env (db w)) p job]"
proof -
  have up: "schema_ok (tbl (db w))" "up (db w)" using assms by (simp_all add: services_up_def)
  obtain w' where c: "run_state (CreateJob (h_store h) job) w = (Inr (new_job (env (db w)) p job), w')" "up (db w')"
    using st.CreateJob_live [OF up assms(2-6)] by blast
  obtain d' where "w' = w\<lparr>db := d'\<rparr>" "schema_ok (tbl d')" "table_jobs (tbl d') = jobs w @ [new_job (env (db w)) p job]"
    using st.CreateJob_run [OF up(1) c(1)] by blast
  with c assms(1) show thesis using that [of w'] by (simp add: services_up_def)
qed

text \<open>The whole of the create handler, for a good request.\<close>

lemma api_CreateJob_serving:
  assumes "serving w" "request_job (Body r) = Inr job" "Option.bind (Payload job) (jsonb_in (env (db w))) = Some p"
    and "text_ok (Queue job)" "text_ok (Type job)" "jobs_ok (jobs w @ [new_job (env (db w)) p job])"
  defines "j \<equiv> new_job (env (db w)) p job"
  shows "\<exists>w'. run_state (api_CreateJob L h r) w = (writeJSON 201 (json_job L j), w') \<and> serving w' \<and>
           jobs w' = jobs w @ [j] \<and>
           (case RunAt job of
              None \<Rightarrow> sched (ks (rds w')) = sched (ks (rds w)) \<and>
                waiting (ks (rds w')) = (waiting (ks (rds w)))(Queue job := waiting (ks (rds w)) (Queue job) @ [uuid_String L (ID j)])
            | Some t \<Rightarrow> waiting (ks (rds w')) = waiting (ks (rds w)) \<and>
                sched (ks (rds w')) = (sched (ks (rds w)))(uuid_String L (ID j) \<mapsto> f64_int (Unix t)))"
proof -
  have "text_ok (Status job)"
    using assms(2) by (auto simp: request_job_def Let_def split: option.splits if_splits)
  then obtain w1 where 1: "run_state (CreateJob (h_store h) job) w = (Inr j, w1)" "serving w1"
    "rds w1 = rds w" "jobs w1 = jobs w @ [j]"
    using create_serving [OF assms(1,3-5) _ assms(6)] unfolding j_def by blast
  show ?thesis
  proof (cases "RunAt job")
    case None
    obtain w2 where "run_state (Push (h_queue h) (Queue job) (uuid_String L (ID j))) w1 = (None, w2)" "serving w2"
      "db w2 = db w1"
      "waiting (ks (rds w2)) = (waiting (ks (rds w1)))(Queue job := waiting (ks (rds w1)) (Queue job) @ [uuid_String L (ID j)])"
      "sched (ks (rds w2)) = sched (ks (rds w1))"
      using 1(2) by (rule push_serving)
    with 1 None assms(2) show ?thesis by (intro exI [of _ w2]) (simp add: api_CreateJob_def)
  next
    case (Some t)
    obtain w2 where "run_state (Schedule (h_queue h) (uuid_String L (ID j)) t) w1 = (None, w2)" "serving w2" "db w2 = db w1"
      "waiting (ks (rds w2)) = waiting (ks (rds w1))"
      "sched (ks (rds w2)) = (sched (ks (rds w1)))(uuid_String L (ID j) \<mapsto> f64_int (Unix t))"
      using 1(2) by (rule schedule_serving)
    with 1 Some assms(2) show ?thesis by (intro exI [of _ w2]) (simp add: api_CreateJob_def)
  qed
qed

lemma api_GetJob_serving:
  assumes "serving w" "uuid_Parse L (URLParam r ''id'') = Some i"
  shows "\<exists>w'. run_state (api_GetJob L h r) w =
           (case look (jobs w) i of None \<Rightarrow> writeError 404 ''job not found'' | Some j \<Rightarrow> writeJSON 200 (json_job L j), w') \<and>
           serving w' \<and> jobs w' = jobs w \<and> rds w' = rds w"
proof -
  obtain e w' where "run_state (GetJob (h_store h) i) w = (case look (jobs w) i of Some j \<Rightarrow> Inr j | None \<Rightarrow> Inl e, w')"
    "serving w'" "rds w' = rds w" "jobs w' = jobs w"
    using assms(1) by (rule get_serving)
  then show ?thesis
    using assms(2) by (intro exI [of _ w']) (simp add: api_GetJob_def split: option.split)
qed

lemma status_serving:
  assumes "serving w" "utf8_length x \<le> 20" "text_ok x"
  obtains w' n u where "run_state (UpdateJobStatus (h_store h) i x) w = (None, w')" "serving w'" "rds w' = rds w"
    "jobs w' = upd_job i (set_status x n u) (jobs w)"
proof -
  have up: "schema_ok (tbl (db w))" "up (db w)" using assms by (simp_all add: services_up_def)
  obtain d' n u where "run_state (UpdateJobStatus (h_store h) i x) w = (None, w\<lparr>ticks := Suc (ticks w), db := d'\<rparr>)"
    "schema_ok (tbl d')" "up d'" "table_jobs (tbl d') = upd_job i (set_status x n u) (jobs w)"
    using up assms(2,3) by (rule st.store.status_exact)
  with assms(1) show thesis
    using that [of "w\<lparr>ticks := Suc (ticks w), db := d'\<rparr>" n u] by (simp add: services_up_def)
qed

lemma error_serving:
  assumes "serving w" "utf8_length x \<le> 20" "in_int4 n" "text_ok x" "text_ok e"
  obtains w' u where "run_state (UpdateJobError (h_store h) i x n e) w = (None, w')" "serving w'" "rds w' = rds w"
    "jobs w' = upd_job i (set_error x n e u) (jobs w)"
proof -
  have up: "schema_ok (tbl (db w))" "up (db w)" using assms by (simp_all add: services_up_def)
  obtain d' u where "run_state (UpdateJobError (h_store h) i x n e) w = (None, w\<lparr>db := d'\<rparr>)"
    "schema_ok (tbl d')" "up d'" "table_jobs (tbl d') = upd_job i (set_error x n e u) (jobs w)"
    using up assms(2-5) by (rule st.store.error_exact)
  with assms(1) show thesis using that [of "w\<lparr>db := d'\<rparr>" u] by (simp add: services_up_def)
qed

text \<open>Cancelling: the three outcomes.\<close>

lemma api_CancelJob_serving:
  assumes "serving w" "uuid_Parse L (URLParam r ''id'') = Some i"
  shows "\<exists>w'. serving w' \<and> ks (rds w') = ks (rds w) \<and>
           (case look (jobs w) i of
              None \<Rightarrow> run_state (api_CancelJob L h r) w = (writeError 404 ''job not found'', w') \<and> jobs w' = jobs w
            | Some j \<Rightarrow>
                if Status j \<in> {StatusPending, StatusScheduled, StatusRunning}
                then run_state (api_CancelJob L h r) w = (writeJSON 200 (Some (status_only ''cancelled'')), w') \<and>
                     (\<exists>n u t. jobs w' = upd_job i (set_status StatusCancelled n u) (jobs w) \<and>
                              pub (rds w') = pub (rds w) @ [event_msg (job_event L ''job.cancelled'' j) t])
                else run_state (api_CancelJob L h r) w =
                       (writeError 409 ''job cannot be cancelled in current state'', w') \<and> jobs w' = jobs w)"
proof -
  obtain e w1 where 1: "run_state (GetJob (h_store h) i) w = (case look (jobs w) i of Some j \<Rightarrow> Inr j | None \<Rightarrow> Inl e, w1)"
    "serving w1" "rds w1 = rds w" "jobs w1 = jobs w"
    using assms(1) by (rule get_serving)
  show ?thesis
  proof (cases "look (jobs w) i")
    case None
    with 1 assms(2) show ?thesis by (intro exI [of _ w1]) (simp add: api_CancelJob_def)
  next
    case (Some j)
    show ?thesis
    proof (cases "Status j \<in> {StatusPending, StatusScheduled, StatusRunning}")
      case False
      then have "\<not> CanTransitionTo (Status j) StatusCancelled" by (simp add: CanTransitionTo_cancel)
      with 1 Some False assms(2) show ?thesis by (intro exI [of _ w1]) (simp add: api_CancelJob_def)
    next
      case True
      then have c: "CanTransitionTo (Status j) StatusCancelled" by (simp add: CanTransitionTo_cancel)
      obtain w2 n u where 2: "run_state (UpdateJobStatus (h_store h) i StatusCancelled) w1 = (None, w2)" "serving w2"
        "rds w2 = rds w1" "jobs w2 = upd_job i (set_status StatusCancelled n u) (jobs w1)"
        using 1(2) status_texts(7,15) by (rule status_serving)
      obtain w3 t where 3: "run_state (api_publishEvent L h ''job.cancelled'' j) w2 = ((), w3)" "serving w3" "db w3 = db w2"
        "ks (rds w3) = ks (rds w2)" "pub (rds w3) = pub (rds w2) @ [event_msg (job_event L ''job.cancelled'' j) t]"
        using 2(2) by (rule publish_serving)
      have "run_state (api_CancelJob L h r) w = (writeJSON 200 (Some (status_only ''cancelled'')), w3)"
        using 1 2 3 Some c assms(2) by (simp add: api_CancelJob_def)
      moreover have "jobs w3 = upd_job i (set_status StatusCancelled n u) (jobs w)" using 1 2 3 by simp
      moreover have "pub (rds w3) = pub (rds w) @ [event_msg (job_event L ''job.cancelled'' j) t]" "ks (rds w3) = ks (rds w)"
        using 1 2 3 by simp_all
      ultimately show ?thesis using Some True 3(2) by (intro exI [of _ w3]) auto
    qed
  qed
qed

lemma api_RetryJob_serving:
  assumes "serving w" "uuid_Parse L (URLParam r ''id'') = Some i"
  shows "\<exists>w'. serving w' \<and> sched (ks (rds w')) = sched (ks (rds w)) \<and>
           (case look (jobs w) i of
              None \<Rightarrow> run_state (api_RetryJob L h r) w = (writeError 404 ''job not found'', w') \<and> jobs w' = jobs w \<and>
                waiting (ks (rds w')) = waiting (ks (rds w))
            | Some j \<Rightarrow>
                if Status j = StatusDead
                then run_state (api_RetryJob L h r) w = (writeJSON 200 (Some (status_only ''retrying'')), w') \<and>
                     (\<exists>u. jobs w' = upd_job i (set_error StatusPending 0 [] u) (jobs w)) \<and>
                     waiting (ks (rds w')) =
                       (waiting (ks (rds w)))(Queue j := waiting (ks (rds w)) (Queue j) @ [uuid_String L i])
                else run_state (api_RetryJob L h r) w = (writeError 409 ''only dead jobs can be retried'', w') \<and>
                     jobs w' = jobs w \<and> waiting (ks (rds w')) = waiting (ks (rds w)))"
proof -
  obtain e w1 where 1: "run_state (GetJob (h_store h) i) w = (case look (jobs w) i of Some j \<Rightarrow> Inr j | None \<Rightarrow> Inl e, w1)"
    "serving w1" "rds w1 = rds w" "jobs w1 = jobs w"
    using assms(1) by (rule get_serving)
  show ?thesis
  proof (cases "look (jobs w) i")
    case None
    with 1 assms(2) show ?thesis by (intro exI [of _ w1]) (simp add: api_RetryJob_def)
  next
    case (Some j)
    show ?thesis
    proof (cases "Status j = StatusDead")
      case False
      with 1 Some assms(2) show ?thesis by (intro exI [of _ w1]) (simp add: api_RetryJob_def)
    next
      case True
      have "in_int4 0" by (simp add: in_int4_def)
      then obtain w2 u where 2: "run_state (UpdateJobError (h_store h) i StatusPending 0 []) w1 = (None, w2)" "serving w2"
        "rds w2 = rds w1" "jobs w2 = upd_job i (set_error StatusPending 0 [] u) (jobs w1)"
        using error_serving [OF 1(2) status_texts(1) _ status_texts(9) text_ok_Nil, of 0 i] by blast
      obtain w3 where 3: "run_state (Push (h_queue h) (Queue j) (uuid_String L i)) w2 = (None, w3)" "serving w3" "db w3 = db w2"
        "waiting (ks (rds w3)) = (waiting (ks (rds w2)))(Queue j := waiting (ks (rds w2)) (Queue j) @ [uuid_String L i])"
        "sched (ks (rds w3)) = sched (ks (rds w2))" "pub (rds w3) = pub (rds w2)"
        using 2(2) by (rule push_serving)
      obtain w4 t where 4: "run_state (api_publishEvent L h ''job.retried'' j) w3 = ((), w4)" "serving w4" "db w4 = db w3"
        "ks (rds w4) = ks (rds w3)"
        using 3(2) by (rule publish_serving)
      have "run_state (api_RetryJob L h r) w = (writeJSON 200 (Some (status_only ''retrying'')), w4)"
        using 1 2 3 4 Some True assms(2) by (simp add: api_RetryJob_def)
      moreover have "jobs w4 = upd_job i (set_error StatusPending 0 [] u) (jobs w)" using 1 2 3 4 by simp
      moreover have "waiting (ks (rds w4)) = (waiting (ks (rds w)))(Queue j := waiting (ks (rds w)) (Queue j) @ [uuid_String L i])"
        "sched (ks (rds w4)) = sched (ks (rds w))"
        using 1 2 3 4 by simp_all
      ultimately show ?thesis using Some True 4(2) by (intro exI [of _ w4]) auto
    qed
  qed
qed

lemma api_DeleteJob_serving:
  assumes "serving w" "uuid_Parse L (URLParam r ''id'') = Some i"
  shows "\<exists>w'. serving w' \<and> rds w' = rds w \<and>
           (if \<exists>j. look (jobs w) i = Some j \<and> Status j = StatusDead
            then run_state (api_DeleteJob L h r) w = (writeJSON 200 (Some (status_only ''deleted'')), w') \<and>
                 jobs w' = filter (\<lambda>j. ID j \<noteq> i) (jobs w)
            else run_state (api_DeleteJob L h r) w = (writeError 409 ''job not found or not in dead status'', w') \<and>
                 jobs w' = jobs w)"
proof -
  have up: "schema_ok (tbl (db w))" "up (db w)" using assms by (simp_all add: services_up_def)
  let ?dead = "\<exists>j. look (jobs w) i = Some j \<and> Status j = StatusDead"
  obtain w' where d: "run_state (DeleteJob (h_store h) i) w =
      (if ?dead then None else Some ''job not found or not in dead status'', w')" "up (db w')"
    using st.DeleteJob_live [OF up] by blast
  note r = st.DeleteJob_run [OF up(1) d(1)]
  obtain d' where d': "w' = w\<lparr>db := d'\<rparr>" "schema_ok (tbl d')" using r by blast
  have ok: "jobs_ok (jobs w)" using st.ok_jobs_ok [OF up(1)] .
  then have inj: "x \<in> set (jobs w) \<Longrightarrow> y \<in> set (jobs w) \<Longrightarrow> ID x = ID y \<Longrightarrow> x = y" for x y
    by (auto simp: jobs_ok_def distinct_map inj_on_def)
  have keep: "filter (\<lambda>j. \<not> (ID j = i \<and> Status j = StatusDead)) (jobs w) =
      (if ?dead then filter (\<lambda>j. ID j \<noteq> i) (jobs w) else jobs w)"
    using look_Some_iff [OF ok] by (auto intro!: filter_cong filter_True dest: inj)
  have "serving w'" "rds w' = rds w" using d d' assms(1) by (simp_all add: services_up_def)
  with d r keep assms(2) show ?thesis
    by (intro exI [of _ w']) (auto simp: api_DeleteJob_def split: if_splits)
qed

text \<open>Listing and counting leave everything as it is.\<close>

lemma api_ListJobs_serving:
  assumes "serving w" "filter_text (list_params r)"
  defines "f \<equiv> list_params r"
  shows "\<exists>js d. mset js = mset (jobs w) \<and> serving (w\<lparr>db := d\<rparr>) \<and> tbl d = tbl (db w) \<and>
           run_state (api_ListJobs L h r) w =
             (list_response L f (if 0 \<le> list_offset f then page_of f js else [])
                (int (length (filter (filter_ok f) (jobs w)))), w\<lparr>db := d\<rparr>)"
proof -
  have up: "schema_ok (tbl (db w))" "up (db w)" using assms by (simp_all add: services_up_def)
  have "list_page f = f" unfolding f_def by (rule list_page_params)
  with st.ListJobs_live [OF up assms(2)] obtain js d where
    "mset js = mset (jobs w)" "up d" "tbl d = tbl (db w)"
    "run_state (ListJobs (h_store h) f) w =
       (Inr (if 0 \<le> list_offset f then page_of f js else [], int (length (filter (filter_ok f) (jobs w)))), w\<lparr>db := d\<rparr>)"
    unfolding f_def by auto
  with assms(1) show ?thesis
    by (intro exI [of _ js] exI [of _ d])
       (simp add: api_ListJobs_def list_response_def f_def Let_def services_up_def)
qed

lemma stats_serving:
  assumes "serving w"
  obtains keys d where "distinct keys" "set keys = job_key ` set (jobs w)" "serving (w\<lparr>db := d\<rparr>)" "tbl d = tbl (db w)"
    "run_state (GetQueueStats (h_store h)) w = (Inr (map (stat_of (jobs w)) keys), w\<lparr>db := d\<rparr>)"
proof -
  have up: "schema_ok (tbl (db w))" "up (db w)" using assms by (simp_all add: services_up_def)
  from st.GetQueueStats_live [OF up] obtain keys d where
    k: "distinct keys" "set keys = job_key ` set (jobs w)" "up d" "tbl d = tbl (db w)"
    "run_state (GetQueueStats (h_store h)) w = (Inr (map (stat_of (jobs w)) keys), w\<lparr>db := d\<rparr>)" by blast
  have "serving (w\<lparr>db := d\<rparr>)" using k assms by (simp add: services_up_def)
  with k show thesis using that by blast
qed

lemma api_GetStats_serving:
  assumes "serving w"
  shows "\<exists>m d. run_state (api_GetStats h r) w = (writeJSON 200 (Some (json_counts m)), w\<lparr>db := d\<rparr>) \<and>
           serving (w\<lparr>db := d\<rparr>) \<and> tbl d = tbl (db w) \<and>
           (\<forall>x. map_get 0 x m = wrap64 (int (length (filter (\<lambda>j. Status j = x) (jobs w)))))"
proof -
  obtain keys d where "distinct keys" "set keys = job_key ` set (jobs w)" "serving (w\<lparr>db := d\<rparr>)" "tbl d = tbl (db w)"
    "run_state (GetQueueStats (h_store h)) w = (Inr (map (stat_of (jobs w)) keys), w\<lparr>db := d\<rparr>)"
    using assms by (rule stats_serving)
  then show ?thesis
    by (intro exI [of _ "total_stats (map (stat_of (jobs w)) keys)"] exI [of _ d])
       (simp add: api_GetStats_def total_stats_get sum_status_stats)
qed

lemma api_GetQueues_serving:
  assumes "serving w"
  shows "\<exists>g d. run_state (api_GetQueues h r) w = (writeJSON 200 (Some (json_grouped g)), w\<lparr>db := d\<rparr>) \<and>
           serving (w\<lparr>db := d\<rparr>) \<and> tbl d = tbl (db w) \<and>
           (\<forall>q x. map_get 0 x (map_get [] q g) = int (length (filter (\<lambda>j. Queue j = q \<and> Status j = x) (jobs w))))"
proof -
  obtain keys d where k: "distinct keys" "set keys = job_key ` set (jobs w)" "serving (w\<lparr>db := d\<rparr>)" "tbl d = tbl (db w)"
    "run_state (GetQueueStats (h_store h)) w = (Inr (map (stat_of (jobs w)) keys), w\<lparr>db := d\<rparr>)"
    using assms by (rule stats_serving)
  then show ?thesis
    by (intro exI [of _ "group_stats (map (stat_of (jobs w)) keys)"] exI [of _ d])
       (simp add: api_GetQueues_def group_stats_get)
qed

end

lemma api_services_intro:
  assumes "storage st tbl env up" "redis_queue q ks pub rup" "redis (client q) ks pub rup" "uuid_codec L"
  shows "api_services (NewHandler st q) tbl env up ks pub rup L"
  using assms by (simp add: api_services_def NewHandler_def)

end
