(* ===== verification/ApiProperties.thy ===== *)
theory ApiProperties
  imports ApiRun
begin

text \<open>
  The properties of the REST interface, with an instance of it over the servers in memory.
\<close>

section \<open>An instance in memory\<close>

definition demo_api :: "(pgmem, rmem) ApiHandler" where
  "demo_api = NewHandler mem_store mem_queue"

interpretation mema: api_services demo_api m_tbl mem_env mem_up r_ks r_pub rmem_up canon_lib
  unfolding demo_api_def
proof (rule api_services_intro)
  show "redis (client mem_queue) r_ks r_pub rmem_up" by (simp add: mem_queue_def rmem.redis_axioms)
qed (rule memst.storage_axioms memq.redis_queue_axioms canon.uuid_codec_axioms)+

definition api_jobs :: "Job list" where
  "api_jobs = [demo_job 1 ''good'' 0, (demo_job 2 ''bad'' 3)\<lparr>Status := StatusDead\<rparr>]"

definition api_world :: "(pgmem, rmem) world" where
  "api_world = demo_world\<lparr>db := demo_pg\<lparr>m_tbl := map row_of api_jobs\<rparr>\<rparr>"

definition job_request :: "uuid \<Rightarrow> request" where
  "job_request i = \<lparr>Header = (\<lambda>_. []), URLQuery = (\<lambda>_. []), URLParam = (\<lambda>_. canon_String i), Body = None\<rparr>"

definition create_request :: request where
  "create_request =
     (job_request 0)\<lparr>Body := Some (JObj [(''queue'', JStr ''default''), (''type'', JStr ''good'')])\<rparr>"

lemma api_jobs_ok: "jobs_ok api_jobs"
  by (simp add: jobs_ok_def api_jobs_def demo_job_def job_ok_def utf8_length_def in_int4_def go_const)

lemma api_world_up: "services_up (\<lambda>d. schema_ok (m_tbl d)) mem_up r_ks rmem_up api_world"
  using demo_world_up
  by (simp add: services_up_def api_world_def schema_ok_rows api_jobs_ok demo_world_def demo_pg_def mem_up_def sane_clock_def)

lemma api_world_simps [simp]:
  "table_jobs (m_tbl (db api_world)) = api_jobs" "rds api_world = rds demo_world" "r_ks (rds demo_world) = demo_ks"
  by (simp_all add: api_world_def) (simp add: demo_world_def)

lemma api_look [simp]:
  "look api_jobs 1 = Some (demo_job 1 ''good'' 0)" "look api_jobs 2 = Some ((demo_job 2 ''bad'' 3)\<lparr>Status := StatusDead\<rparr>)"
  "look api_jobs 7 = None"
  by (simp_all add: look_def api_jobs_def demo_job_def)

lemma job_request_simps [simp]:
  "URLParam (job_request i) x = canon_String i" "Header (job_request i) x = []" "URLQuery (job_request i) x = []"
  by (simp_all add: job_request_def)

section \<open>Authentication\<close>

text \<open>
  Every route under \<^verbatim>\<open>/api/v1\<close> is behind the key: without it the answer is 401 and neither
  server is called, nothing is published, no metric moves; with it the request reaches the
  handler of its endpoint.
\<close>

lemma api_requires_key:
  assumes "(m, pat, e, a) \<in> set routes" "take 7 pat = ''/api/v1''"
  shows "run_state (serve_route L h key isLeader other (m, pat, e, a) r) w =
           (if Header r ''X-API-Key'' = key
            then run_state (RequestLogger (endpoint_handler L h isLeader other e) r) w
            else (writeError 401 ''invalid or missing API key'', w\<lparr>ticks := ticks w + 2\<rparr>))"
proof -
  have "a" using assms by (auto simp: routes_def open_routes_def)
  then show ?thesis
    by (simp add: serve_route_def RequestLogger_def APIKeyAuth_def time_Now_def)
qed

section \<open>Creating jobs\<close>

text \<open>The body a client sends for a request.\<close>

definition request_json :: "CreateJobRequest \<Rightarrow> json" where
  "request_json c = JObj
     ([(''queue'', JStr (cr_Queue c)), (''type'', JStr (cr_Type c))] @
      (case cr_Payload c of None \<Rightarrow> [] | Some p \<Rightarrow> [(''payload'', p)]) @
      (case cr_MaxRetries c of None \<Rightarrow> [] | Some n \<Rightarrow> [(''max_retries'', JNum (fmt_d n))]) @
      (case cr_RunAt c of None \<Rightarrow> [] | Some t \<Rightarrow> [(''run_at'', JStr t)]))"

lemma fold_names:
  "fold_name ''queue'' = ''QUEUE''" "fold_name ''type'' = ''TYPE''" "fold_name ''payload'' = ''PAYLOAD''"
  "fold_name ''max_retries'' = ''MAX_RETRIES''" "fold_name ''run_at'' = ''RUN_AT''"
  by code_simp+

text \<open>
  The decoder reads back every request a client encodes: the queue, the type, any payload
  (null included), a retry limit of 64 bits and the run time, each absent field as absent.
\<close>

lemma decode_request_roundtrip:
  assumes "\<forall>n. cr_MaxRetries c = Some n \<longrightarrow> in_int64 n"
  shows "decode_request (Some (request_json c)) = Some c"
  using assms
  by (cases c) (auto simp: decode_request_def request_json_def decode_field_def fold_names Atoi_fmt_d
                     split: option.splits simp del: fold_name.simps)

text \<open>C21.
  Creating a job.  A good request stores exactly one job, with the fields of the request, and
  answers 201 with it; its identifier is appended to the queue it names, or, when it has a run
  time, scheduled for that time and put in no queue.
\<close>

theorem create_job_effect:
  assumes "api_services h tbl env up ks pub rup L"
    and "services_up (\<lambda>d. schema_ok (tbl d)) up ks rup w" "request_job (Body r) = Inr job"
    and "Option.bind (Payload job) (jsonb_in (env (db w))) = Some p" "text_ok (Queue job)" "text_ok (Type job)"
    and "jobs_ok (table_jobs (tbl (db w)) @ [new_job (env (db w)) p job])"
  shows "\<exists>j w'. j = new_job (env (db w)) p job \<and>
           run_state (api_CreateJob L h r) w = (writeJSON 201 (json_job L j), w') \<and>
           table_jobs (tbl (db w')) = table_jobs (tbl (db w)) @ [j] \<and>
           (case RunAt job of
              None \<Rightarrow> sched (ks (rds w')) = sched (ks (rds w)) \<and>
                waiting (ks (rds w')) = (waiting (ks (rds w)))(Queue job := waiting (ks (rds w)) (Queue job) @ [uuid_String L (ID j)])
            | Some t \<Rightarrow> waiting (ks (rds w')) = waiting (ks (rds w)) \<and>
                sched (ks (rds w')) = (sched (ks (rds w)))(uuid_String L (ID j) \<mapsto> f64_int (Unix t)))"
  using api_services.api_CreateJob_serving [OF assms] by blast

lemma create_request_job:
  "request_job (Body create_request) = Inr
     \<lparr>ID = 0, Queue = ''default'', Type = ''good'', Payload = Some (JObj []), Status = StatusPending, MaxRetries = 3,
      RetryCount = 0, RunAt = None, StartedAt = None, CompletedAt = None, Error = [],
      CreatedAt = zero_time, UpdatedAt = zero_time\<rparr>"
  by (simp add: create_request_def request_job_def decode_request_def decode_field_def fold_names Let_def
           del: fold_name.simps)

definition created_job :: Job where
  "created_job =
     \<lparr>ID = 100, Queue = ''default'', Type = ''good'', Payload = Some (JObj []), Status = StatusPending, MaxRetries = 3,
      RetryCount = 0, RunAt = None, StartedAt = None, CompletedAt = None, Error = [], CreatedAt = 0, UpdatedAt = 0\<rparr>"

lemma api_env: "jsonb_in (mem_env (db api_world)) = Some" "fresh_id (mem_env (db api_world)) = 100"
    "now_at (mem_env (db api_world)) = 0"
  by (simp_all add: api_world_def demo_pg_def mem_env_def)

lemma api_created_ok: "jobs_ok (api_jobs @ [created_job])"
  using api_jobs_ok
  by (simp add: jobs_ok_def api_jobs_def created_job_def demo_job_def job_ok_def utf8_length_def in_int4_def go_const)

lemma demo_text [simp]: "text_ok ''default''" "text_ok ''good''"
  by code_simp+

lemmas create_demo = mema.api_services_axioms api_world_up create_request_job

theorem create_job_effect_witness:
  "\<exists>w'. run_state (api_CreateJob canon_lib demo_api create_request) api_world =
          (writeJSON 201 (json_job canon_lib created_job), w') \<and>
        table_jobs (m_tbl (db w')) = api_jobs @ [created_job]"
  using create_job_effect [OF create_demo, of "JObj []"] api_created_ok
  by (auto simp: api_env new_job_def created_job_def [symmetric])

text \<open>
  Create, then get.  After a job was created, a request for the identifier in the answer is
  answered with the very job the creation returned.
\<close>

lemma create_then_get:
  assumes "api_services h tbl env up ks pub rup L"
    and "services_up (\<lambda>d. schema_ok (tbl d)) up ks rup w" "request_job (Body r) = Inr job"
    and "Option.bind (Payload job) (jsonb_in (env (db w))) = Some p" "text_ok (Queue job)" "text_ok (Type job)"
    and "jobs_ok (table_jobs (tbl (db w)) @ [new_job (env (db w)) p job])"
    and "uuid_Parse L (URLParam r' ''id'') = Some (ID (new_job (env (db w)) p job))"
  shows "\<exists>j w' w''. run_state (api_CreateJob L h r) w = (writeJSON 201 j, w') \<and>
                     run_state (api_GetJob L h r') w' = (writeJSON 200 j, w'')"
proof -
  let ?j = "new_job (env (db w)) p job"
  obtain w' where 1: "run_state (api_CreateJob L h r) w = (writeJSON 201 (json_job L ?j), w')"
    "services_up (\<lambda>d. schema_ok (tbl d)) up ks rup w'" "table_jobs (tbl (db w')) = table_jobs (tbl (db w)) @ [?j]"
    using api_services.api_CreateJob_serving [OF assms(1-7)] by blast
  have "look (table_jobs (tbl (db w'))) (ID ?j) = Some ?j"
    using look_Some_iff [OF assms(7)] unfolding 1(3) by simp
  with api_services.api_GetJob_serving [OF assms(1) 1(2) assms(8)] 1(1) show ?thesis by auto
qed

section \<open>Cancelling, retrying, deleting\<close>

text \<open>C14.
  Cancelling.  An unknown job is answered 404 and a job that is neither pending, scheduled nor
  running 409, both without any change; a job in one of these three statuses becomes cancelled,
  the answer is 200, and the event carries the status before.  The queues and the schedule stay
  as they are: the entry of the job is not taken out.
\<close>

theorem cancel_job_effect:
  assumes "api_services h tbl env up ks pub rup L"
    and "services_up (\<lambda>d. schema_ok (tbl d)) up ks rup w" "uuid_Parse L (URLParam r ''id'') = Some i"
  shows "\<exists>w'. ks (rds w') = ks (rds w) \<and>
           (case look (table_jobs (tbl (db w))) i of
              None \<Rightarrow> run_state (api_CancelJob L h r) w = (writeError 404 ''job not found'', w') \<and>
                table_jobs (tbl (db w')) = table_jobs (tbl (db w))
            | Some j \<Rightarrow>
                if Status j \<in> {StatusPending, StatusScheduled, StatusRunning}
                then run_state (api_CancelJob L h r) w = (writeJSON 200 (Some (status_only ''cancelled'')), w') \<and>
                     (\<exists>n u t. table_jobs (tbl (db w')) = upd_job i (set_status StatusCancelled n u) (table_jobs (tbl (db w))) \<and>
                              pub (rds w') = pub (rds w) @ [event_msg (job_event L ''job.cancelled'' j) t])
                else run_state (api_CancelJob L h r) w =
                       (writeError 409 ''job cannot be cancelled in current state'', w') \<and>
                     table_jobs (tbl (db w')) = table_jobs (tbl (db w)))"
  using api_services.api_CancelJob_serving [OF assms] by blast

theorem cancel_job_effect_witness:
  "\<exists>w' n u. run_state (api_CancelJob canon_lib demo_api (job_request 1)) api_world =
       (writeJSON 200 (Some (status_only ''cancelled'')), w') \<and>
     table_jobs (m_tbl (db w')) = upd_job 1 (set_status StatusCancelled n u) api_jobs \<and> r_ks (rds w') = demo_ks"
  using cancel_job_effect [OF mema.api_services_axioms api_world_up, of "job_request 1" 1] by auto

text \<open>C22.
  Retrying a dead job.  Only a dead job is accepted: it becomes pending with its count at zero
  and no error, and its identifier is appended to its queue; every other job is answered 409 and
  an unknown one 404, and then nothing changes.
\<close>

theorem retry_job_effect:
  assumes "api_services h tbl env up ks pub rup L"
    and "services_up (\<lambda>d. schema_ok (tbl d)) up ks rup w" "uuid_Parse L (URLParam r ''id'') = Some i"
  shows "\<exists>w'. sched (ks (rds w')) = sched (ks (rds w)) \<and>
           (case look (table_jobs (tbl (db w))) i of
              None \<Rightarrow> run_state (api_RetryJob L h r) w = (writeError 404 ''job not found'', w') \<and>
                table_jobs (tbl (db w')) = table_jobs (tbl (db w)) \<and> waiting (ks (rds w')) = waiting (ks (rds w))
            | Some j \<Rightarrow>
                if Status j = StatusDead
                then run_state (api_RetryJob L h r) w = (writeJSON 200 (Some (status_only ''retrying'')), w') \<and>
                     (\<exists>u. table_jobs (tbl (db w')) = upd_job i (set_error StatusPending 0 [] u) (table_jobs (tbl (db w)))) \<and>
                     waiting (ks (rds w')) =
                       (waiting (ks (rds w)))(Queue j := waiting (ks (rds w)) (Queue j) @ [uuid_String L i])
                else run_state (api_RetryJob L h r) w = (writeError 409 ''only dead jobs can be retried'', w') \<and>
                     table_jobs (tbl (db w')) = table_jobs (tbl (db w)) \<and> waiting (ks (rds w')) = waiting (ks (rds w)))"
  using api_services.api_RetryJob_serving [OF assms] by blast

theorem retry_job_effect_witness:
  "\<exists>w' u. run_state (api_RetryJob canon_lib demo_api (job_request 2)) api_world =
       (writeJSON 200 (Some (status_only ''retrying'')), w') \<and>
     table_jobs (m_tbl (db w')) = upd_job 2 (set_error StatusPending 0 [] u) api_jobs"
  using retry_job_effect [OF mema.api_services_axioms api_world_up, of "job_request 2" 2] by auto

lemma api_kept: "filter (\<lambda>j. ID j \<noteq> 2) api_jobs = [demo_job 1 ''good'' 0]"
  by (simp add: api_jobs_def)

lemma status_distinct: "StatusPending \<noteq> StatusDead"
  by (simp add: go_const)

text \<open>C23.
  Deleting.  A job is deleted, and it alone, precisely when it is dead; otherwise the answer is
  409 and nothing changes.  Redis is not touched.
\<close>

theorem delete_job_effect:
  assumes "api_services h tbl env up ks pub rup L"
    and "services_up (\<lambda>d. schema_ok (tbl d)) up ks rup w" "uuid_Parse L (URLParam r ''id'') = Some i"
  shows "\<exists>w'. rds w' = rds w \<and>
           (if \<exists>j. look (table_jobs (tbl (db w))) i = Some j \<and> Status j = StatusDead
            then run_state (api_DeleteJob L h r) w = (writeJSON 200 (Some (status_only ''deleted'')), w') \<and>
                 table_jobs (tbl (db w')) = filter (\<lambda>j. ID j \<noteq> i) (table_jobs (tbl (db w)))
            else run_state (api_DeleteJob L h r) w = (writeError 409 ''job not found or not in dead status'', w') \<and>
                 table_jobs (tbl (db w')) = table_jobs (tbl (db w)))"
  using api_services.api_DeleteJob_serving [OF assms] by blast

theorem delete_job_effect_witness:
  "\<exists>w' w''. run_state (api_DeleteJob canon_lib demo_api (job_request 2)) api_world =
       (writeJSON 200 (Some (status_only ''deleted'')), w') \<and>
     table_jobs (m_tbl (db w')) = [demo_job 1 ''good'' 0] \<and>
     run_state (api_DeleteJob canon_lib demo_api (job_request 1)) api_world =
       (writeError 409 ''job not found or not in dead status'', w'') \<and> table_jobs (m_tbl (db w'')) = api_jobs"
  using delete_job_effect [OF mema.api_services_axioms api_world_up, of "job_request 2" 2]
    delete_job_effect [OF mema.api_services_axioms api_world_up, of "job_request 1" 1]
  by (auto simp: api_kept status_distinct)

section \<open>Listing and counting\<close>

text \<open>C24.
  Listing.  For filters that are text, and a page whose offset does not overflow, the answer is
  200 with the requested page of the jobs that pass the filter, newest first, and with their
  number; nothing is changed.  When the offset overflows below zero the server rejects the
  query, the error is not noticed, and the answer is still 200, with null for the jobs beside
  the true number.
\<close>

theorem list_jobs_page:
  assumes "api_services h tbl env up ks pub rup L"
    and "services_up (\<lambda>d. schema_ok (tbl d)) up ks rup w" "list_params r = f" "filter_text f"
  shows "\<exists>js w'. mset js = mset (table_jobs (tbl (db w))) \<and> tbl (db w') = tbl (db w) \<and> rds w' = rds w \<and>
           run_state (api_ListJobs L h r) w =
             (list_response L f
                (if 0 \<le> list_offset f
                 then take (nat (Limit f)) (drop (nat (list_offset f)) (sort_key (\<lambda>j. - CreatedAt j) (filter (filter_ok f) js)))
                 else [])
                (int (length (filter (filter_ok f) (table_jobs (tbl (db w)))))), w')"
proof -
  have "page_of f js = take (nat (Limit f)) (drop (nat (list_offset f)) (sort_key (\<lambda>j. - CreatedAt j) (filter (filter_ok f) js)))" for js
    using list_page_params [of r] assms(3) by (simp add: page_of_def Let_def)
  then show ?thesis
    using api_services.api_ListJobs_serving [OF assms(1,2), of r] assms(3,4) by fastforce
qed

theorem list_jobs_page_witness:
  "\<exists>w'. run_state (api_ListJobs canon_lib demo_api ((job_request 0)\<lparr>URLQuery := (\<lambda>k. if k = ''page'' then fmt_d 9223372036854775807 else [])\<rparr>))
       api_world =
     (writeJSON 200 (Some (JObj [(''data'', JNull), (''pagination'', JObj
        [(''page'', JNum (fmt_d 9223372036854775807)), (''limit'', JNum (fmt_d 20)), (''total'', JNum (fmt_d 2)),
         (''total_pages'', JNum (fmt_d 1))])])), w')"
proof -
  let ?r = "(job_request 0)\<lparr>URLQuery := (\<lambda>k. if k = ''page'' then fmt_d 9223372036854775807 else [])\<rparr>"
  let ?f = "\<lparr>f_Status = [], f_Queue = [], f_Type = [], Page = 9223372036854775807, Limit = 20\<rparr> :: ListFilter"
  have a: "Atoi (fmt_d 9223372036854775807) = (9223372036854775807, None)" by (simp add: Atoi_fmt_d in_int64_def)
  have b: "Atoi [] = (0, Some ErrSyntax)" by code_simp
  have f: "list_params ?r = ?f" by (simp add: list_params_def a b)
  have o: "list_offset ?f < 0" by (simp add: list_offset_def wrap64_def)
  have t: "total_pages 2 20 = 1" by (simp add: total_pages_exact)
  have "filter (filter_ok ?f) api_jobs = api_jobs" by (auto simp: filter_ok_def)
  then have "int (length (filter (filter_ok ?f) api_jobs)) = 2" by (simp add: api_jobs_def)
  moreover have "filter_text ?f" by (simp add: filter_text_def)
  ultimately show ?thesis
    using list_jobs_page [OF mema.api_services_axioms api_world_up f] o
    by (auto simp: list_response_def json_jobs_def t)
qed

text \<open>
  The number of pages.  Although it is computed in floating point, for every page size the API
  admits and fewer than \<open>2 ^ 46\<close> jobs it is the exact quotient rounded up.
\<close>

lemma total_pages_ceiling:
  assumes "Limit (list_params r) = lm" "0 \<le> tot" "tot < 2 ^ 46"
  shows "total_pages tot lm * lm - lm < tot \<and> tot \<le> total_pages tot lm * lm"
proof -
  have lm: "0 < lm" "lm \<le> 100" using assms(1) by (auto simp: list_params_def Let_def)
  then have e: "total_pages tot lm = (tot + (lm - 1)) div lm" using assms by (simp add: total_pages_exact)
  have "(tot + (lm - 1)) div lm * lm + (tot + (lm - 1)) mod lm = tot + (lm - 1)" by simp
  moreover have "0 \<le> (tot + (lm - 1)) mod lm" "(tot + (lm - 1)) mod lm < lm" using lm by simp_all
  ultimately show ?thesis unfolding e by (intro conjI; linarith)
qed

text \<open>C25.
  Statistics.  The totals the API reports are, for every status, the number of jobs in it, over
  all queues; the grouped statistics are the number for every queue and status.  Neither changes
  anything.
\<close>

theorem stats_count_jobs:
  assumes "api_services h tbl env up ks pub rup L"
    and "services_up (\<lambda>d. schema_ok (tbl d)) up ks rup w" "length (table_jobs (tbl (db w))) < 2 ^ 63"
  shows "\<exists>m g w' w''.
           run_state (api_GetStats h r) w = (writeJSON 200 (Some (json_counts m)), w') \<and>
           (\<forall>x. map_get 0 x m = int (length (filter (\<lambda>j. Status j = x) (table_jobs (tbl (db w)))))) \<and>
           run_state (api_GetQueues h r) w' = (writeJSON 200 (Some (json_grouped g)), w'') \<and>
           (\<forall>q x. map_get 0 x (map_get [] q g) =
                    int (length (filter (\<lambda>j. Queue j = q \<and> Status j = x) (table_jobs (tbl (db w)))))) \<and>
           tbl (db w'') = tbl (db w) \<and> rds w'' = rds w"
proof -
  have small: "wrap64 (int (length (filter P (table_jobs (tbl (db w)))))) = int (length (filter P (table_jobs (tbl (db w)))))" for P
  proof -
    have "length (filter P (table_jobs (tbl (db w)))) < 2 ^ 63"
      using length_filter_le [of P "table_jobs (tbl (db w))"] assms(3) by linarith
    then show ?thesis by (intro wrap64_id) (simp add: in_int64_def)
  qed
  obtain m d where 1: "run_state (api_GetStats h r) w = (writeJSON 200 (Some (json_counts m)), w\<lparr>db := d\<rparr>)"
    "services_up (\<lambda>d. schema_ok (tbl d)) up ks rup (w\<lparr>db := d\<rparr>)" "tbl d = tbl (db w)"
    "\<forall>x. map_get 0 x m = wrap64 (int (length (filter (\<lambda>j. Status j = x) (table_jobs (tbl (db w))))))"
    using api_services.api_GetStats_serving [OF assms(1,2)] by blast
  from api_services.api_GetQueues_serving [OF assms(1) 1(2), of r] 1(3) obtain g d' where
    "run_state (api_GetQueues h r) (w\<lparr>db := d\<rparr>) = (writeJSON 200 (Some (json_grouped g)), w\<lparr>db := d'\<rparr>)" "tbl d' = tbl (db w)"
    "\<forall>q x. map_get 0 x (map_get [] q g) = int (length (filter (\<lambda>j. Queue j = q \<and> Status j = x) (table_jobs (tbl (db w)))))"
    by auto
  with 1 show ?thesis
    by (intro exI [of _ m] exI [of _ g] exI [of _ "w\<lparr>db := d\<rparr>"] exI [of _ "w\<lparr>db := d'\<rparr>"]) (simp add: small)
qed

theorem stats_count_jobs_witness:
  "\<exists>m w'. run_state (api_GetStats demo_api (job_request 0)) api_world = (writeJSON 200 (Some (json_counts m)), w') \<and>
     map_get 0 ''dead'' m = 1 \<and> map_get 0 ''pending'' m = 1 \<and> map_get 0 ''running'' m = 0"
proof -
  have "length (table_jobs (m_tbl (db api_world))) < 2 ^ 63" by (simp add: api_jobs_def)
  from stats_count_jobs [OF mema.api_services_axioms api_world_up this, of "job_request 0"]
  obtain m w' where "run_state (api_GetStats demo_api (job_request 0)) api_world = (writeJSON 200 (Some (json_counts m)), w')"
    "\<forall>x. map_get 0 x m = int (length (filter (\<lambda>j. Status j = x) api_jobs))" by auto
  then show ?thesis
    by (intro exI [of _ m] exI [of _ w']) (simp add: api_jobs_def demo_job_def go_const)
qed

end
