(* ===== verification/DashboardRun.thy ===== *)
theory DashboardRun
  imports Dashboard ApiProperties
begin

text \<open>
  The dashboard over the servers, and the properties of what is served without a key.
\<close>

section \<open>Reading changes nothing\<close>

text \<open>A state with the same table, the same Redis, the same metrics and the same clock.\<close>

definition same_data :: "('d \<Rightarrow> table) \<Rightarrow> ('d, 'r) world \<Rightarrow> ('d, 'r) world \<Rightarrow> bool" where
  "same_data tbl v w \<longleftrightarrow> tbl (db w) = tbl (db v) \<and> rds w = rds v \<and> met w = met v \<and> clk w = clk v"

named_theorems reads \<open>programs that read only\<close>

lemma reads_ret [reads]: "preserves (same_data tbl v) (ret a)"
  by (rule valid_ret)

lemma reads_clock [reads]: "preserves (same_data tbl v) time_Now"
  by (auto intro!: validI simp: run_time_Now same_data_def)

context storage
begin

lemma reads_row: "is_select q \<Longrightarrow> preserves (same_data tbl v) (db_call (QueryRow (pool s) q as))"
  by (auto intro!: validI simp: run_db_call same_data_def split: prod.splits) (metis row_select)

lemma reads_query: "is_select q \<Longrightarrow> preserves (same_data tbl v) (db_call (Query (pool s) q as))"
  by (auto intro!: validI simp: run_db_call same_data_def split: prod.splits) (metis query_select)

lemma reads_ping: "preserves (same_data tbl v) (db_call (Ping (pool s)))"
  by (auto intro!: validI simp: run_db_call same_data_def split: prod.splits) (metis ping_tbl)

lemma reads_GetJob [reads]: "preserves (same_data tbl v) (GetJob s i)"
  unfolding GetJob_def by (intro preserves_bind reads_row reads_ret) (simp add: select_job_sql_def)

lemma reads_ListJobs [reads]: "preserves (same_data tbl v) (ListJobs s f)"
  unfolding ListJobs_def Let_def
  by (auto intro!: preserves_bind reads_row reads_query reads_ret split: prod.splits sum.splits list.splits val.splits simp: list_sql_def)

lemma reads_GetQueueStats [reads]: "preserves (same_data tbl v) (GetQueueStats s)"
  unfolding GetQueueStats_def by (intro preserves_bind reads_query reads_ret) simp

lemma reads_GetTimeSeries [reads]: "preserves (same_data tbl v) (GetTimeSeries s d i)"
  unfolding GetTimeSeries_def by (intro preserves_bind reads_query reads_ret) (simp add: time_series_sql_def)

lemma reads_fragments [reads]:
  assumes "tr_store t = s"
  shows "preserves (same_data tbl v) (RenderStatsFragment t)" "preserves (same_data tbl v) (RenderJobListFragment t f k)"
    "preserves (same_data tbl v) (RenderJobDetailFragment t i)" "preserves (same_data tbl v) (RenderDLQFragment t k)"
    "preserves (same_data tbl v) (buildChartData t)" "preserves (same_data tbl v) (RenderChartDataFragment t)"
  unfolding RenderStatsFragment_def RenderJobListFragment_def RenderJobDetailFragment_def RenderDLQFragment_def
    RenderChartDataFragment_def buildChartData_def assms
  by (intro preserves_bind reads)+

lemma reads_handlers [reads]:
  assumes "tr_store t = s"
  shows "preserves (same_data tbl v) (DashboardPageHandler t s k r)" "preserves (same_data tbl v) (JobListHandler t k r)"
    "preserves (same_data tbl v) (JobDetailHandler L t r)" "preserves (same_data tbl v) (DLQHandler t k r)"
    "preserves (same_data tbl v) (HealthHandler r)" "preserves (same_data tbl v) (ReadyHandler b s r)"
  unfolding DashboardPageHandler_def JobListHandler_def JobDetailHandler_def DLQHandler_def HealthHandler_def ReadyHandler_def Let_def
  by (auto intro!: preserves_bind preserves_option reads_ping reads assms split: prod.splits)

text \<open>Whatever is not behind the key reads only.\<close>

lemma reads_open_route:
  assumes "tr_store t = s" "h_store h = s" "(m, pat, e, False) \<in> set routes"
    and "\<And>e r. preserves (same_data tbl v) (rest e r)"
  shows "preserves (same_data tbl v) (endpoint_handler L h isLeader (dashboard_endpoint L t s key rest) e r)"
  using assms(3) reads_handlers [OF assms(1), of v] assms(2,4)
  by (auto simp: routes_def open_routes_def)

lemma reads_logger:
  assumes "preserves (same_data tbl v) (f r)"
  shows "preserves (same_data tbl v) (RequestLogger f r)"
  unfolding RequestLogger_def using assms by (intro preserves_bind reads)

lemma reads_without_key:
  assumes "tr_store t = s" "h_store h = s" "rt \<in> set routes" "Header r ''X-API-Key'' \<noteq> key"
    and "\<And>e r. preserves (same_data tbl v) (rest e r)"
  shows "preserves (same_data tbl v) (serve_route L h key isLeader (dashboard_endpoint L t s key rest) rt r)"
proof -
  obtain m pat e a where rt: "rt = (m, pat, e, a)" by (metis prod_cases4)
  show ?thesis
  proof (cases a)
    case True
    have "preserves (same_data tbl v) (APIKeyAuth key f r)" for f
      using assms(4) by (simp add: APIKeyAuth_def reads_ret)
    with True show ?thesis unfolding rt serve_route_def by (simp add: reads_logger)
  next
    case False
    with assms(3) rt reads_open_route [OF assms(1,2) _ assms(5)] show ?thesis
      unfolding rt serve_route_def by (auto intro!: reads_logger)
  qed
qed

end

section \<open>Properties\<close>

text \<open>C26.
  Without the key nothing stored changes.  Whatever route a request without the right key takes,
  and whichever calls to the database fail, the table, Redis and the metrics are afterwards as
  they were; on every route under \<^verbatim>\<open>/api/v1\<close> the answer is 401 and no server is called.
\<close>

theorem no_key_no_change:
  assumes "storage st tbl env up" "tr_store t = st" "h_store h = st"
    and "\<forall>v e r. preserves (same_data tbl v) (rest e r)"
    and "(m, pat, e, a) \<in> set routes" "Header r ''X-API-Key'' \<noteq> key"
    and "run_state (serve_route L h key isLeader (dashboard_endpoint L t st key rest) (m, pat, e, a) r) w = (x, w')"
  shows "tbl (db w') = tbl (db w) \<and> rds w' = rds w \<and> met w' = met w \<and>
         (take 7 pat = ''/api/v1'' \<longrightarrow> x = writeError 401 ''invalid or missing API key'' \<and> db w' = db w)"
proof -
  have "preserves (same_data tbl w) (serve_route L h key isLeader (dashboard_endpoint L t st key rest) (m, pat, e, a) r)"
    using storage.reads_without_key [OF assms(1-3,5,6), of w rest] assms(4) by blast
  then have "same_data tbl w w'" using assms(7) by (auto dest!: validD [where s = w] simp: same_data_def)
  moreover have "x = writeError 401 ''invalid or missing API key'' \<and> db w' = db w" if "take 7 pat = ''/api/v1''"
  proof -
    have "a" using assms(5) that by (auto simp: routes_def open_routes_def)
    then show ?thesis
      using assms(6,7) by (auto simp: serve_route_def RequestLogger_def APIKeyAuth_def run_time_Now)
  qed
  ultimately show ?thesis by (simp add: same_data_def)
qed

text \<open>A template that prints the key of the page, and nothing else.\<close>

definition key_tmpl :: "string \<Rightarrow> template_data \<Rightarrow> string \<times> string option" where
  "key_tmpl name d = (case d of TPage p \<Rightarrow> dd_APIKey p | _ \<Rightarrow> [], None)"

definition demo_renderer :: "pgmem TemplateRenderer" where
  "demo_renderer = NewTemplateRenderer key_tmpl (\<lambda>_. 0) mem_store ''secret''"

theorem no_key_no_change_witness:
  "\<exists>x w'. run_state (serve_route canon_lib demo_api ''secret'' True
       (dashboard_endpoint canon_lib demo_renderer mem_store ''secret'' (\<lambda>_. HealthHandler))
       (Some DELETE, ''/api/v1/jobs/{id}'', EDeleteJob, True) (job_request 2)) api_world = (x, w') \<and>
     table_jobs (m_tbl (db w')) = api_jobs \<and> x = writeError 401 ''invalid or missing API key''"
proof -
  let ?rt = "(Some DELETE, ''/api/v1/jobs/{id}'', EDeleteJob, True)"
  obtain x w' where r: "run_state (serve_route canon_lib demo_api ''secret'' True
       (dashboard_endpoint canon_lib demo_renderer mem_store ''secret'' (\<lambda>_. HealthHandler)) ?rt (job_request 2)) api_world = (x, w')"
    by force
  have "\<forall>v e r. preserves (same_data m_tbl v) (HealthHandler r)" by (simp add: HealthHandler_def reads_ret)
  then have "m_tbl (db w') = m_tbl (db api_world) \<and> x = writeError 401 ''invalid or missing API key''"
    using no_key_no_change [OF memst.storage_axioms _ _ _ _ _ r]
    by (auto simp: demo_renderer_def NewTemplateRenderer_def demo_api_def NewHandler_def routes_def api_routes_def)
  with r show ?thesis by (intro exI [of _ x] exI [of _ w']) simp
qed

text \<open>
  The dashboard gives the key away.  The page is served to everyone, and the data its template is
  filled with contains the API key: what any request without a key receives is the template's
  rendering of that data.
\<close>

lemma dashboard_exposes_key:
  "\<exists>data w'. dd_APIKey data = key \<and> jl_APIKey (dd_JobListData data) = key \<and>
     run_state (serve_route L h key isLeader (dashboard_endpoint L t st key rest) (Some GET, ''/dashboard'', EDashboard, False) r) w =
       (page_response (tr_tmpl t ''layout.html'' (TPage data)), w')"
proof -
  obtain x w1 where 1: "run_state (ListJobs st first_page) (w\<lparr>ticks := Suc (ticks w)\<rparr>) = (x, w1)" by force
  obtain y w2 where 2: "run_state (ListJobs st dead_filter) w1 = (y, w2)" by force
  obtain q w3 where 3: "run_state (GetQueueStats st) w2 = (q, w3)" by force
  obtain c w4 where 4: "run_state (buildChartData t) w3 = (c, w4)" by force
  show ?thesis
    by (intro exI [of _ "page_data key x y q c"] exI [of _ "w4\<lparr>ticks := Suc (ticks w4)\<rparr>"])
       (simp add: serve_route_def RequestLogger_def DashboardPageHandler_def run_time_Now page_data_def Let_def 1 2 3 4 split: prod.split)
qed

text \<open>
  The chart.  Whatever rows the time series has, as long as the sums are of 64 bits, the chart
  has one label for every minute that occurs, in the order in which they first occur, and beside
  each label the sum of the counts of its rows, for each of the three statuses.
\<close>

lemma chart_sums_rows:
  assumes "\<forall>l st. in_int64 (label_sum zone stats l st)"
  shows "chart_of zone stats = chart_spec zone stats"
  using assms by (intro chart_of_spec) blast

lemma chart_sums_rows_witness:
  "chart_of (\<lambda>_. 3600)
     [\<lparr>ts_Bucket = 0, ts_Status = ''completed'', ts_Count = 2\<rparr>, \<lparr>ts_Bucket = 60 * time_Second, ts_Status = ''failed'', ts_Count = 1\<rparr>,
      \<lparr>ts_Bucket = 86400 * time_Second, ts_Status = ''completed'', ts_Count = 5\<rparr>] =
   \<lparr>ch_Labels = [''01:00'', ''01:01''], ch_Completed = [7, 0], ch_Failed = [0, 1], ch_Dead = [0, 0]\<rparr>"
proof -
  let ?stats = "[\<lparr>ts_Bucket = 0, ts_Status = ''completed'', ts_Count = 2\<rparr>, \<lparr>ts_Bucket = 60 * time_Second, ts_Status = ''failed'', ts_Count = 1\<rparr>,
      \<lparr>ts_Bucket = 86400 * time_Second, ts_Status = ''completed'', ts_Count = 5\<rparr>]"
  have h: "Format_hm (\<lambda>_. 3600) 0 = ''01:00''" "Format_hm (\<lambda>_. 3600) (60 * time_Second) = ''01:01''"
    "Format_hm (\<lambda>_. 3600) (86400 * time_Second) = ''01:00''"
    by code_simp+
  have "\<forall>l st. in_int64 (label_sum (\<lambda>_. 3600) ?stats l st)" by (simp add: label_sum_def in_int64_def)
  from chart_sums_rows [OF this] show ?thesis
    by (simp add: chart_spec_def first_occs_def label_sum_def h)
qed

end
