(* ===== verification/SchedulerRun.thy ===== *)
theory SchedulerRun
  imports Scheduler WorkerPool
begin

text \<open>
  The scheduler over the two servers: the properties of its ticks, with the services up and
  when calls fail, and the invariant of its start and stop.
\<close>

locale scheduler_services =
  st: storage "sc_store s" tbl env up +
  rq: redis_queue "sc_queue s" ks pub rup +
  rc: redis "sc_redisClient s" ks pub rup +
  uuid_codec L
  for s :: "('d, 'r) Scheduler" and tbl :: "'d \<Rightarrow> table" and env up
    and ks :: "'r \<Rightarrow> keyspace" and pub rup and L :: lib

sublocale scheduler_services \<subseteq>
  sch: scheduler_env s "\<lambda>d. table_jobs (tbl d)" "\<lambda>d. schema_ok (tbl d)" up "\<lambda>d. ts_in (env d)" ks pub rup L
  by (intro scheduler_env.intro st.recovery.recovery_store_axioms rq.queue.task_queue_axioms
            rc.bus.event_bus_axioms uuid_codec_axioms)

context scheduler_services
begin

lemma as_scheduler_env:
  "scheduler_env s (\<lambda>d. table_jobs (tbl d)) (\<lambda>d. schema_ok (tbl d)) up (\<lambda>d. ts_in (env d)) ks pub rup L"
  by (rule sch.scheduler_env_axioms)

end

context scheduler_env
begin

lemma processScheduledJobs_safe:
  assumes "ok (db w)" "ks_ok (ks (rds w))" "in_int64 (Unix (clk w (ticks w)))"
    and "run_state (processScheduledJobs L s) w = ((), w')"
  defines "h \<equiv> f64_int (Unix (clk w (ticks w)))"
  shows "ok (db w') \<and> ks_ok (ks (rds w')) \<and>
         (sched (ks (rds w')) = sched (ks (rds w)) \<or>
          sched (ks (rds w')) = (\<lambda>m. case sched (ks (rds w)) m of None \<Rightarrow> None | Some t \<Rightarrow> if t \<le> h then None else Some t)) \<and>
         may_requeue {i. \<exists>sid\<in>set (due_members h (ks (rds w))). uuid_Parse L sid = Some i} (jobs (db w)) (jobs (db w')) \<and>
         (\<exists>vs. subseq vs (due_pushes L (jobs (db w)) (due_members h (ks (rds w)))) \<and>
               waiting (ks (rds w')) = push_all vs (waiting (ks (rds w))))"
proof -
  let ?w = "w\<lparr>ticks := Suc (ticks w)\<rparr>" and ?now = "clk w (ticks w)"
  obtain z w1 where g: "run_state (GetDueJobs (sc_queue s) ?now) ?w = (z, w1)" by force
  obtain r where r: "w1 = ?w\<lparr>rds := r\<rparr>" "waiting (ks r) = waiting (ks (rds w))" "ks_ok (ks r)"
    "(\<exists>e. z = Inl e) \<and> sched (ks r) = sched (ks (rds w)) \<or>
     (\<forall>vs. z = Inr vs \<longrightarrow> vs = due_members h (ks (rds w))) \<and>
     sched (ks r) = (\<lambda>m. case sched (ks (rds w)) m of None \<Rightarrow> None | Some t \<Rightarrow> if t \<le> h then None else Some t)"
    using Q.due_run [OF g assms(3)] assms(2) unfolding h_def by auto
  show ?thesis
  proof (cases z)
    case (Inl e)
    then have "w' = w1" using assms(4) g by (simp add: processScheduledJobs_def run_time_Now)
    with r assms(1) show ?thesis using may_requeue_refl by (auto intro: exI [of _ "[]"])
  next
    case (Inr vs)
    with r have vs: "vs = due_members h (ks (rds w))" by auto
    have "run_state (for_each vs (enqueue_due L s)) w1 = ((), w')"
      using assms(4) g Inr by (simp add: processScheduledJobs_def run_time_Now)
    moreover have "ok (db w1)" using r assms(1) by simp
    ultimately have "tick_safe {i. \<exists>sid\<in>set vs. uuid_Parse L sid = Some i} vs w1 w'"
      by (intro enqueue_all_safe)
    with r Inr vs show ?thesis by (simp add: tick_safe_def)
  qed
qed

end

section \<open>Start and stop\<close>

definition ctl_ok :: "sched_ctl \<Rightarrow> ('d, 'r) world \<Rightarrow> bool" where
  "ctl_ok c w \<longleftrightarrow>
     distinct (loops c) \<and> (\<not> running c \<longrightarrow> loops c = []) \<and> (stopping c \<longrightarrow> running c \<and> ctx_done c) \<and>
     gauge SchedulerActive (met w) = (if running c then 1 else 0)"

text \<open>The work of a tick makes no metric call and does not set the clock.\<close>

lemma met_calls:
  "preserves (\<lambda>w. met w = m \<and> clk w = c) (db_call f)" "preserves (\<lambda>w. met w = m \<and> clk w = c) (rds_call g)" "preserves (\<lambda>w. met w = m \<and> clk w = c) time_Now"
  by (auto simp: valid_def run_db_call run_rds_call run_time_Now split: prod.splits)

lemma met_ops:
  "preserves (\<lambda>w. met w = m \<and> clk w = c) (GetJob st i)" "preserves (\<lambda>w. met w = m \<and> clk w = c) (UpdateJobStatus st i x)"
  "preserves (\<lambda>w. met w = m \<and> clk w = c) (UpdateJobError st i x n e)" "preserves (\<lambda>w. met w = m \<and> clk w = c) (jobs_query v st q as)"
  "preserves (\<lambda>w. met w = m \<and> clk w = c) (Push rq k l)" "preserves (\<lambda>w. met w = m \<and> clk w = c) (GetDueJobs rq t)"
  "preserves (\<lambda>w. met w = m \<and> clk w = c) (PublishJobEvent rc ev)"
  unfolding GetJob_def UpdateJobStatus_def UpdateJobError_def jobs_query_def Push_def GetDueJobs_def
    PublishJobEvent_def Let_def
  by (intro preserves_intros met_calls)+

lemma met_enqueue: "preserves (\<lambda>w. met w = m \<and> clk w = c) (enqueue_due L s sid)"
  unfolding enqueue_due_def sc_publishEvent_def by (intro preserves_intros met_ops)

lemma met_tick: "preserves (\<lambda>w. met w = m \<and> clk w = c) (tick_body L s l)"
  by (cases l; simp only: tick_body.simps processScheduledJobs_def recoverUnqueuedJobs_def recoverStaleJobs_def
        sc_publishEvent_def GetPendingUnqueued_def GetStaleRunningJobs_def;
      intro preserves_intros met_calls met_ops met_enqueue)

lemma sched_step_ctl:
  assumes "sched_step L s x y" "ctl_ok (fst x) (snd x)"
  shows "ctl_ok (fst y) (snd y)"
  using assms
proof (induction rule: sched_step.induct)
  case (start c w c' w')
  then show ?case
    by (auto simp: sc_Start_def run_metric_do ctl_ok_def gauge_append split: if_splits)
next
  case (stop_begin c w)
  then show ?case by (simp add: sc_Stop_begin_def ctl_ok_def)
next
  case (stop_end c w c' w')
  then show ?case by (auto simp: sc_Stop_end_def run_metric_do ctl_ok_def gauge_append)
next
  case (tick l c w w')
  then have "met w' = met w" using validD [OF met_tick, of w "met w" "clk w"] by blast
  with tick show ?case by (simp add: ctl_ok_def)
next
  case (parent_done c w)
  then show ?case by (simp add: ctl_ok_def)
next
  case (leave l c w)
  then show ?case by (auto simp: ctl_ok_def)
qed

section \<open>An instance in memory\<close>

definition demo_sched :: "(pgmem, rmem) Scheduler" where
  "demo_sched = Scheduler_New mem_store mem_queue (30 * time_Second) rmem_client"

lemma demo_sched_simps [simp]:
  "sc_store demo_sched = mem_store" "sc_queue demo_sched = mem_queue" "sc_redisClient demo_sched = rmem_client"
  "sc_jobTimeout demo_sched = 30 * time_Second"
  by (simp_all add: demo_sched_def Scheduler_New_def)

interpretation mems: scheduler_services demo_sched m_tbl mem_env mem_up r_ks r_pub rmem_up canon_lib
  unfolding scheduler_services_def
  by (simp add: memst.storage_axioms memq.redis_queue_axioms rmem.redis_axioms canon.uuid_codec_axioms)

text \<open>An hour after the epoch: one job retrying and due, one pending, one running for too long.\<close>

definition tick_jobs :: "Job list" where
  "tick_jobs = [(demo_job 1 ''good'' 1)\<lparr>Status := StatusRetrying\<rparr>, demo_job 2 ''bad'' 0,
                (demo_job 3 ''bad'' 0)\<lparr>Status := StatusRunning, StartedAt := Some 0\<rparr>]"

definition tick_ks :: keyspace where
  "tick_ks = \<lparr>lists = (\<lambda>k. []), zsets = (\<lambda>k. if k = scheduledSetKey then [(canon_String 1, 10)] else [])\<rparr>"

definition tick_world :: "(pgmem, rmem) world" where
  "tick_world =
     \<lparr>db = demo_pg\<lparr>m_tbl := map row_of tick_jobs\<rparr>,
      rds = \<lparr>r_ks = tick_ks, r_pub = [], r_faults = []\<rparr>, clk = (\<lambda>n. 3600 * time_Second), ticks = 0,
      met = [], cancelled = False\<rparr>"

lemma tick_jobs_ok: "jobs_ok tick_jobs"
  by (simp add: jobs_ok_def tick_jobs_def demo_job_def job_ok_def utf8_length_def in_int4_def go_const)

lemma tick_ks_ok: "ks_ok tick_ks"
  by (simp add: ks_ok_def tick_ks_def)

lemma tick_world_up: "services_up (\<lambda>d. schema_ok (m_tbl d)) mem_up r_ks rmem_up tick_world"
  using tick_ks_ok
  by (simp add: services_up_def tick_world_def demo_pg_def schema_ok_rows tick_jobs_ok mem_up_def rmem_up_def
                sane_clock_def year_ok_def time_Second_def)

lemma tick_table [simp]: "table_jobs (m_tbl (db tick_world)) = tick_jobs"
  by (simp add: tick_world_def)

lemma tick_due: "due_members (f64_int (Unix (clk tick_world (ticks tick_world)))) (r_ks (rds tick_world)) = [canon_String 1]"
proof -
  have "f64_int 3600 = 3600" by (rule f64_int_exact) simp
  moreover have "Unix (clk tick_world (ticks tick_world)) = 3600"
    by (simp add: tick_world_def Unix_def time_Second_def)
  ultimately show ?thesis by (simp add: due_members_def tick_world_def tick_ks_def)
qed

section \<open>Properties of the scheduler\<close>

text \<open>C13.
  The scheduled tick.  With the services up, exactly the entries whose time has come leave the
  schedule; each that names a stored job is appended to the queue of that job, in the order of
  their times; a job that was retrying becomes pending, no other job changes.
\<close>

theorem scheduled_tick:
  assumes "scheduler_services s tbl env up ks pub rup L"
    and "services_up (\<lambda>d. schema_ok (tbl d)) up ks rup w" "h = f64_int (Unix (clk w (ticks w)))"
  shows "\<exists>w'. run_state (processScheduledJobs L s) w = ((), w') \<and>
           waiting (ks (rds w')) =
             push_all (due_pushes L (table_jobs (tbl (db w))) (due_members h (ks (rds w)))) (waiting (ks (rds w))) \<and>
           set (due_members h (ks (rds w))) = {m. \<exists>t. sched (ks (rds w)) m = Some t \<and> t \<le> h} \<and>
           sorted (map (\<lambda>m. the (sched (ks (rds w)) m)) (due_members h (ks (rds w)))) \<and>
           sched (ks (rds w')) = (\<lambda>m. case sched (ks (rds w)) m of None \<Rightarrow> None | Some t \<Rightarrow> if t \<le> h then None else Some t) \<and>
           requeued {i. \<exists>sid\<in>set (due_members h (ks (rds w))). uuid_Parse L sid = Some i}
             (table_jobs (tbl (db w))) (table_jobs (tbl (db w')))"
proof -
  have "ks_ok (ks (rds w))" using assms(2) by (simp add: services_up_def)
  with scheduler_env.processScheduledJobs_serving [OF scheduler_services.as_scheduler_env [OF assms(1)] assms(2)]
    set_due_members sorted_due_members
  show ?thesis unfolding assms(3) by blast
qed

theorem scheduled_tick_witness:
  "\<exists>w'. run_state (processScheduledJobs canon_lib demo_sched) tick_world = ((), w') \<and>
        waiting (r_ks (rds w')) ''default'' = [canon_String 1] \<and> requeued {1} tick_jobs (table_jobs (m_tbl (db w')))"
proof -
  have "waiting (r_ks (rds tick_world)) ''default'' = []"
    by (simp add: tick_world_def tick_ks_def waiting_def)
  moreover have "due_pushes canon_lib tick_jobs [canon_String 1] = [(''default'', canon_String 1)]"
    by (simp add: due_pushes_def due_job_def map_filter_simps tick_jobs_def look_def demo_job_def)
  moreover have "{i. uuid_Parse canon_lib (canon_String 1) = Some i} = {1}" by auto
  ultimately show ?thesis
    using scheduled_tick [OF mems.scheduler_services_axioms tick_world_up refl]
    by (auto simp: tick_due push_all_def)
qed

text \<open>C17.
  The scheduled tick when calls fail.  Whatever fails, the table and the schedule stay
  well-formed, the schedule loses all due entries or none, the queues only grow, by pushes of
  due entries that name a stored job, at most one for each and in their order, and only
  retrying jobs among them change, to pending.
\<close>

theorem scheduled_tick_at_most_once:
  assumes "scheduler_services s tbl env up ks pub rup L"
    and "schema_ok (tbl (db w))" "ks_ok (ks (rds w))" "in_int64 (Unix (clk w (ticks w)))"
    and "h = f64_int (Unix (clk w (ticks w)))" "w' = exec (processScheduledJobs L s) w"
  shows "schema_ok (tbl (db w')) \<and> ks_ok (ks (rds w')) \<and>
         (sched (ks (rds w')) = sched (ks (rds w)) \<or>
          sched (ks (rds w')) = (\<lambda>m. case sched (ks (rds w)) m of None \<Rightarrow> None | Some t \<Rightarrow> if t \<le> h then None else Some t)) \<and>
         may_requeue {i. \<exists>sid\<in>set (due_members h (ks (rds w))). uuid_Parse L sid = Some i}
           (table_jobs (tbl (db w))) (table_jobs (tbl (db w'))) \<and>
         distinct (due_members h (ks (rds w))) \<and>
         (\<exists>vs. subseq vs (due_pushes L (table_jobs (tbl (db w))) (due_members h (ks (rds w)))) \<and>
               waiting (ks (rds w')) = push_all vs (waiting (ks (rds w))))"
proof -
  have "run_state (processScheduledJobs L s) w = ((), w')"
    using assms(6) by (simp add: exec_def prod_eq_iff)
  from scheduler_env.processScheduledJobs_safe [OF scheduler_services.as_scheduler_env [OF assms(1)] assms(2-4) this]
    distinct_due_members [OF assms(3)]
  show ?thesis unfolding assms(5) by simp
qed

definition refused_world :: "(pgmem, rmem) world" where
  "refused_world = tick_world\<lparr>rds := (rds tick_world)\<lparr>r_faults := [ROk, RRefuse ''down'']\<rparr>\<rparr>"

theorem scheduled_tick_at_most_once_witness:
  "\<exists>vs. subseq vs (due_pushes canon_lib tick_jobs [canon_String 1]) \<and>
        waiting (r_ks (rds (exec (processScheduledJobs canon_lib demo_sched) refused_world))) =
          push_all vs (waiting tick_ks)"
proof -
  have "schema_ok (m_tbl (db refused_world))" "ks_ok (r_ks (rds refused_world))"
    "table_jobs (m_tbl (db refused_world)) = tick_jobs" "r_ks (rds refused_world) = tick_ks"
    by (simp_all add: refused_world_def tick_world_def schema_ok_rows tick_jobs_ok tick_ks_ok)
  moreover have "in_int64 (Unix (clk refused_world (ticks refused_world)))"
    by (simp add: refused_world_def tick_world_def in_int64_def Unix_def time_Second_def)
  moreover have "due_members (f64_int (Unix (clk refused_world (ticks refused_world)))) tick_ks = [canon_String 1]"
    using tick_due by (simp add: refused_world_def tick_world_def)
  ultimately show ?thesis
    using scheduled_tick_at_most_once [OF mems.scheduler_services_axioms _ _ _ refl refl, of refused_world] by simp
qed

text \<open>C37.
  A job can be lost.  The due entries leave the schedule before they are pushed: if the push is
  refused, a retrying job is afterwards neither in the schedule nor in any queue, and, not
  being pending, it is not a job the recovery query selects.
\<close>

theorem scheduled_tick_can_lose:
  "let w' = exec (processScheduledJobs canon_lib demo_sched) refused_world in
     sched (r_ks (rds refused_world)) (canon_String 1) = Some 10 \<and>
     sched (r_ks (rds w')) = Map.empty \<and> (\<forall>q. waiting (r_ks (rds w')) q = []) \<and>
     map_option Status (look (table_jobs (m_tbl (db w'))) 1) = Some StatusRetrying"
proof -
  define r1 where "r1 = \<lparr>r_ks = tick_ks\<lparr>zsets := (zsets tick_ks)(scheduledSetKey := [])\<rparr>, r_pub = [],
                          r_faults = [RRefuse ''down'']\<rparr>"
  have now: "in_int64 3600" "f64_int 3600 = 3600"
    by (simp add: in_int64_def, rule f64_int_exact, simp)
  have script: "getDueJobsScript [scheduledSetKey] [fmt_d 3600] tick_ks =
      Some ([canon_String 1], tick_ks\<lparr>zsets := (zsets tick_ks)(scheduledSetKey := [])\<rparr>)"
    using script_due [OF now(1), of tick_ks] tick_due
    by (simp add: now(2) due_members_def tick_ks_def)
  have due: "run_state (GetDueJobs mem_queue (3600 * time_Second)) (refused_world\<lparr>ticks := 1\<rparr>) =
      (Inr [canon_String 1], refused_world\<lparr>ticks := 1, rds := r1\<rparr>)"
    using script
    by (simp add: GetDueJobs_def run_rds_call mem_queue_def rmem_defs refused_world_def tick_world_def Unix_def
                  time_Second_def r1_def)
  have j: "look tick_jobs 1 = Some ((demo_job 1 ''good'' 1)\<lparr>Status := StatusRetrying\<rparr>)"
    by (simp add: look_def tick_jobs_def)
  let ?w1 = "refused_world\<lparr>ticks := 1, rds := r1\<rparr>"
  have "schema_ok (m_tbl (db ?w1))" "mem_up (db ?w1)" "look (table_jobs (m_tbl (db ?w1))) 1 = Some ((demo_job 1 ''good'' 1)\<lparr>Status := StatusRetrying\<rparr>)"
    by (simp_all add: refused_world_def tick_world_def schema_ok_rows tick_jobs_ok mem_up_def demo_pg_def j)
  then obtain d' where get: "run_state (GetJob mem_store 1) ?w1 =
      (Inr ((demo_job 1 ''good'' 1)\<lparr>Status := StatusRetrying\<rparr>), ?w1\<lparr>db := d'\<rparr>)"
    "table_jobs (m_tbl d') = table_jobs (m_tbl (db ?w1))"
    by (rule memst.store.get_exact)
  have push: "run_state (Push mem_queue ''default'' (canon_String 1)) (?w1\<lparr>db := d'\<rparr>) =
      (Some ''down'', ?w1\<lparr>db := d', rds := r1\<lparr>r_faults := []\<rparr>\<rparr>)"
    by (simp add: Push_def run_rds_call mem_queue_def rmem_defs r1_def)
  have "exec (processScheduledJobs canon_lib demo_sched) refused_world = ?w1\<lparr>db := d', rds := r1\<lparr>r_faults := []\<rparr>\<rparr>"
    using due get(1) push
    by (simp add: exec_def processScheduledJobs_def run_time_Now enqueue_due_def refused_world_def tick_world_def)
  moreover have "table_jobs (m_tbl d') = tick_jobs"
    using get(2) by (simp add: refused_world_def tick_world_def)
  ultimately show ?thesis
    by (simp add: Let_def j r1_def sched_def waiting_def refused_world_def tick_world_def tick_ks_def)
qed

text \<open>C18.
  The recovery tick.  With the services up, it changes no job and no schedule entry; it
  appends to their queues the identifiers of the first 100, by age, of the jobs that are
  pending, have no run time and are older than five seconds.
\<close>

theorem recovery_tick:
  assumes "scheduler_services s tbl env up ks pub rup L" "services_up (\<lambda>d. schema_ok (tbl d)) up ks rup w"
  shows "\<exists>js' w'. mset js' = mset (table_jobs (tbl (db w))) \<and> run_state (recoverUnqueuedJobs L s) w = ((), w') \<and>
           table_jobs (tbl (db w')) = table_jobs (tbl (db w)) \<and> sched (ks (rds w')) = sched (ks (rds w)) \<and>
           services_up (\<lambda>d. schema_ok (tbl d)) up ks rup w' \<and>
           waiting (ks (rds w')) = push_all (map (\<lambda>j. (Queue j, uuid_String L (ID j)))
             (take 100 (sort_key CreatedAt
                (filter (pending_before (ts_in (env (db w)) (clk w (ticks w) - 5 * time_Second))) js')))) (waiting (ks (rds w)))"
  using scheduler_env.recoverUnqueuedJobs_serving [OF scheduler_services.as_scheduler_env [OF assms(1)] assms(2)]
  by blast

lemma set_take_sort: "length xs \<le> n \<Longrightarrow> set (take n (sort_key f (filter P xs))) = {x \<in> set xs. P x}"
  using le_trans [OF length_filter_le [of P xs]] by simp

lemma count_list_pos: "x \<in> set xs \<Longrightarrow> 0 < count_list xs x"
  by (induction xs) auto

lemma tick_pending: "mset js = mset tick_jobs \<Longrightarrow> t = 3595 * time_Second \<Longrightarrow>
    filter (pending_before t) js = [demo_job 2 ''bad'' 0]"
proof -
  assume m: "mset js = mset tick_jobs" and t: "t = 3595 * time_Second"
  have "filter (pending_before t) tick_jobs = [demo_job 2 ''bad'' 0]"
    by (simp add: tick_jobs_def pending_before_def demo_job_def go_const t)
  then have "mset (filter (pending_before t) js) = {#demo_job 2 ''bad'' 0#}"
    using m by (metis mset_filter mset.simps(1,2))
  then show ?thesis by (metis mset_single_iff_right)
qed

theorem recovery_tick_witness:
  "\<exists>w'. run_state (recoverUnqueuedJobs canon_lib demo_sched) tick_world = ((), w') \<and>
        waiting (r_ks (rds w')) ''default'' = [canon_String 2]"
proof -
  have "waiting (r_ks (rds tick_world)) ''default'' = []" by (simp add: tick_world_def tick_ks_def waiting_def)
  moreover have "ts_in (mem_env (db tick_world)) (clk tick_world (ticks tick_world) - 5 * time_Second) = 3595 * time_Second"
    by (simp add: tick_world_def mem_env_def time_Second_def)
  ultimately show ?thesis
    using recovery_tick [OF mems.scheduler_services_axioms tick_world_up]
    by (auto simp: tick_pending push_all_def)
qed

text \<open>
  Recovery duplicates.  The query does not look at the queues: if nothing takes a pending job
  between two recovery ticks, and the job is among the first 100 at both, the second tick
  appends its identifier to its queue once more.
\<close>

lemma recovery_tick_duplicates:
  assumes "scheduler_services s tbl env up ks pub rup L" "services_up (\<lambda>d. schema_ok (tbl d)) up ks rup w"
    and "j \<in> set (table_jobs (tbl (db w)))" "Status j = StatusPending" "RunAt j = None"
    and "length (table_jobs (tbl (db w))) \<le> 100"
    and "\<forall>d n. CreatedAt j < ts_in (env d) (clk w n - 5 * time_Second)"
  shows "let w2 = exec (recoverUnqueuedJobs L s) (exec (recoverUnqueuedJobs L s) w) in
           2 \<le> count_list (waiting (ks (rds w2)) (Queue j)) (uuid_String L (ID j))"
proof -
  note env = scheduler_services.as_scheduler_env [OF assms(1)]
  have one: "\<exists>v'. run_state (recoverUnqueuedJobs L s) v = ((), v') \<and> services_up (\<lambda>d. schema_ok (tbl d)) up ks rup v' \<and>
        table_jobs (tbl (db v')) = table_jobs (tbl (db w)) \<and> clk v' = clk w \<and>
        Suc (count_list (waiting (ks (rds v)) (Queue j)) (uuid_String L (ID j))) \<le>
          count_list (waiting (ks (rds v')) (Queue j)) (uuid_String L (ID j))"
    if v: "services_up (\<lambda>d. schema_ok (tbl d)) up ks rup v" "table_jobs (tbl (db v)) = table_jobs (tbl (db w))" "clk v = clk w"
    for v
  proof -
    let ?sel = "\<lambda>js'. take 100 (sort_key CreatedAt
        (filter (pending_before (ts_in (env (db v)) (clk v (ticks v) - 5 * time_Second))) js'))"
    obtain js' v' where r: "mset js' = mset (table_jobs (tbl (db v)))" "run_state (recoverUnqueuedJobs L s) v = ((), v')"
      "services_up (\<lambda>d. schema_ok (tbl d)) up ks rup v'" "table_jobs (tbl (db v')) = table_jobs (tbl (db v))"
      "waiting (ks (rds v')) = push_all (map (\<lambda>j. (Queue j, uuid_String L (ID j))) (?sel js')) (waiting (ks (rds v)))"
      using scheduler_env.recoverUnqueuedJobs_serving [OF env v(1)] by blast
    have "run_state (tick_body L s RecoveryLoop) v = ((), v')" using r(2) by simp
    then have clk: "clk v' = clk v" using validD [OF met_tick, of v "met v" "clk v"] by blast
    have "length js' \<le> 100" using r(1) v(2) assms(6) by (metis size_mset)
    then have "set (?sel js') = {x \<in> set js'. pending_before (ts_in (env (db v)) (clk v (ticks v) - 5 * time_Second)) x}"
      by (rule set_take_sort)
    moreover have "j \<in> set js'" using assms(3) v(2) mset_eq_setD [OF r(1)] by simp
    ultimately have "j \<in> set (?sel js')" using assms(4,5,7) v(3) by (simp add: pending_before_def)
    then have "uuid_String L (ID j) \<in> set (map snd (filter (\<lambda>p. fst p = Queue j) (map (\<lambda>j. (Queue j, uuid_String L (ID j))) (?sel js'))))"
      by force
    then have "0 < count_list (map snd (filter (\<lambda>p. fst p = Queue j) (map (\<lambda>j. (Queue j, uuid_String L (ID j))) (?sel js')))) (uuid_String L (ID j))"
      by (rule count_list_pos)
    with r clk v show ?thesis by (auto simp: push_all_def)
  qed
  obtain w1 where 1: "run_state (recoverUnqueuedJobs L s) w = ((), w1)" "services_up (\<lambda>d. schema_ok (tbl d)) up ks rup w1"
    "table_jobs (tbl (db w1)) = table_jobs (tbl (db w))" "clk w1 = clk w"
    "1 \<le> count_list (waiting (ks (rds w1)) (Queue j)) (uuid_String L (ID j))"
    using one [OF assms(2)] by fastforce
  from one [OF 1(2-4)] obtain w2 where "run_state (recoverUnqueuedJobs L s) w1 = ((), w2)"
    "2 \<le> count_list (waiting (ks (rds w2)) (Queue j)) (uuid_String L (ID j))"
    using 1(5) by fastforce
  then show ?thesis using 1(1) by (simp add: exec_def Let_def)
qed



text \<open>C20.
  Start and stop.  In every state the scheduler reaches from its creation, over any interleaving
  of starts, stops, ticks and cancelled contexts, no loop runs twice, no loop runs while it is
  not marked running, and the metric shows exactly whether it is marked running.
\<close>

theorem scheduler_start_stop:
  assumes "gauge SchedulerActive (met w) = 0" "(sched_step L s)\<^sup>*\<^sup>* (ctl_new, w) (c', w')"
  shows "distinct (loops c') \<and> (\<not> running c' \<longrightarrow> loops c' = []) \<and>
         gauge SchedulerActive (met w') = (if running c' then 1 else 0)"
proof -
  have "ctl_ok (fst x) (snd x)" if "(sched_step L s)\<^sup>*\<^sup>* (ctl_new, w) x" for x
    using that
  proof (induction rule: rtranclp_induct)
    case base
    show ?case using assms(1) by (simp add: ctl_ok_def ctl_new_def)
  next
    case (step y z)
    then show ?case using sched_step_ctl by blast
  qed
  from this [OF assms(2)] show ?thesis by (simp add: ctl_ok_def)
qed

theorem scheduler_start_stop_witness:
  "gauge SchedulerActive (met (exec (sc_Start ctl_new) tick_world)) = 1"
proof -
  let ?c = "ctl_new\<lparr>running := True, ctx_done := False, loops := [ScheduledLoop, RecoveryLoop, StaleCheckLoop]\<rparr>"
  have "run_state (sc_Start ctl_new) tick_world = (?c, exec (sc_Start ctl_new) tick_world)"
    by (simp add: sc_Start_def ctl_new_def run_metric_do exec_def)
  then have "sched_step canon_lib demo_sched (ctl_new, tick_world) (?c, exec (sc_Start ctl_new) tick_world)"
    by (intro sched_step.start) (simp_all add: ctl_new_def)
  then have "(sched_step canon_lib demo_sched)\<^sup>*\<^sup>* (ctl_new, tick_world) (?c, exec (sc_Start ctl_new) tick_world)"
    by (rule r_into_rtranclp)
  moreover have "gauge SchedulerActive (met tick_world) = 0" by (simp add: tick_world_def gauge_def)
  ultimately show ?thesis using scheduler_start_stop [of tick_world canon_lib demo_sched ?c] by simp
qed

end
