(* ===== verification/System.thy ===== *)
theory System
  imports Application DashboardRun SchedulerRun
begin

text \<open>
  The running system: requests, rounds of the workers and ticks of the scheduler's loops on the
  same two servers, in any order.  First the invariant of the stored data, which holds whatever
  calls fail; then what holds of waiting jobs while both servers are up.
\<close>

section \<open>What is true of every stored job\<close>

definition job_sound :: "Job \<Rightarrow> bool" where
  "job_sound j \<longleftrightarrow>
     IsValid (Status j) \<and> 0 \<le> RetryCount j \<and>
     (Status j = StatusScheduled \<longrightarrow> RunAt j \<noteq> None) \<and>
     (Status j = StatusRunning \<longrightarrow> StartedAt j \<noteq> None) \<and>
     (Status j = StatusCompleted \<longrightarrow> StartedAt j \<noteq> None \<and> CompletedAt j \<noteq> None) \<and>
     (Status j = StatusRetrying \<longrightarrow> 0 < RetryCount j \<and> RetryCount j < MaxRetries j) \<and>
     (Status j = StatusDead \<longrightarrow> 0 < RetryCount j \<and> MaxRetries j \<le> RetryCount j)"

text \<open>Every entry of a queue and of the schedule is the text of an identifier.\<close>

definition entries_ok :: "lib \<Rightarrow> keyspace \<Rightarrow> bool" where
  "entries_ok L k \<longleftrightarrow>
     (\<forall>q. set (waiting k q) \<subseteq> range (uuid_String L)) \<and> dom (sched k) \<subseteq> range (uuid_String L)"

text \<open>
  Inside an operation more is known of the job it is about: the number of retries it was loaded
  with, which nothing changes (\<open>K\<close>), and that it was started (\<open>B\<close>).
\<close>

definition kept :: "(uuid \<rightharpoonup> int) \<Rightarrow> uuid set \<Rightarrow> Job \<Rightarrow> bool" where
  "kept K B j \<longleftrightarrow>
     job_sound j \<and> (\<forall>k. K (ID j) = Some k \<longrightarrow> MaxRetries j = k) \<and> (ID j \<in> B \<longrightarrow> StartedAt j \<noteq> None)"

definition knows ::
  "('d \<Rightarrow> table) \<Rightarrow> ('r \<Rightarrow> keyspace) \<Rightarrow> lib \<Rightarrow> int \<Rightarrow> (uuid \<rightharpoonup> int) \<Rightarrow> uuid set \<Rightarrow> ('d, 'r) world \<Rightarrow> bool" where
  "knows tbl ks L n K B w \<longleftrightarrow>
     schema_ok (tbl (db w)) \<and> list_all (kept K B) (table_jobs (tbl (db w))) \<and>
     ks_ok (ks (rds w)) \<and> entries_ok L (ks (rds w)) \<and> metrics_ok n w \<and> sane_clock w"

text \<open>The invariant: nothing in particular is known of any job.\<close>

definition sys_ok :: "('d \<Rightarrow> table) \<Rightarrow> ('r \<Rightarrow> keyspace) \<Rightarrow> lib \<Rightarrow> int \<Rightarrow> ('d, 'r) world \<Rightarrow> bool" where
  "sys_ok tbl ks L n w \<longleftrightarrow>
     schema_ok (tbl (db w)) \<and> list_all job_sound (table_jobs (tbl (db w))) \<and>
     ks_ok (ks (rds w)) \<and> entries_ok L (ks (rds w)) \<and> metrics_ok n w \<and> sane_clock w"

lemma kept_none: "kept Map.empty {} = job_sound"
  by (simp add: kept_def fun_eq_iff)

lemma knows_none: "knows tbl ks L n Map.empty {} = sys_ok tbl ks L n"
  by (simp add: knows_def sys_ok_def kept_none fun_eq_iff)

lemma kept_weaken: "kept K B j \<Longrightarrow> job_sound j"
  by (simp add: kept_def)

lemma knows_weaken: "knows tbl ks L n K B w \<Longrightarrow> sys_ok tbl ks L n w"
  by (auto simp: knows_def sys_ok_def list_all_iff kept_weaken)

subsection \<open>Changes of one job\<close>

lemma status_apart:
  "StatusPending \<noteq> StatusScheduled" "StatusPending \<noteq> StatusRunning" "StatusPending \<noteq> StatusCompleted"
  "StatusPending \<noteq> StatusFailed" "StatusPending \<noteq> StatusRetrying" "StatusPending \<noteq> StatusDead"
  "StatusScheduled \<noteq> StatusRunning" "StatusScheduled \<noteq> StatusCompleted" "StatusScheduled \<noteq> StatusFailed"
  "StatusScheduled \<noteq> StatusRetrying" "StatusScheduled \<noteq> StatusDead" "StatusScheduled \<noteq> StatusCancelled"
  "StatusRunning \<noteq> StatusCompleted" "StatusRunning \<noteq> StatusFailed" "StatusRunning \<noteq> StatusRetrying"
  "StatusRunning \<noteq> StatusDead" "StatusRunning \<noteq> StatusCancelled" "StatusCompleted \<noteq> StatusFailed"
  "StatusCompleted \<noteq> StatusRetrying" "StatusCompleted \<noteq> StatusDead" "StatusCompleted \<noteq> StatusCancelled"
  "StatusFailed \<noteq> StatusRetrying" "StatusFailed \<noteq> StatusDead" "StatusRetrying \<noteq> StatusDead"
  "StatusRetrying \<noteq> StatusCancelled" "StatusDead \<noteq> StatusCancelled" "StatusPending \<noteq> StatusCancelled"
  by (simp_all add: go_const)

lemma status_valid:
  "IsValid StatusPending" "IsValid StatusScheduled" "IsValid StatusRunning" "IsValid StatusCompleted"
  "IsValid StatusFailed" "IsValid StatusRetrying" "IsValid StatusDead" "IsValid StatusCancelled"
  by (simp_all add: IsValid_iff statuses_def)

lemmas status_facts = status_apart status_apart [symmetric] status_valid

lemma kept_status:
  assumes "kept K B j" "st \<in> {StatusPending, StatusRunning, StatusCancelled} \<or> st = StatusCompleted \<and> ID j \<in> B"
  shows "kept K B (set_status st n u j)"
proof -
  have k: "\<forall>k. K (ID j) = Some k \<longrightarrow> MaxRetries j = k" "ID j \<in> B \<longrightarrow> StartedAt j \<noteq> None" "0 \<le> RetryCount j"
    using assms(1) by (simp_all add: kept_def job_sound_def)
  from assms(2) consider "st = StatusPending" | "st = StatusRunning" | "st = StatusCancelled" | "st = StatusCompleted" "ID j \<in> B"
    by blast
  then show ?thesis
    by cases (use k in \<open>simp_all add: kept_def job_sound_def set_status_def status_facts\<close>)
qed

lemma kept_running: "kept K B j \<Longrightarrow> kept K (insert (ID j) B) (set_status StatusRunning n u j)"
  by (simp add: kept_def job_sound_def set_status_def status_facts)

definition error_sound :: "(uuid \<rightharpoonup> int) \<Rightarrow> uuid \<Rightarrow> JobStatus \<Rightarrow> int \<Rightarrow> bool" where
  "error_sound K i st rc \<longleftrightarrow>
     0 \<le> rc \<and> (st \<in> {StatusPending, StatusFailed} \<or>
               (\<exists>k. K i = Some k \<and> 0 < rc \<and> (st = StatusDead \<and> k \<le> rc \<or> st = StatusRetrying \<and> rc < k)))"

lemma sound_error:
  assumes "error_sound K (ID j) st rc" "\<And>k. K (ID j) = Some k \<Longrightarrow> MaxRetries j = k"
  shows "job_sound (set_error st rc e u j)"
  using assms by (auto simp: error_sound_def job_sound_def set_error_def status_facts)

lemma kept_error: "kept K B j \<Longrightarrow> error_sound K (ID j) st rc \<Longrightarrow> kept K B (set_error st rc e u j)"
  using sound_error [of K j st rc e u] by (simp add: kept_def set_error_def)

lemma list_all_upd:
  "list_all P js \<Longrightarrow> (\<And>j. P j \<Longrightarrow> ID j = i \<Longrightarrow> P (f j)) \<Longrightarrow> list_all P (upd_job i f js)"
  by (auto simp: list_all_iff upd_job_def)

lemma knows_db:
  assumes "knows tbl ks L n K B w" "schema_ok (tbl d)" "list_all (kept K' B') (table_jobs (tbl d))"
  shows "knows tbl ks L n K' B' (w\<lparr>ticks := m, db := d\<rparr>)"
  using assms by (simp add: knows_def metrics_ok_def sane_clock_def)

lemma knows_rds:
  assumes "knows tbl ks L n K B w" "ks_ok (ks r)" "entries_ok L (ks r)"
  shows "knows tbl ks L n K B (w\<lparr>ticks := m, rds := r\<rparr>)"
  using assms by (simp add: knows_def metrics_ok_def sane_clock_def)

lemma entries_push:
  "entries_ok L k \<Longrightarrow> sched k' = sched k \<Longrightarrow> waiting k' = (waiting k)(q := waiting k q @ [uuid_String L i]) \<Longrightarrow> entries_ok L k'"
  by (simp add: entries_ok_def)

lemma entries_schedule:
  "entries_ok L k \<Longrightarrow> waiting k' = waiting k \<Longrightarrow> sched k' = (sched k)(uuid_String L i \<mapsto> t) \<Longrightarrow> entries_ok L k'"
  by (simp add: entries_ok_def)

lemma entries_same: "entries_ok L k \<Longrightarrow> waiting k' = waiting k \<Longrightarrow> sched k' = sched k \<Longrightarrow> entries_ok L k'"
  by (simp add: entries_ok_def)

lemma entries_sub:
  "entries_ok L k \<Longrightarrow> dom (sched k') \<subseteq> dom (sched k) \<Longrightarrow> (\<And>q. set (waiting k' q) \<subseteq> set (waiting k q)) \<Longrightarrow> entries_ok L k'"
  by (auto simp: entries_ok_def; blast)

subsection \<open>The calls\<close>

context storage
begin

lemma knows_GetJob:
  "valid (knows tbl ks L n K B) (GetJob s i)
     (\<lambda>x w. knows tbl ks L n K B w \<and>
            (\<forall>j. x = Inr j \<longrightarrow> ID j = i \<and> 0 \<le> RetryCount j \<and> in_int4 (RetryCount j) \<and>
                 knows tbl ks L n (K(i \<mapsto> MaxRetries j)) B w))"
proof (rule validI)
  fix w x w'
  assume k: "knows tbl ks L n K B w" and r: "run_state (GetJob s i) w = (x, w')"
  have ok: "ok (db w)" and all: "list_all (kept K B) (jobs (db w))" using k by (simp_all add: knows_def)
  obtain d where d: "w' = w\<lparr>db := d\<rparr>" "ok d" "jobs d = jobs (db w)" "\<And>j. x = Inr j \<Longrightarrow> look (jobs (db w)) i = Some j"
    using GetJob_run [OF ok r] by metis
  have w': "knows tbl ks L n K' B w'" if "list_all (kept K' B) (jobs (db w))" for K'
    using knows_db [OF k, of d K' B "ticks w"] that d by simp
  have "ID j = i \<and> 0 \<le> RetryCount j \<and> in_int4 (RetryCount j) \<and> knows tbl ks L n (K(i \<mapsto> MaxRetries j)) B w'" if "x = Inr j" for j
  proof -
    note l = d(4) [OF that]
    note jo = ok_jobs_ok [OF ok]
    have j: "j \<in> set (jobs (db w))" "ID j = i" using l look_Some_iff [OF jo] by auto
    then have "in_int4 (RetryCount j)" "0 \<le> RetryCount j"
      using jo all by (auto simp: jobs_ok_def job_ok_def list_all_iff kept_def job_sound_def)
    moreover have "kept (K(i \<mapsto> MaxRetries j)) B j'" if "j' \<in> set (jobs (db w))" for j'
    proof -
      have "ID j' = i \<Longrightarrow> j' = j" using that j jo by (auto simp: jobs_ok_def distinct_map inj_on_def)
      with that all show ?thesis by (auto simp: list_all_iff kept_def)
    qed
    ultimately show ?thesis using j w' by (simp add: list_all_iff)
  qed
  with w' all show "knows tbl ks L n K B w' \<and> (\<forall>j. x = Inr j \<longrightarrow> ID j = i \<and> 0 \<le> RetryCount j \<and> in_int4 (RetryCount j) \<and>
      knows tbl ks L n (K(i \<mapsto> MaxRetries j)) B w')" by blast
qed

lemma knows_status:
  assumes "st \<in> {StatusPending, StatusRunning, StatusCancelled} \<or> st = StatusCompleted \<and> i \<in> B"
  shows "preserves (knows tbl ks L n K B) (UpdateJobStatus s i st)"
proof (rule validI)
  fix w x w'
  assume k: "knows tbl ks L n K B w" and r: "run_state (UpdateJobStatus s i st) w = (x, w')"
  have ok: "ok (db w)" and all: "list_all (kept K B) (jobs (db w))" using k by (simp_all add: knows_def)
  obtain d t u where d: "w' = w\<lparr>ticks := Suc (ticks w), db := d\<rparr>" "ok d"
    "jobs d = jobs (db w) \<or> jobs d = upd_job i (set_status st t u) (jobs (db w))"
    using UpdateJobStatus_run [OF ok r] by blast
  then have "list_all (kept K B) (jobs d)"
    using all assms by (auto intro!: list_all_upd kept_status)
  with knows_db [OF k d(2)] d(1) show "knows tbl ks L n K B w'" by simp
qed

lemma knows_run_status:
  "valid (knows tbl ks L n K B) (UpdateJobStatus s i StatusRunning)
     (\<lambda>y w. knows tbl ks L n K (if y = None then insert i B else B) w)"
proof (rule validI)
  fix w y w'
  assume k: "knows tbl ks L n K B w" and r: "run_state (UpdateJobStatus s i StatusRunning) w = (y, w')"
  have ok: "ok (db w)" and all: "list_all (kept K B) (jobs (db w))" using k by (simp_all add: knows_def)
  show "knows tbl ks L n K (if y = None then insert i B else B) w'"
  proof (cases y)
    case (Some e)
    with validD [OF knows_status k r] show ?thesis by simp
  next
    case None
    then obtain d t u where d: "w' = w\<lparr>ticks := Suc (ticks w), db := d\<rparr>" "ok d"
      "jobs d = upd_job i (set_status StatusRunning t u) (jobs (db w))"
      using UpdateJobStatus_run [OF ok r] by blast
    have "list_all (kept K (insert i B)) (jobs d)"
      using all kept_running unfolding d(3) list_all_iff by (auto simp: upd_job_def) (auto simp: kept_def)
    with knows_db [OF k d(2)] d(1) None show ?thesis by simp
  qed
qed

lemma knows_error:
  assumes "error_sound K i st rc"
  shows "preserves (knows tbl ks L n K B) (UpdateJobError s i st rc e)"
proof (rule validI)
  fix w x w'
  assume k: "knows tbl ks L n K B w" and r: "run_state (UpdateJobError s i st rc e) w = (x, w')"
  have ok: "ok (db w)" and all: "list_all (kept K B) (jobs (db w))" using k by (simp_all add: knows_def)
  obtain d u where d: "w' = w\<lparr>db := d\<rparr>" "ok d"
    "jobs d = jobs (db w) \<or> jobs d = upd_job i (set_error st rc e u) (jobs (db w))"
    using UpdateJobError_run [OF ok r] by blast
  then have "list_all (kept K B) (jobs d)"
    using all assms by (auto intro!: list_all_upd kept_error)
  with knows_db [OF k d(2), of K B "ticks w"] d(1) show "knows tbl ks L n K B w'" by simp
qed

lemma knows_DeleteJob: "preserves (knows tbl ks L n K B) (DeleteJob s i)"
proof (rule validI)
  fix w x w'
  assume k: "knows tbl ks L n K B w" and r: "run_state (DeleteJob s i) w = (x, w')"
  have ok: "ok (db w)" and all: "list_all (kept K B) (jobs (db w))" using k by (simp_all add: knows_def)
  obtain d where d: "w' = w\<lparr>db := d\<rparr>" "ok d"
    "jobs d = jobs (db w) \<or> jobs d = filter (\<lambda>j. \<not> (ID j = i \<and> Status j = StatusDead)) (jobs (db w))"
    using DeleteJob_run [OF ok r] by blast
  then have "list_all (kept K B) (jobs d)" using all by (auto simp: list_all_iff)
  with knows_db [OF k d(2), of K B "ticks w"] d(1) show "knows tbl ks L n K B w'" by simp
qed

lemma knows_CreateJob:
  assumes "request_job b = Inr job"
  shows "preserves (sys_ok tbl ks L n) (CreateJob s job)"
  unfolding knows_none [symmetric]
proof (rule validI)
  fix w x w'
  assume k: "knows tbl ks L n Map.empty {} w" and r: "run_state (CreateJob s job) w = (x, w')"
  have ok: "ok (db w)" and all: "list_all job_sound (jobs (db w))" using k by (simp_all add: knows_def kept_none)
  obtain d where d: "w' = w\<lparr>db := d\<rparr>" "ok d"
    "jobs d = jobs (db w) \<or> (\<exists>p. jobs d = jobs (db w) @ [new_job (env (db w)) p job])"
    using CreateJob_run [OF ok r] by metis
  have "job_sound (new_job e p job)" for e p
    using assms by (auto simp: request_job_def Let_def job_sound_def new_job_def status_facts
        split: option.splits if_splits)
  then have "list_all job_sound (jobs d)" using d(3) all by auto
  with knows_db [OF k d(2), of Map.empty "{}" "ticks w"] d(1) show "knows tbl ks L n Map.empty {} w'"
    by (simp add: kept_none)
qed

end

lemma take_first_sub: "take_first qs f = Some (v, g) \<Longrightarrow> (\<exists>q. v \<in> set (f q)) \<and> (\<forall>q. set (g q) \<subseteq> set (f q))"
proof (induction qs f rule: take_first.induct)
  case (2 q qs f)
  show ?case
  proof (cases "f q")
    case Nil
    with 2 show ?thesis by simp
  next
    case (Cons x xs)
    with 2(2) have "v = x" "g = f(q := xs)" by simp_all
    with Cons have "v \<in> set (f q)" "\<And>a. set (g a) \<subseteq> set (f a)" by auto
    then show ?thesis by blast
  qed
qed simp

context redis_queue
begin

lemma knows_Push: "preserves (knows tbl ks L n K B) (Push q name (uuid_String L i))"
proof (rule validI)
  fix w x w'
  assume k: "knows tbl ks L n K B w" and r: "run_state (Push q name (uuid_String L i)) w = (x, w')"
  obtain r' where d: "w' = w\<lparr>rds := r'\<rparr>" "sched (ks r') = sched (ks (rds w))" "ks_ok (ks r') = ks_ok (ks (rds w))"
    "waiting (ks r') = waiting (ks (rds w)) \<or>
     waiting (ks r') = (waiting (ks (rds w)))(name := waiting (ks (rds w)) name @ [uuid_String L i])"
    using Push_run [OF r] by blast
  have "entries_ok L (ks r')"
    using d(4)
  proof
    assume "waiting (ks r') = waiting (ks (rds w))"
    with k d(2) show ?thesis by (auto intro: entries_same simp: knows_def)
  next
    assume "waiting (ks r') = (waiting (ks (rds w)))(name := waiting (ks (rds w)) name @ [uuid_String L i])"
    with k d(2) show ?thesis by (auto intro: entries_push simp: knows_def)
  qed
  with knows_rds [OF k, of r' "ticks w"] k d show "knows tbl ks L n K B w'" by (simp add: knows_def)
qed

lemma knows_Schedule: "preserves (knows tbl ks L n K B) (Schedule q (uuid_String L i) t)"
proof (rule validI)
  fix w x w'
  assume k: "knows tbl ks L n K B w" and r: "run_state (Schedule q (uuid_String L i) t) w = (x, w')"
  obtain r' where d: "w' = w\<lparr>rds := r'\<rparr>" "waiting (ks r') = waiting (ks (rds w))" "ks_ok (ks (rds w)) \<Longrightarrow> ks_ok (ks r')"
    "sched (ks r') = sched (ks (rds w)) \<or> sched (ks r') = (sched (ks (rds w)))(uuid_String L i \<mapsto> f64_int (Unix t))"
    using queue.schedule_run [OF r] by blast
  have "entries_ok L (ks r')"
    using d(4)
  proof
    assume "sched (ks r') = sched (ks (rds w))"
    with k d(2) show ?thesis by (auto intro: entries_same simp: knows_def)
  next
    assume "sched (ks r') = (sched (ks (rds w)))(uuid_String L i \<mapsto> f64_int (Unix t))"
    with k d(2) show ?thesis by (auto intro: entries_schedule simp: knows_def)
  qed
  with knows_rds [OF k, of r' "ticks w"] k d show "knows tbl ks L n K B w'" by (simp add: knows_def)
qed

lemma knows_Pop: "preserves (knows tbl ks L n K B) (Pop q qs t)"
proof (rule validI)
  fix w x w'
  assume k: "knows tbl ks L n K B w" and r: "run_state (Pop q qs t) w = (x, w')"
  obtain r' where d: "w' = w\<lparr>rds := r'\<rparr>" "sched (ks r') = sched (ks (rds w))" "ks_ok (ks r') = ks_ok (ks (rds w))"
    "waiting (ks r') = waiting (ks (rds w)) \<or> (\<exists>v. take_first qs (waiting (ks (rds w))) = Some (v, waiting (ks r')))"
    using queue.pop_run [OF r] by (cases "take_first qs (waiting (ks (rds w)))") auto
  have sub: "set (waiting (ks r') a) \<subseteq> set (waiting (ks (rds w)) a)" for a
    using d(4) by (auto dest!: take_first_sub)
  have "entries_ok L (ks (rds w))" using k by (simp add: knows_def)
  then have "entries_ok L (ks r')" by (rule entries_sub [OF _ _ sub]) (simp add: d(2))
  with knows_rds [OF k, of r' "ticks w"] k d show "knows tbl ks L n K B w'" by (simp add: knows_def)
qed

text \<open>The due entries are texts of identifiers, too.\<close>

lemma knows_due:
  "valid (\<lambda>w. knows tbl ks L n K B w \<and> in_int64 (Unix t)) (GetDueJobs q t)
     (\<lambda>x w. knows tbl ks L n K B w \<and> (\<forall>vs. x = Inr vs \<longrightarrow> set vs \<subseteq> range (uuid_String L)))"
proof (rule validI)
  fix w x w'
  assume a: "knows tbl ks L n K B w \<and> in_int64 (Unix t)" and r: "run_state (GetDueJobs q t) w = (x, w')"
  then have k: "knows tbl ks L n K B w" and ko: "ks_ok (ks (rds w))" by (simp_all add: knows_def)
  let ?h = "f64_int (Unix t)"
  obtain r' where d: "w' = w\<lparr>rds := r'\<rparr>" "waiting (ks r') = waiting (ks (rds w))" "ks_ok (ks r')"
    "dom (sched (ks r')) \<subseteq> dom (sched (ks (rds w)))" "\<And>vs. x = Inr vs \<Longrightarrow> vs = due_members ?h (ks (rds w))"
    using queue.due_run [OF r _ ko] a that
    by (elim conjE disjE; (simp add: dom_def)?) (force split: option.splits if_splits)
  have "set (due_members ?h (ks (rds w))) \<subseteq> dom (sched (ks (rds w)))" using set_due_members [OF ko] by auto
  moreover have "entries_ok L (ks r')" using k d(2,4) by (auto intro: entries_sub simp: knows_def)
  with knows_rds [OF k, of r' "ticks w"] d have "knows tbl ks L n K B w'" by simp
  moreover have "dom (sched (ks (rds w))) \<subseteq> range (uuid_String L)" using k by (simp add: knows_def entries_ok_def)
  ultimately show "knows tbl ks L n K B w' \<and> (\<forall>vs. x = Inr vs \<longrightarrow> set vs \<subseteq> range (uuid_String L))"
    using d(5) by (metis order_trans)
qed

end

context redis
begin

lemma knows_publish: "preserves (knows tbl ks L n K B) (PublishJobEvent C e)"
proof (rule validI)
  fix w x w'
  assume k: "knows tbl ks L n K B w" and r: "run_state (PublishJobEvent C e) w = (x, w')"
  obtain m r' where "w' = w\<lparr>ticks := m, rds := r'\<rparr>" "ks r' = ks (rds w)"
    using bus.publish_run [OF r] by blast
  with knows_rds [OF k, of r' m] k show "knows tbl ks L n K B w'" by (simp add: knows_def)
qed

end

lemma knows_now: "valid (knows tbl ks L n K B) time_Now (\<lambda>t w. knows tbl ks L n K B w \<and> in_int64 (Unix t))"
  by (auto simp: valid_def run_time_Now knows_def metrics_ok_def sane_clock_def year_ok_Unix)

lemma knows_clock: "preserves (knows tbl ks L n K B) time_Now"
  by (rule valid_weaken [OF knows_now]) auto

lemma knows_metric:
  "call_ok (m, ls, q) \<Longrightarrow> gauge_step ActiveWorkers (m, ls, q) n = k \<Longrightarrow>
     valid (knows tbl ks L n K B) (metric_do m ls q) (\<lambda>_. knows tbl ks L k K B)"
  using metrics_ok_do by (fastforce simp: valid_def run_metric_do knows_def sane_clock_def)

lemma knows_reads:
  assumes "\<And>v. preserves (same_data tbl v) m"
  shows "preserves (knows tbl ks L n K B) m"
proof (rule validI)
  fix w x w'
  assume "knows tbl ks L n K B w" "run_state m w = (x, w')"
  with validD [OF assms [of w], of w x w'] show "knows tbl ks L n K B w'"
    by (simp add: same_data_def knows_def metrics_ok_def sane_clock_def)
qed

section \<open>The operations keep the invariant\<close>

lemma knows_exec_weaken:
  "preserves (knows tbl ks L n K B) m \<Longrightarrow> valid (knows tbl ks L n K B) m (\<lambda>_. sys_ok tbl ks L n)"
  by (erule valid_weaken) (auto intro: knows_weaken)

text \<open>The rules for the invariant itself.\<close>

lemmas sys_clock = knows_clock [where K = Map.empty and B = "{}", unfolded knows_none]
lemmas sys_reads = knows_reads [where K = Map.empty and B = "{}", unfolded knows_none]

context storage
begin

lemma reads_jobs_query: "is_select q \<Longrightarrow> preserves (same_data tbl v) (jobs_query what s q as)"
  unfolding jobs_query_def by (intro preserves_bind reads_query reads_ret)

lemma reads_GetQueueStatsByName [reads]: "preserves (same_data tbl v) (GetQueueStatsByName s name)"
  unfolding GetQueueStatsByName_def by (intro preserves_bind reads_query reads_ret) simp

lemma sys_stale_query:
  "valid (sys_ok tbl ks L n) (GetStaleRunningJobs s t)
     (\<lambda>x w. sys_ok tbl ks L n w \<and> (\<forall>js. x = Inr js \<longrightarrow> list_all (\<lambda>j. 0 \<le> RetryCount j) js))"
proof (rule validI)
  fix w x w'
  assume k: "sys_ok tbl ks L n w" and r: "run_state (GetStaleRunningJobs s t) w = (x, w')"
  have ok: "ok (db w)" and all: "list_all job_sound (jobs (db w))" using k by (simp_all add: sys_ok_def)
  obtain d where d: "w' = w\<lparr>ticks := Suc (ticks w), db := d\<rparr>" "ok d" "jobs d = jobs (db w)"
    "\<And>js. x = Inr js \<Longrightarrow> set js \<subseteq> set (jobs (db w))"
    using GetStaleRunningJobs_run [OF ok r] set_take_selected by metis
  have "list_all (\<lambda>j. 0 \<le> RetryCount j) js" if "x = Inr js" for js
    using all d(4) [OF that] by (auto simp: list_all_iff job_sound_def)
  with k d show "sys_ok tbl ks L n w' \<and> (\<forall>js. x = Inr js \<longrightarrow> list_all (\<lambda>j. 0 \<le> RetryCount j) js)"
    by (simp add: sys_ok_def metrics_ok_def sane_clock_def)
qed

lemmas sys_GetJob = sys_reads [OF reads_GetJob]
lemmas sys_status = knows_status [where K = Map.empty and B = "{}", unfolded knows_none]
lemmas sys_error = knows_error [where K = Map.empty and B = "{}", unfolded knows_none]
lemmas sys_DeleteJob = knows_DeleteJob [where K = Map.empty and B = "{}", unfolded knows_none]

end

context redis_queue
begin

lemmas sys_Push = knows_Push [where K = Map.empty and B = "{}", unfolded knows_none]
lemmas sys_Schedule = knows_Schedule [where K = Map.empty and B = "{}", unfolded knows_none]
lemmas sys_Pop = knows_Pop [where K = Map.empty and B = "{}", unfolded knows_none]

end

subsection \<open>Requests\<close>

context api_services
begin

lemma sys_publish: "preserves (sys_ok tbl ks L n) (api_publishEvent L h ty j)"
  unfolding api_publishEvent_def knows_none [symmetric] by (intro preserves_intros rc.knows_publish)

lemma sys_CreateJob: "preserves (sys_ok tbl ks L n) (api_CreateJob L h r)"
  unfolding api_CreateJob_def
  by (intro preserves_intros st.knows_CreateJob rq.sys_Schedule rq.sys_Push)

lemma sys_CancelJob: "preserves (sys_ok tbl ks L n) (api_CancelJob L h r)"
  unfolding api_CancelJob_def
  by (intro preserves_intros st.sys_GetJob st.sys_status sys_publish) simp

lemma sys_RetryJob: "preserves (sys_ok tbl ks L n) (api_RetryJob L h r)"
  unfolding api_RetryJob_def
  by (intro preserves_intros st.sys_GetJob st.sys_error rq.sys_Push sys_publish) (simp add: error_sound_def)

lemma sys_api_DeleteJob: "preserves (sys_ok tbl ks L n) (api_DeleteJob L h r)"
  unfolding api_DeleteJob_def by (intro preserves_intros st.sys_DeleteJob)

lemma sys_api_reads:
  "preserves (sys_ok tbl ks L n) (api_GetJob L h r)" "preserves (sys_ok tbl ks L n) (api_ListJobs L h r)"
  "preserves (sys_ok tbl ks L n) (api_GetQueues h r)" "preserves (sys_ok tbl ks L n) (api_GetQueueByName h r)"
  "preserves (sys_ok tbl ks L n) (api_GetStats h r)" "preserves (sys_ok tbl ks L n) (ReadyHandler b (h_store h) r)"
  "preserves (sys_ok tbl ks L n) (HealthHandler r)"
  unfolding api_GetJob_def api_ListJobs_def api_GetQueues_def api_GetQueueByName_def api_GetStats_def ReadyHandler_def
    HealthHandler_def Let_def
  by (intro preserves_intros sys_reads st.reads_GetJob st.reads_ListJobs st.reads_GetQueueStats st.reads_GetQueueStatsByName st.reads_ping)+

lemmas sys_handlers = sys_CreateJob sys_CancelJob sys_RetryJob sys_api_DeleteJob sys_api_reads

lemma sys_serve:
  assumes "\<And>e r. preserves (sys_ok tbl ks L n) (other e r)"
  shows "preserves (sys_ok tbl ks L n) (serve_route L h key isLeader other rt r)"
proof -
  obtain m pat e a where rt: "rt = (m, pat, e, a)" by (metis prod_cases4)
  have "preserves (sys_ok tbl ks L n) (endpoint_handler L h isLeader other e r)"
    by (cases e) (simp_all add: sys_handlers assms)
  then show ?thesis
    unfolding serve_route_def rt RequestLogger_def APIKeyAuth_def
    by (auto intro!: preserves_intros sys_clock)
qed

end

subsection \<open>Rounds of a worker\<close>

lemma next_count: "in_int4 n \<Longrightarrow> wrap64 (n + 1) = n + 1"
  by (rule wrap64_id) (auto simp: in_int4_def in_int64_def)

lemma knows_handler:
  assumes "tame f"
  shows "preserves (knows tbl ks L n K B) (f t pl)"
proof (rule validI)
  fix w x w'
  assume "knows tbl ks L n K B w" "run_state (f t pl) w = (x, w')"
  moreover from this assms obtain m where "w' = w\<lparr>ticks := m\<rparr>" unfolding tame_def by blast
  ultimately show "knows tbl ks L n K B w'" by (simp add: knows_def metrics_ok_def sane_clock_def)
qed

context worker_services
begin

abbreviation knowing :: "int \<Rightarrow> (uuid \<rightharpoonup> int) \<Rightarrow> uuid set \<Rightarrow> ('d, 'r) world \<Rightarrow> bool" where
  "knowing \<equiv> knows tbl ks L"

lemma knows_worker_publish: "preserves (knowing n K B) (publishEvent L p ty j)"
  unfolding publishEvent_def by (intro preserves_intros rc.knows_publish)

lemma knows_failure:
  assumes "K (ID j) = Some (MaxRetries j)" "0 \<le> RetryCount j" "in_int4 (RetryCount j)"
  shows "preserves (knowing n K B) (handleFailure L p j e)"
  unfolding handleFailure_def Let_def next_count [OF assms(3)]
  by (intro preserves_intros st.knows_error rq.knows_Schedule knows_worker_publish knows_clock knows_metric)
     (use assms in \<open>auto simp: error_sound_def call_ok_def\<close>)

lemma knows_run_handler:
  assumes "K (ID j) = Some (MaxRetries j)" "0 \<le> RetryCount j" "in_int4 (RetryCount j)" "tame f" "ID j \<in> B"
  shows "preserves (knowing n K B) (run_handler L p f j)"
  unfolding run_handler_def after_handler_def Let_def
  by (intro preserves_intros st.knows_status knows_failure knows_worker_publish knows_handler knows_clock knows_metric)
     (use assms in \<open>simp_all add: call_ok_def\<close>)

lemma sys_process_loaded:
  assumes "tame_registry (registry p)" "ID j = i" "0 \<le> RetryCount j" "in_int4 (RetryCount j)"
  shows "valid (knowing n [i \<mapsto> MaxRetries j] {}) (process_loaded L p i j) (\<lambda>_. sys_ok tbl ks L n)"
proof (cases "Registry_Get (registry p) (Type j)")
  case None
  then show ?thesis
    unfolding process_loaded_def using assms(3)
    by (simp, intro knows_exec_weaken preserves_intros st.knows_error) (simp add: error_sound_def)
next
  case (Some f)
  with assms(1) have f: "tame f" by (simp add: tame_registry_def)
  have "valid (knowing n [i \<mapsto> MaxRetries j] (if y = None then {i} else {}))
          (case y of Some _ \<Rightarrow> ret () | None \<Rightarrow> do { publishEvent L p ''job.running'' j; run_handler L p f j })
          (\<lambda>_. sys_ok tbl ks L n)" for y
    by (cases y; simp; intro knows_exec_weaken preserves_intros knows_worker_publish knows_run_handler)
       (use assms f in simp_all)
  from valid_bind [OF st.knows_run_status [where B = "{}"] this] Some show ?thesis by (simp add: process_loaded_def)
qed

lemma sys_process_body:
  assumes "tame_registry (registry p)"
  shows "preserves (sys_ok tbl ks L n) (process_body L p sid)"
proof (cases "uuid_Parse L sid")
  case (Some i)
  have "valid (\<lambda>w. knowing n Map.empty {} w \<and>
            (\<forall>j. x = Inr j \<longrightarrow> ID j = i \<and> 0 \<le> RetryCount j \<and> in_int4 (RetryCount j) \<and> knowing n [i \<mapsto> MaxRetries j] {} w))
          (case x of Inl _ \<Rightarrow> ret () | Inr job \<Rightarrow> process_loaded L p i job) (\<lambda>_. sys_ok tbl ks L n)" for x
  proof (cases x)
    case (Inl e)
    then show ?thesis by (simp add: valid_ret knows_none)
  next
    case (Inr j)
    have "valid (\<lambda>w. knowing n [i \<mapsto> MaxRetries j] {} w \<and> ID j = i \<and> 0 \<le> RetryCount j \<and> in_int4 (RetryCount j))
            (process_loaded L p i j) (\<lambda>_. sys_ok tbl ks L n)"
      by (rule valid_pre_conj) (blast intro: sys_process_loaded [OF assms])
    from this Inr show ?thesis by (auto elim!: valid_weaken)
  qed
  from valid_bind [OF st.knows_GetJob [where K = Map.empty] this] Some show ?thesis
    by (simp add: process_body_def knows_none)
qed (simp add: process_body_def valid_ret)

lemma sys_processJob:
  assumes "tame_registry (registry p)"
  shows "preserves (sys_ok tbl ks L n) (processJob L p sid)"
proof -
  have inc: "valid (sys_ok tbl ks L n) (metric_do ActiveWorkers [] Inc) (\<lambda>_. sys_ok tbl ks L (n + 1))"
    and dec: "valid (sys_ok tbl ks L (n + 1)) (metric_do ActiveWorkers [] Dec) (\<lambda>_. sys_ok tbl ks L n)"
    unfolding knows_none [symmetric] by (rule knows_metric; simp add: call_ok_def)+
  show ?thesis
    unfolding processJob_def by (rule valid_bind [OF inc valid_bind [OF sys_process_body [OF assms] dec]])
qed

lemma sys_round:
  assumes "tame_registry (registry p)"
  shows "preserves (sys_ok tbl ks L n) (worker_round L p)"
  unfolding worker_round_def by (intro preserves_intros rq.sys_Pop sys_processJob assms)

end

subsection \<open>Ticks of the scheduler\<close>

context scheduler_services
begin

lemma sys_sched_publish: "preserves (sys_ok tbl ks L n) (sc_publishEvent L s ty j)"
  unfolding sc_publishEvent_def knows_none [symmetric] by (intro preserves_intros rc.knows_publish)

lemma sys_enqueue: "v \<in> range (uuid_String L) \<Longrightarrow> preserves (sys_ok tbl ks L n) (enqueue_due L s v)"
  unfolding enqueue_due_def
  by (elim rangeE; hypsubst; intro preserves_intros st.sys_GetJob rq.sys_Push st.sys_status sys_sched_publish) simp

lemma sys_scheduled: "preserves (sys_ok tbl ks L n) (processScheduledJobs L s)"
proof -
  have "valid (\<lambda>w. sys_ok tbl ks L n w \<and> (\<forall>vs. x = Inr vs \<longrightarrow> set vs \<subseteq> range (uuid_String L)))
          (case x of Inl _ \<Rightarrow> ret () | Inr vs \<Rightarrow> for_each vs (enqueue_due L s)) (\<lambda>_. sys_ok tbl ks L n)" for x
    by (rule valid_pre_conj) (cases x; auto intro!: valid_ret preserves_for_each sys_enqueue)
  note rest = valid_bind [OF rq.knows_due [where K = Map.empty and B = "{}", unfolded knows_none] this]
  show ?thesis
    unfolding processScheduledJobs_def
    by (rule valid_bind [OF knows_now [where K = Map.empty and B = "{}", unfolded knows_none] rest])
qed

lemma sys_recovery: "preserves (sys_ok tbl ks L n) (recoverUnqueuedJobs L s)"
  unfolding recoverUnqueuedJobs_def GetPendingUnqueued_def
  by (intro preserves_intros sys_clock sys_reads st.reads_jobs_query rq.sys_Push) (simp add: pending_unqueued_sql_def)

lemma sys_stale: "preserves (sys_ok tbl ks L n) (recoverStaleJobs L s)"
proof -
  have "valid (\<lambda>w. sys_ok tbl ks L n w \<and> (\<forall>js. x = Inr js \<longrightarrow> list_all (\<lambda>j. 0 \<le> RetryCount j) js))
          (case x of Inl _ \<Rightarrow> ret ()
           | Inr js \<Rightarrow> for_each js (\<lambda>job. do {
               _ \<leftarrow> UpdateJobError (sc_store s) (ID job) StatusFailed (RetryCount job) ''job timed out (stale)'';
               sc_publishEvent L s ''job.stale_recovered'' job }))
          (\<lambda>_. sys_ok tbl ks L n)" for x
    by (rule valid_pre_conj)
       (cases x; auto intro!: valid_ret preserves_intros st.sys_error sys_sched_publish simp: error_sound_def list_all_iff)
  from valid_bind [OF st.sys_stale_query this] show ?thesis unfolding recoverStaleJobs_def .
qed

lemma sys_tick: "preserves (sys_ok tbl ks L n) (tick_body L s l)"
  by (cases l) (simp_all add: sys_scheduled sys_recovery sys_stale)

end

section \<open>The running program\<close>

text \<open>
  The goroutines of \<^verbatim>\<open>main\<close> on the two servers, one step each: a request that the router
  passes on (\<open>e\<close> is the elector at that time), a round of a worker, a tick of a loop of the
  scheduler, the two collectors of metrics, a turn of the dashboard's subscriber, and the
  signal that cancels the context.  The lock of the election is on a connection of its own.
\<close>

inductive app_step ::
  "lib \<Rightarrow> (endpoint \<Rightarrow> ('d, 'r) http_handler) \<Rightarrow> ('c, 'd, 'r) app \<Rightarrow> ('d, 'r) world \<Rightarrow> ('d, 'r) world \<Rightarrow> bool"
  for L rest a where
  request: "rt \<in> set routes \<Longrightarrow> run_state (NewRouter L rest (a\<lparr>app_elector := e\<rparr>) rt r) w = (x, w') \<Longrightarrow> app_step L rest a w w'"
| round: "run_state (worker_round L (cfg (app_pool a))) w = (go, w') \<Longrightarrow> app_step L rest a w w'"
| tick: "run_state (tick_body L (app_sched a) l) w = (u, w') \<Longrightarrow> app_step L rest a w w'"
| pool_stats: "run_state (collect_pool stat (app_store a)) w = (u, w') \<Longrightarrow> app_step L rest a w w'"
| queue_depth: "run_state (collect_depth (app_queue a) main_queues) w = (u, w') \<Longrightarrow> app_step L rest a w w'"
| feed: "run_state (subscriber_turn (app_renderer a) input) w = (m, w') \<Longrightarrow> app_step L rest a w w'"
| signal: "app_step L rest a w (w\<lparr>cancelled := True\<rparr>)"

text \<open>What every operation keeps is kept by the program.\<close>

lemma app_step_keeps:
  assumes "app_step L rest a w w'" "P w"
    and "\<And>e rt r. rt \<in> set routes \<Longrightarrow> preserves P (NewRouter L rest (a\<lparr>app_elector := e\<rparr>) rt r)"
    and "preserves P (worker_round L (cfg (app_pool a)))" "\<And>l. preserves P (tick_body L (app_sched a) l)"
    and "\<And>stat. preserves P (collect_pool stat (app_store a))" "preserves P (collect_depth (app_queue a) main_queues)"
    and "\<And>input. preserves P (subscriber_turn (app_renderer a) input)" "\<And>w. P w \<Longrightarrow> P (w\<lparr>cancelled := True\<rparr>)"
  shows "P w'"
  using assms(1,2)
proof (cases rule: app_step.cases)
  case (request rt e r x)
  from validD [OF assms(3) [OF request(1)] assms(2) request(2)] show ?thesis .
next
  case (round go)
  from validD [OF assms(4,2) round] show ?thesis .
next
  case (tick l u)
  from validD [OF assms(5,2) tick] show ?thesis .
next
  case (pool_stats stat u)
  from validD [OF assms(6,2) pool_stats] show ?thesis .
next
  case (queue_depth u)
  from validD [OF assms(7,2) queue_depth] show ?thesis .
next
  case (feed input m)
  from validD [OF assms(8,2) feed] show ?thesis .
qed (use assms(9) in simp)

text \<open>The parts of the program, on the services \<^verbatim>\<open>main\<close> connects them to.\<close>

locale app_services =
  st: storage st tbl env up + rq: redis_queue rq ks pub rup + uuid_codec L
  for st :: "'d PostgresStorage" and tbl :: "'d \<Rightarrow> table" and env up
    and rq :: "'r RedisQueue" and ks :: "'r \<Rightarrow> keyspace" and pub rup and L :: lib +
  fixes a :: "('c, 'd, 'r) app" and rest :: "endpoint \<Rightarrow> ('d, 'r) http_handler"
  assumes app: "\<exists>tmpl zone roll conf. a = main_app tmpl zone roll conf st rq"
    and rest_reads: "\<And>v e r. preserves (same_data tbl v) (rest e r)"
begin

lemma app_parts:
  "app_store a = st" "app_queue a = rq" "tr_store (app_renderer a) = st" "store (cfg (app_pool a)) = st"
  "queue (cfg (app_pool a)) = rq" "redisClient (cfg (app_pool a)) = client rq" "queues (cfg (app_pool a)) = main_queues"
  "sc_store (app_sched a) = st" "sc_queue (app_sched a) = rq" "sc_redisClient (app_sched a) = client rq"
  "tame_registry (registry (cfg (app_pool a)))"
  using app main_registry_tame
  by (auto simp: main_app_def Start_def pool_new_def NewPool_def Scheduler_New_def NewTemplateRenderer_def RedisQueue_Client_def)

lemma rc_redis: "redis (client rq) ks pub rup"
  using rq.redis_queue_axioms by (simp add: redis_queue_def)

lemma app_api: "api_services (NewHandler st rq) tbl env up ks pub rup L"
  by (rule api_services_intro [OF st.storage_axioms rq.redis_queue_axioms rc_redis uuid_codec_axioms])

lemma app_worker: "worker_services (cfg (app_pool a)) tbl env up ks pub rup L"
  unfolding worker_services_def app_parts
  by (intro conjI st.storage_axioms rq.redis_queue_axioms rc_redis uuid_codec_axioms)

lemma app_scheduler: "scheduler_services (app_sched a) tbl env up ks pub rup L"
  unfolding scheduler_services_def app_parts
  by (intro conjI st.storage_axioms rq.redis_queue_axioms rc_redis uuid_codec_axioms)

lemma reads_endpoint: "preserves (same_data tbl v) (dashboard_endpoint L (app_renderer a) st key rest e r)"
  by (cases e) (simp_all add: rest_reads st.reads_handlers app_parts)

lemma reads_feed: "preserves (same_data tbl v) (subscriber_turn (app_renderer a) input)"
  unfolding subscriber_turn_def broadcastAllFragments_def Let_def
  by (auto intro!: preserves_bind reads_ret st.reads_fragments simp: app_parts split: option.split)

lemma sys_collect_pool: "preserves (sys_ok tbl ks L n) (collect_pool stat st)"
  unfolding collect_pool_def Let_def knows_none [symmetric]
  by (intro preserves_bind knows_metric) (simp_all add: call_ok_def)

lemma sys_collect_depth: "preserves (sys_ok tbl ks L n) (collect_depth rq qs)"
proof -
  have len: "preserves (sys_ok tbl ks L n) (QueueLength rq q)" for q
  proof (rule validI)
    fix w x w'
    assume k: "sys_ok tbl ks L n w" and r: "run_state (QueueLength rq q) w = (x, w')"
    obtain r' where "w' = w\<lparr>rds := r'\<rparr>" "ks r' = ks (rds w)"
      using r redis.llen_ks [OF rc_redis] by (auto simp: QueueLength_def run_rds_call split: prod.splits)
    with k show "sys_ok tbl ks L n w'" by (simp add: sys_ok_def metrics_ok_def sane_clock_def)
  qed
  show ?thesis
    unfolding collect_depth_def
    by (intro preserves_intros len, unfold knows_none [symmetric], intro knows_metric) (simp_all add: call_ok_def)
qed

lemma sys_step: "app_step L rest a w w' \<Longrightarrow> sys_ok tbl ks L n w \<Longrightarrow> sys_ok tbl ks L n w'"
proof (erule app_step_keeps [where P = "sys_ok tbl ks L n"])
  fix e rt r
  show "preserves (sys_ok tbl ks L n) (NewRouter L rest (a\<lparr>app_elector := e\<rparr>) rt r)"
    unfolding NewRouter_def
    by (simp add: app_parts) (intro api_services.sys_serve [OF app_api] sys_reads reads_endpoint)
qed (simp_all add: app_parts worker_services.sys_round [OF app_worker] scheduler_services.sys_tick [OF app_scheduler]
       sys_collect_pool sys_collect_depth sys_reads [OF reads_feed] sys_ok_def metrics_ok_def sane_clock_def)

end

definition demo_rest :: "endpoint \<Rightarrow> ('d, 'r) http_handler" where
  "demo_rest e = HealthHandler"

interpretation memsys: app_services mem_store m_tbl mem_env mem_up mem_queue r_ks r_pub rmem_up canon_lib demo_app demo_rest
proof (intro app_services.intro app_services_axioms.intro memst.storage_axioms memq.redis_queue_axioms canon.uuid_codec_axioms)
  show "\<exists>tmpl zone roll conf. demo_app = main_app tmpl zone roll conf mem_store mem_queue"
    unfolding demo_app_def by blast
  show "preserves (same_data m_tbl v) (demo_rest e r)" for v e r
    by (simp add: demo_rest_def HealthHandler_def reads_ret)
qed

text \<open>C2.
  The invariant of the whole program, whatever fails.  Start from a state with sound data; after
  any sequence of requests with any answers, rounds of the workers, ticks of the scheduler's
  loops, turns of the collectors and of the dashboard, and whichever calls to the servers fail,
  before or after their effect: the table satisfies the constraints of the schema; every job has
  a valid status and a count that is not negative, a scheduled job has a run time, a running one
  a start, a completed one a start and a completion, a retrying job has used some but not all of
  its retries, a dead one all of them; every entry of a queue or of the schedule is an
  identifier; and every metric call is well-formed, with no worker left counted as active.
\<close>

theorem system_invariant:
  assumes "storage st tbl env up" "redis_queue rq ks pub rup" "uuid_codec L"
    and "a = main_app tmpl zone roll conf st rq" "\<forall>v e r. preserves (same_data tbl v) (rest e r)"
    and "sys_ok tbl ks L n w" "(app_step L rest a)\<^sup>*\<^sup>* w w'"
  shows "sys_ok tbl ks L n w'"
proof -
  have "app_services st tbl env up rq ks pub rup L a rest"
    using assms(1-5) by (intro app_services.intro app_services_axioms.intro) blast+
  note step = app_services.sys_step [OF this]
  from assms(7,6) show ?thesis by (induction rule: rtranclp_induct) (blast intro: step)+
qed

lemma faulty_sound: "sys_ok m_tbl r_ks canon_lib 0 faulty_world"
proof -
  have "list_all job_sound demo_jobs"
    by (simp add: demo_jobs_def demo_job_def job_sound_def status_facts)
  moreover have "entries_ok canon_lib demo_ks"
    by (auto simp: entries_ok_def demo_ks_def waiting_def sched_def)
  moreover have "m_tbl (db faulty_world) = map row_of demo_jobs" "r_ks (rds faulty_world) = demo_ks" "met faulty_world = []"
    "clk faulty_world = (\<lambda>n. 0)"
    by (simp_all add: faulty_world_def demo_world_def demo_pg_def)
  ultimately show ?thesis
    by (simp add: sys_ok_def schema_ok_rows demo_jobs_ok ks_ok_def metrics_ok_def gauge_def sane_clock_def year_ok_def
          time_Second_def) (simp add: demo_ks_def)
qed

theorem system_invariant_witness:
  "sys_ok m_tbl r_ks canon_lib 0
     (exec (tick_body canon_lib (app_sched demo_app) ScheduledLoop) (exec (worker_round canon_lib (cfg (app_pool demo_app))) faulty_world))"
  (is "sys_ok _ _ _ _ (exec ?t (exec ?r _))")
proof -
  have "app_step canon_lib demo_rest demo_app faulty_world (exec ?r faulty_world)"
    by (rule app_step.round [where go = "fst (run_state ?r faulty_world)"]) (simp add: exec_def)
  moreover have "app_step canon_lib demo_rest demo_app (exec ?r faulty_world) (exec ?t (exec ?r faulty_world))"
    by (rule app_step.tick [where l = ScheduledLoop and u = "()"]) (simp add: exec_def prod_eq_iff)
  ultimately have "(app_step canon_lib demo_rest demo_app)\<^sup>*\<^sup>* faulty_world (exec ?t (exec ?r faulty_world))" by auto
  from system_invariant [OF memst.storage_axioms memq.redis_queue_axioms canon.uuid_codec_axioms demo_app_def _ faulty_sound this]
    memsys.rest_reads show ?thesis by blast
qed

end
