(* ===== verification/Cluster.thy ===== *)
theory Cluster
  imports System ElectionRun
begin

text \<open>
  Several instances of the program over the same two servers: each elects, serves requests, runs
  jobs and, while its scheduler is started, makes the ticks.  The lock of the election and the
  table of the jobs are in one PostgreSQL server; what is needed is that the statements of the pool
  leave the lock alone and those of the elector the table.
\<close>

section \<open>What the pool's calls keep\<close>

text \<open>Whatever every call of the pool keeps, every operation of the program keeps.\<close>

locale pool_frame =
  fixes P :: "'d pgxpool" and I :: "'d \<Rightarrow> bool"
  assumes exec_keeps: "I d \<Longrightarrow> Exec P q as d = (x, d') \<Longrightarrow> I d'"
    and row_keeps: "I d \<Longrightarrow> QueryRow P q as d = (y, d') \<Longrightarrow> I d'"
    and query_keeps: "I d \<Longrightarrow> Query P q as d = (z, d') \<Longrightarrow> I d'"
    and ping_keeps: "I d \<Longrightarrow> Ping P d = (u, d') \<Longrightarrow> I d'"
begin

abbreviation keeps :: "(('d, 'r) world, 'a) state \<Rightarrow> bool" where
  "keeps m \<equiv> preserves (\<lambda>w. I (db w)) m"

lemma keeps_calls:
  "keeps (db_call (Exec P q as))" "keeps (db_call (QueryRow P q as))" "keeps (db_call (Query P q as))" "keeps (db_call (Ping P))"
  by (auto simp: valid_def run_db_call split: prod.splits dest: exec_keeps row_keeps query_keeps ping_keeps)

lemma keeps_rest: "keeps (rds_call f)" "keeps time_Now" "keeps (metric_do m ls q)"
  by (auto simp: valid_def run_rds_call run_time_Now run_metric_do split: prod.splits)

lemma keeps_handler:
  assumes "tame f"
  shows "keeps (f t pl)"
proof (rule validI)
  fix w x w'
  assume "I (db w)" "run_state (f t pl) w = (x, w')"
  moreover from this assms obtain n where "w' = w\<lparr>ticks := n\<rparr>" unfolding tame_def by blast
  ultimately show "I (db w')" by simp
qed

lemma keeps_storage:
  assumes "pool s = P"
  shows "keeps (CreateJob s job)" "keeps (GetJob s i)" "keeps (UpdateJobStatus s i st)" "keeps (UpdateJobError s i st rc e)"
    "keeps (ListJobs s f)" "keeps (jobs_query what s q as)" "keeps (GetQueueStats s)" "keeps (GetQueueStatsByName s name)"
    "keeps (GetTimeSeries s t v)" "keeps (DeleteJob s i)"
  unfolding CreateJob_def GetJob_def UpdateJobStatus_def UpdateJobError_def ListJobs_def jobs_query_def GetQueueStats_def
    GetQueueStatsByName_def GetTimeSeries_def DeleteJob_def Let_def assms
  by (auto intro!: preserves_intros keeps_calls keeps_rest split: prod.splits sum.splits list.splits val.splits)

lemma keeps_redis:
  "keeps (Push q name v)" "keeps (Pop q qs t)" "keeps (Schedule q v u)" "keeps (GetDueJobs q u)" "keeps (QueueLength q name)"
  "keeps (PublishJobEvent c e)"
  unfolding Push_def Pop_def Schedule_def GetDueJobs_def QueueLength_def PublishJobEvent_def Let_def
  by (auto intro!: preserves_intros keeps_rest split: prod.splits sum.splits list.splits)

text \<open>The operations of the program, over a storage with this pool.\<close>

lemma keeps_round:
  assumes "pool (store p) = P" "tame_registry (registry p)"
  shows "keeps (worker_round L p)"
proof -
  have failure: "keeps (handleFailure L p j e)" for j e
    unfolding handleFailure_def publishEvent_def Let_def
    by (intro preserves_intros keeps_storage keeps_redis keeps_rest assms)
  have handler: "keeps (run_handler L p f j)" if "tame f" for f j
    unfolding run_handler_def after_handler_def publishEvent_def Let_def
    by (intro preserves_intros failure keeps_handler [OF that] keeps_storage keeps_redis keeps_rest assms)
  have reg: "tame f" if "Registry_Get (registry p) ty = Some f" for ty f
    using assms(2) that by (simp add: tame_registry_def)
  show ?thesis
    unfolding worker_round_def processJob_def process_body_def process_loaded_def publishEvent_def
    by (intro preserves_intros handler reg keeps_storage keeps_redis keeps_rest assms(1))
qed

lemma keeps_tick:
  assumes "pool (sc_store s) = P"
  shows "keeps (tick_body L s l)"
proof -
  have enqueue: "keeps (enqueue_due L s sid)" for sid
    unfolding enqueue_due_def sc_publishEvent_def by (intro preserves_intros keeps_storage keeps_redis assms)
  show ?thesis
    by (cases l; simp only: tick_body.simps processScheduledJobs_def recoverUnqueuedJobs_def recoverStaleJobs_def
          sc_publishEvent_def GetPendingUnqueued_def GetStaleRunningJobs_def;
        intro preserves_intros enqueue keeps_storage keeps_redis keeps_rest assms)
qed

lemma keeps_fragments:
  assumes "pool (tr_store t) = P"
  shows "keeps (RenderStatsFragment t)" "keeps (RenderJobListFragment t f k)" "keeps (RenderJobDetailFragment t i)"
    "keeps (RenderDLQFragment t k)" "keeps (RenderChartDataFragment t)" "keeps (buildChartData t)"
  unfolding RenderStatsFragment_def RenderJobListFragment_def RenderJobDetailFragment_def RenderDLQFragment_def
    RenderChartDataFragment_def buildChartData_def
  by (intro preserves_intros keeps_storage keeps_rest assms)+

lemma keeps_feed: "pool (tr_store t) = P \<Longrightarrow> keeps (subscriber_turn t input)"
  unfolding subscriber_turn_def broadcastAllFragments_def Let_def
  by (auto intro!: preserves_intros keeps_fragments split: option.split)

lemma keeps_dashboard:
  assumes "pool (tr_store t) = P" "pool s = P" "\<And>e r. keeps (rest e r)"
  shows "keeps (dashboard_endpoint L t s key rest e r)"
proof -
  have "keeps (DashboardPageHandler t s key r)" "keeps (JobListHandler t key r)" "keeps (JobDetailHandler L t r)" "keeps (DLQHandler t key r)"
    unfolding DashboardPageHandler_def JobListHandler_def JobDetailHandler_def DLQHandler_def Let_def
    by (auto intro!: preserves_intros keeps_fragments keeps_storage assms split: prod.splits)
  with assms(3) show ?thesis by (cases e) simp_all
qed

lemma keeps_endpoint:
  assumes "pool (h_store h) = P" "\<And>e r. keeps (other e r)"
  shows "keeps (endpoint_handler L h b other e r)"
proof -
  have "keeps (api_CreateJob L h r)" "keeps (api_CancelJob L h r)" "keeps (api_RetryJob L h r)" "keeps (api_DeleteJob L h r)"
    "keeps (api_GetJob L h r)" "keeps (api_ListJobs L h r)" "keeps (api_GetQueues h r)" "keeps (api_GetQueueByName h r)"
    "keeps (api_GetStats h r)" "keeps (ReadyHandler b (h_store h) r)" "keeps (HealthHandler r)"
    unfolding api_CreateJob_def api_CancelJob_def api_RetryJob_def api_DeleteJob_def api_GetJob_def api_ListJobs_def
      api_GetQueues_def api_GetQueueByName_def api_GetStats_def ReadyHandler_def HealthHandler_def api_publishEvent_def Let_def assms(1)
    by (intro preserves_intros keeps_storage keeps_redis keeps_calls assms)+
  with assms(2) show ?thesis by (cases e) simp_all
qed

lemma keeps_serve:
  assumes "pool (h_store h) = P" "\<And>e r. keeps (other e r)"
  shows "keeps (serve_route L h key b other rt r)"
  unfolding serve_route_def RequestLogger_def APIKeyAuth_def
  by (cases rt) (auto intro!: preserves_intros keeps_rest keeps_endpoint assms)

lemma keeps_collectors: "keeps (collect_pool stat s)" "keeps (collect_depth q qs)"
  unfolding collect_pool_def collect_depth_def Let_def by (intro preserves_intros keeps_redis keeps_rest)+

end

section \<open>The cluster\<close>

text \<open>
  What an instance does besides electing, on the servers as they are: a tick only of a loop its
  scheduler has started, and a request with its own leadership.
\<close>

inductive node_work ::
  "lib \<Rightarrow> (endpoint \<Rightarrow> ('d, 'r) http_handler) \<Rightarrow> ('c, 'd, 'r) app \<Rightarrow> ('c, sched_ctl, 'd, 'r) node \<Rightarrow>
     ('d, 'r) world \<Rightarrow> ('d, 'r) world \<Rightarrow> bool"
  for L rest a n where
  request: "rt \<in> set routes \<Longrightarrow> run_state (NewRouter L rest (a\<lparr>app_elector := nd_el n\<rparr>) rt r) w = (x, w') \<Longrightarrow> node_work L rest a n w w'"
| round: "run_state (worker_round L (cfg (app_pool a))) w = (go, w') \<Longrightarrow> node_work L rest a n w w'"
| tick: "l \<in> set (loops (nd_app n)) \<Longrightarrow> run_state (tick_body L (app_sched a) l) w = (u, w') \<Longrightarrow> node_work L rest a n w w'"
| pool_stats: "run_state (collect_pool stat (app_store a)) w = (u, w') \<Longrightarrow> node_work L rest a n w w'"
| queue_depth: "run_state (collect_depth (app_queue a) main_queues) w = (u, w') \<Longrightarrow> node_work L rest a n w w'"
| feed: "run_state (subscriber_turn (app_renderer a) input) w = (m, w') \<Longrightarrow> node_work L rest a n w w'"

lemma node_work_app: "node_work L rest a n w w' \<Longrightarrow> app_step L rest a w w'"
  by (induction rule: node_work.induct) (blast intro: app_step.intros)+

text \<open>The world of an instance: its clock, metrics and context, and the servers.\<close>

definition on_servers :: "'d \<Rightarrow> 'r \<Rightarrow> ('d, 'r) world \<Rightarrow> ('d, 'r) world" where
  "on_servers d r w = w\<lparr>db := d, rds := r\<rparr>"

inductive cluster_step ::
  "lib \<Rightarrow> (endpoint \<Rightarrow> ('d, 'r) http_handler) \<Rightarrow> ('c, 'd) pgx \<Rightarrow> (nat \<Rightarrow> ('c, 'd, 'r) app) \<Rightarrow>
     'd \<times> 'r \<times> (nat \<Rightarrow> ('c, sched_ctl, 'd, 'r) node) \<Rightarrow> 'd \<times> 'r \<times> (nat \<Rightarrow> ('c, sched_ctl, 'd, 'r) node) \<Rightarrow> bool"
  for L rest X as where
  elect: "node_step X (d, ns i) (d', n) \<Longrightarrow> cluster_step L rest X as (d, r, ns) (d', r, ns(i := n))"
| work: "node_work L rest (as i) (ns i) (on_servers d r (nd_w (ns i))) w \<Longrightarrow>
     cluster_step L rest X as (d, r, ns) (db w, rds w, ns(i := (ns i)\<lparr>nd_w := w\<rparr>))"

text \<open>An instance runs the loops of the scheduler only in office.\<close>

definition office_ok :: "('c, sched_ctl, 'd, 'r) node \<Rightarrow> bool" where
  "office_ok n \<longleftrightarrow>
     onAcquire (nd_el n) = Some sc_Start \<and> onRelease (nd_el n) = Some sched_Stop \<and>
     running (nd_app n) = in_office (nd_phase n) \<and> (loops (nd_app n) \<noteq> [] \<longrightarrow> running (nd_app n))"

lemmas office_simps = office_ok_def in_office_def node_world_def run_metric_do

lemma office_step:
  assumes "node_step X (d, n) (d', n')" "office_ok n"
  shows "office_ok n'"
  using assms(1)
proof cases
  case (attempt ph e x w)
  show ?thesis
  proof (cases "cancelled (nd_w n)")
    case True
    with attempt assms(2) show ?thesis by (auto simp: Start_turn_def office_simps)
  next
    case False
    obtain err e1 w1 where 1: "run_state (tryAcquire X (nd_el n)) (node_world d n) = ((err, e1), w1)" by (metis surj_pair)
    then obtain d1 where "w1 = (node_world d n)\<lparr>db := d1\<rparr>" "onAcquire e1 = onAcquire (nd_el n)" "onRelease e1 = onRelease (nd_el n)"
      by (rule tryAcquire_frame)
    with False attempt 1 assms(2) show ?thesis by (cases err) (auto simp: Start_turn_def office_simps)
  qed
next
  case (release ph e x w)
  with assms(2) show ?thesis by (auto simp: Start_release_def office_simps)
next
  case signal
  with assms(2) show ?thesis by (auto simp: office_simps)
qed (use assms(2) in \<open>auto simp: holdLock_done_def holdLock_tick_def verifyLock_def elector_Stop_def drop_conn_def office_simps run_db_call
        split: option.splits sum.splits bool.splits prod.splits if_splits\<close>)

text \<open>The contract: the parts of the program, the lock server, and that they do not meet.\<close>

locale cluster_services =
  st: storage st tbl env up + rq: redis_queue rq ks pub rup + uuid_codec L + lk: lock_server X holder used lup
  for st :: "'d PostgresStorage" and tbl :: "'d \<Rightarrow> table" and env up
    and rq :: "'r RedisQueue" and ks :: "'r \<Rightarrow> keyspace" and pub rup and L :: lib
    and X :: "('c, 'd) pgx" and holder used lup +
  fixes as :: "nat \<Rightarrow> ('c, 'd, 'r) app" and rest :: "endpoint \<Rightarrow> ('d, 'r) http_handler"
  assumes apps: "\<exists>tmpl zone roll conf. as i = main_app tmpl zone roll conf st rq"
    and rest_reads: "preserves (same_data tbl v) (rest e r)"
    and rest_locks: "preserves (\<lambda>w. holder (db w) = h \<and> used (db w) = U) (rest e r)"
    and pool_locks: "pool_frame (pool st) (\<lambda>d. holder d = h \<and> used d = U)"
    and connect_tbl: "tbl (snd (pgx_Connect X cs d)) = tbl d"
    and close_tbl: "tbl (pgx_Close X c d) = tbl d"
    and try_tbl: "tbl (snd (pgx_try_lock X c k d)) = tbl d"
    and count_tbl: "tbl (snd (pgx_lock_count X c k d)) = tbl d"
begin

lemma as_app: "app_services st tbl env up rq ks pub rup L (as i) rest"
  by (intro app_services.intro app_services_axioms.intro st.storage_axioms rq.redis_queue_axioms uuid_codec_axioms apps rest_reads)

text \<open>Work leaves the lock alone.\<close>

lemma work_locks:
  assumes "node_work L rest (as i) n w w'"
  shows "holder (db w') = holder (db w) \<and> used (db w') = used (db w)"
proof -
  note fr = pool_locks [of "holder (db w)" "used (db w)"] and parts = app_services.app_parts [OF as_app, of i]
  have st: "pool (app_store (as i)) = pool st" "pool (tr_store (app_renderer (as i))) = pool st" by (simp_all add: parts)
  let ?I = "\<lambda>w'. holder (db w') = holder (db w) \<and> used (db w') = used (db w)"
  show ?thesis
  proof (rule app_step_keeps [where P = ?I, OF node_work_app [OF assms]])
    fix e rt r
    show "preserves ?I (NewRouter L rest ((as i)\<lparr>app_elector := e\<rparr>) rt r)"
      unfolding NewRouter_def
      by (intro pool_frame.keeps_serve [OF fr] pool_frame.keeps_dashboard [OF fr] rest_locks) (simp_all add: st NewHandler_def)
  next
    show "preserves ?I (worker_round L (cfg (app_pool (as i))))"
      by (rule pool_frame.keeps_round [OF fr]) (simp_all add: parts)
    show "preserves ?I (tick_body L (app_sched (as i)) l)" for l
      by (rule pool_frame.keeps_tick [OF fr]) (simp add: parts)
    show "preserves ?I (subscriber_turn (app_renderer (as i)) input)" for input
      by (rule pool_frame.keeps_feed [OF fr]) (rule st)
  qed (simp_all add: pool_frame.keeps_collectors [OF fr])
qed

text \<open>Electing leaves the table, Redis and the number of active workers alone.\<close>

lemma sys_locks:
  "preserves (sys_ok tbl ks L n) (db_call (pgx_Connect X cs))" "preserves (sys_ok tbl ks L n) (db_call (\<lambda>d. ((), pgx_Close X c d)))"
  "preserves (sys_ok tbl ks L n) (db_call (pgx_try_lock X c k))" "preserves (sys_ok tbl ks L n) (db_call (pgx_lock_count X c k))"
  using connect_tbl close_tbl try_tbl count_tbl
  by (auto simp: valid_def run_db_call sys_ok_def metrics_ok_def sane_clock_def split: prod.splits) (metis snd_conv)+

lemma sys_metric:
  "call_ok (m, ls, q) \<Longrightarrow> m \<noteq> ActiveWorkers \<Longrightarrow> preserves (sys_ok tbl ks L n) (metric_do m ls q)"
  unfolding knows_none [symmetric] by (rule knows_metric) simp_all

lemma sys_drop: "preserves (sys_ok tbl ks L n) (drop_conn X e)"
  unfolding drop_conn_def by (intro preserves_intros sys_locks)

lemma sys_tryAcquire:
  "valid (sys_ok tbl ks L n) (tryAcquire X e) (\<lambda>x w. sys_ok tbl ks L n w \<and> onAcquire (snd x) = onAcquire e)"
proof (rule validI)
  fix w x w'
  assume s: "sys_ok tbl ks L n w" and r: "run_state (tryAcquire X e) w = (x, w')"
  obtain err e' where x: "x = (err, e')" by (cases x)
  have "preserves (sys_ok tbl ks L n) (tryAcquire X e)"
    unfolding tryAcquire_def ensure_conn_def
    by (auto intro!: preserves_intros sys_locks split: sum.split bool.split)
  from validD [OF this s r] have "sys_ok tbl ks L n w'" .
  moreover have "onAcquire e' = onAcquire e" using r tryAcquire_frame unfolding x by metis
  ultimately show "sys_ok tbl ks L n w' \<and> onAcquire (snd x) = onAcquire e" by (simp add: x)
qed

lemma sys_callbacks:
  "preserves (sys_ok tbl ks L n) (call_back (Some sc_Start) x)" "preserves (sys_ok tbl ks L n) (call_back (Some sched_Stop) x)"
  unfolding call_back_def sc_Start_def sched_Stop_def sc_Stop_end_def option.case
  by (intro preserves_intros sys_metric; simp add: call_ok_def)+

lemma sys_attempt:
  assumes "onAcquire e = Some sc_Start"
  shows "preserves (sys_ok tbl ks L n) (Start_turn X e x)"
proof -
  have "valid (\<lambda>w. sys_ok tbl ks L n w \<and> onAcquire (snd y) = onAcquire e)
          (case y of (err, e') \<Rightarrow> case err of
             Some _ \<Rightarrow> do { metric_do LeaderElectionsTotal [''failed''] Inc; ret (Electing, e', x) }
           | None \<Rightarrow> do { metric_do LeaderStatus [] (SetTo 1); metric_do LeaderElectionsTotal [''acquired''] Inc;
                         x' \<leftarrow> call_back (onAcquire e') x; ret (Holding, e'\<lparr>le_isLeader := True\<rparr>, x') })
          (\<lambda>_. sys_ok tbl ks L n)" for y
    using assms
    by (intro valid_pre_conj; cases y; simp; intro preserves_option preserves_intros sys_metric; simp add: call_ok_def sys_callbacks)
  note rest = valid_bind [OF sys_tryAcquire this]
  show ?thesis
    unfolding Start_turn_def by (intro preserves_bind preserves_gets preserves_if preserves_ret rest)
qed

lemma sys_turns:
  assumes "onRelease e = Some sched_Stop"
  shows "preserves (sys_ok tbl ks L n) (holdLock_done X e)"
    "preserves (sys_ok tbl ks L n) (holdLock_tick X e)" "preserves (sys_ok tbl ks L n) (Start_release e x)"
    "preserves (sys_ok tbl ks L n) (elector_Stop X e)"
  unfolding holdLock_done_def holdLock_tick_def verifyLock_def Start_release_def elector_Stop_def assms
  by (auto intro!: preserves_intros sys_drop sys_locks sys_metric sys_callbacks simp: call_ok_def split: option.split sum.split bool.split)

text \<open>
  The invariant of the cluster: sound data, seen from every instance; the locks as in the
  election; and the offices.
\<close>

definition cluster_ok :: "(nat \<Rightarrow> int) \<Rightarrow> 'd \<times> 'r \<times> (nat \<Rightarrow> ('c, sched_ctl, 'd, 'r) node) \<Rightarrow> bool" where
  "cluster_ok m s \<longleftrightarrow>
     (case s of (d, r, ns) \<Rightarrow>
        (\<forall>i. sys_ok tbl ks L (m i) (node_world d (ns i)) \<and> office_ok (ns i)) \<and>
        ks_ok (ks r) \<and> entries_ok L (ks r) \<and> election_inv holder used (d, ns))"

lemma sys_ok_servers:
  assumes "sys_ok tbl ks L n w" "schema_ok (tbl d)" "list_all job_sound (table_jobs (tbl d))"
  shows "sys_ok tbl ks L n (w\<lparr>db := d\<rparr>)" "ks_ok (ks r) \<Longrightarrow> entries_ok L (ks r) \<Longrightarrow> sys_ok tbl ks L n (on_servers d r w)"
  using assms by (simp_all add: sys_ok_def on_servers_def metrics_ok_def sane_clock_def)

lemma sys_node_step:
  assumes "node_step X (d, n) (d', n')" "office_ok n" "sys_ok tbl ks L k (node_world d n)"
  shows "sys_ok tbl ks L k (node_world d' n')"
proof -
  have cb: "onAcquire (nd_el n) = Some sc_Start" "onRelease (nd_el n) = Some sched_Stop" using assms(2) by (simp_all add: office_ok_def)
  from assms(1) show ?thesis
  proof cases
    case (attempt ph e x w)
    with validD [OF sys_attempt [OF cb(1)] assms(3)] show ?thesis by (simp add: node_world_def)
  next
    case (hold_done ph e w)
    with validD [OF sys_turns(1) [OF cb(2)] assms(3)] show ?thesis by (simp add: node_world_def)
  next
    case (hold_tick ph e w)
    with validD [OF sys_turns(2) [OF cb(2)] assms(3)] show ?thesis by (simp add: node_world_def)
  next
    case (release ph e x w)
    with validD [OF sys_turns(3) [OF cb(2)] assms(3)] show ?thesis by (simp add: node_world_def)
  next
    case signal
    with assms(3) show ?thesis by (simp add: node_world_def sys_ok_def metrics_ok_def sane_clock_def)
  next
    case (stop e w)
    with validD [OF sys_turns(4) [OF cb(2)] assms(3)] show ?thesis by (simp add: node_world_def)
  qed
qed

lemma cluster_elect:
  assumes "node_step X (d, ns i) (d', n)" "cluster_ok m (d, r, ns)"
  shows "cluster_ok m (d', r, ns(i := n))"
proof -
  have ok: "sys_ok tbl ks L (m j) (node_world d (ns j))" "office_ok (ns j)" for j using assms(2) by (simp_all add: cluster_ok_def)
  note i = sys_node_step [OF assms(1) ok(2,1)]
  then have data: "schema_ok (tbl d')" "list_all job_sound (table_jobs (tbl d'))" by (simp_all add: sys_ok_def node_world_def)
  have "sys_ok tbl ks L (m j) (node_world d' ((ns(i := n)) j))" for j
    using i sys_ok_servers(1) [OF ok(1) [of j] data] by (simp add: node_world_def)
  moreover have "office_ok ((ns(i := n)) j)" for j using office_step [OF assms(1) ok(2)] ok(2) by simp
  moreover have "election_inv holder used (d', ns(i := n))"
  proof (rule lk.election_step_inv [of "\<lambda>_ _. False"])
    show "election_step X (\<lambda>_ _. False) (d, ns) (d', ns(i := n))" using assms(1) by (rule election_step.node)
    show "election_inv holder used (d, ns)" using assms(2) by (simp add: cluster_ok_def)
  qed simp
  ultimately show ?thesis using assms(2) by (simp add: cluster_ok_def)
qed

lemma cluster_work:
  assumes "node_work L rest (as i) (ns i) (on_servers d r (nd_w (ns i))) w" "cluster_ok m (d, r, ns)"
  shows "cluster_ok m (db w, rds w, ns(i := (ns i)\<lparr>nd_w := w\<rparr>))"
proof -
  have ok: "sys_ok tbl ks L (m j) (node_world d (ns j))" "office_ok (ns j)" for j using assms(2) by (simp_all add: cluster_ok_def)
  have d: "schema_ok (tbl d)" "list_all job_sound (table_jobs (tbl d))" using ok(1) by (auto simp: sys_ok_def node_world_def)
  have "sys_ok tbl ks L (m i) (on_servers d r (nd_w (ns i)))"
    using sys_ok_servers(2) [OF ok(1) [of i] d, of r] assms(2) by (simp add: cluster_ok_def on_servers_def node_world_def)
  from app_services.sys_step [OF as_app node_work_app [OF assms(1)] this] have w: "sys_ok tbl ks L (m i) w" .
  then have data: "schema_ok (tbl (db w))" "list_all job_sound (table_jobs (tbl (db w)))" "ks_ok (ks (rds w))" "entries_ok L (ks (rds w))"
    by (simp_all add: sys_ok_def)
  have "sys_ok tbl ks L (m j) (node_world (db w) ((ns(i := (ns i)\<lparr>nd_w := w\<rparr>)) j))" for j
    using w sys_ok_servers(1) [OF ok(1) [of j] data(1,2)] by (simp add: node_world_def)
  moreover have "office_ok ((ns(i := (ns i)\<lparr>nd_w := w\<rparr>)) j)" for j using ok(2) [of j] ok(2) [of i] by (auto simp: office_ok_def)
  moreover have "election_inv holder used (db w, ns(i := (ns i)\<lparr>nd_w := w\<rparr>))"
  proof -
    have "holder (db w) = holder d" "used (db w) = used d" using work_locks [OF assms(1)] by (simp_all add: on_servers_def)
    then show ?thesis using assms(2) by (auto simp: cluster_ok_def election_inv_def node_ok_def leading_def)
  qed
  ultimately show ?thesis using data(3,4) by (simp add: cluster_ok_def)
qed

lemma cluster_reach:
  assumes "(cluster_step L rest X as)\<^sup>*\<^sup>* s s'" "cluster_ok m s"
  shows "cluster_ok m s'"
  using assms
proof (induction rule: rtranclp_induct)
  case (step y z)
  from step(2,3) step(4) show ?case
    by (cases rule: cluster_step.cases) (auto intro: cluster_elect cluster_work)
qed

end

section \<open>A server with both\<close>

text \<open>The table of the jobs and the lock of the election in one server in memory.\<close>

definition on_table :: "('p \<Rightarrow> 'a \<times> 'p) \<Rightarrow> 'p \<times> 'l \<Rightarrow> 'a \<times> 'p \<times> 'l" where
  "on_table f d = (case f (fst d) of (x, p) \<Rightarrow> (x, p, snd d))"

definition on_lock :: "('l \<Rightarrow> 'a \<times> 'l) \<Rightarrow> 'p \<times> 'l \<Rightarrow> 'a \<times> 'p \<times> 'l" where
  "on_lock f d = (case f (snd d) of (x, l) \<Rightarrow> (x, fst d, l))"

definition table_pool :: "'p pgxpool \<Rightarrow> ('p \<times> 'l) pgxpool" where
  "table_pool P =
     \<lparr>Exec = (\<lambda>q as. on_table (Exec P q as)), QueryRow = (\<lambda>q as. on_table (QueryRow P q as)),
      Query = (\<lambda>q as. on_table (Query P q as)), Ping = on_table (Ping P)\<rparr>"

definition lock_pgx :: "('c, 'l) pgx \<Rightarrow> ('c, 'p \<times> 'l) pgx" where
  "lock_pgx X =
     \<lparr>pgx_Connect = (\<lambda>s. on_lock (pgx_Connect X s)), pgx_IsClosed = (\<lambda>c d. pgx_IsClosed X c (snd d)),
      pgx_Close = (\<lambda>c d. (fst d, pgx_Close X c (snd d))), pgx_try_lock = (\<lambda>c i. on_lock (pgx_try_lock X c i)),
      pgx_lock_count = (\<lambda>c i. on_lock (pgx_lock_count X c i))\<rparr>"

lemma on_table_iff: "on_table f d = (x, d') \<longleftrightarrow> f (fst d) = (x, fst d') \<and> snd d' = snd d"
  by (cases d; cases d') (auto simp: on_table_def split: prod.splits)

lemma on_lock_iff: "on_lock f d = (x, d') \<longleftrightarrow> f (snd d) = (x, snd d') \<and> fst d' = fst d"
  by (cases d; cases d') (auto simp: on_lock_def split: prod.splits)

lemma table_postgres:
  assumes "postgres P tbl env up"
  shows "postgres (table_pool P :: ('p \<times> 'l) pgxpool) (\<lambda>d. tbl (fst d)) (\<lambda>d. env (fst d)) (\<lambda>d. up (fst d))"
proof -
  note laws = postgres.exec_ok [OF assms] postgres.exec_fail [OF assms] postgres.row_ok [OF assms] postgres.row_fail [OF assms]
    postgres.query_ok [OF assms] postgres.query_cut [OF assms] postgres.query_fail [OF assms] postgres.ping_tbl [OF assms]
    postgres.up_after_exec [OF assms] postgres.up_after_row [OF assms] postgres.up_after_query [OF assms] postgres.up_after_ping [OF assms]
  have ex: "(\<exists>d'. on_table f d = (x, d') \<and> Q (fst d')) \<longleftrightarrow> (\<exists>p. f (fst d) = (x, p) \<and> Q p)" for f and d :: "'p \<times> 'l" and x :: 'z and Q
    by (auto simp: on_table_iff)
  show ?thesis
    by unfold_locales
       (auto simp: table_pool_def on_table_iff ex dest: laws intro: postgres.scan_perm [OF assms] postgres.up_exec [OF assms]
          postgres.up_row [OF assms] postgres.up_row_none [OF assms] postgres.up_query [OF assms] postgres.up_query_rejected [OF assms])
qed

lemma lock_lock_server:
  assumes "lock_server X holder used lup"
  shows "lock_server (lock_pgx X :: ('c, 'p \<times> 'l) pgx) (\<lambda>d. holder (snd d)) (\<lambda>d. used (snd d)) (\<lambda>d. lup (snd d))"
proof -
  note laws = lock_server.connect_new [OF assms] lock_server.connect_err [OF assms] lock_server.try_granted [OF assms]
    lock_server.try_refused [OF assms] lock_server.try_err [OF assms] lock_server.count_sees [OF assms] lock_server.holder_used [OF assms]
  have ex: "(\<exists>d'. on_lock f d = (x, d') \<and> Q (snd d')) \<longleftrightarrow> (\<exists>p. f (snd d) = (x, p) \<and> Q p)" for f and d :: "'p \<times> 'l" and x :: 'z and Q
    by (auto simp: on_lock_iff)
  show ?thesis
    by unfold_locales
       (auto simp: lock_pgx_def on_lock_iff ex lock_server.close_releases [OF assms] dest: laws
          intro: lock_server.up_connect [OF assms] lock_server.up_try [OF assms])
qed

lemma table_frame: "pool_frame (table_pool P) (\<lambda>d. I (snd d))"
  by unfold_locales (auto simp: table_pool_def on_table_iff)

definition both_store :: "(pgmem \<times> lockmem) PostgresStorage" where
  "both_store = \<lparr>pool = table_pool mem_pool, connStr = ''postgres://db''\<rparr>"

definition both_apps :: "nat \<Rightarrow> (nat, pgmem \<times> lockmem, rmem) app" where
  "both_apps i = main_app (\<lambda>_ _. ([], None)) (\<lambda>_. 0) (\<lambda>_. 0) demo_conf both_store mem_queue"

interpretation memcl: cluster_services both_store "\<lambda>d. m_tbl (fst d)" "\<lambda>d. mem_env (fst d)" "\<lambda>d. mem_up (fst d)"
  mem_queue r_ks r_pub rmem_up canon_lib "lock_pgx lm_pgx" "\<lambda>d. lm_holder (snd d)" "\<lambda>d. {..<l_next (snd d)}" "\<lambda>d. True"
  both_apps demo_rest
proof (intro cluster_services.intro cluster_services_axioms.intro memq.redis_queue_axioms canon.uuid_codec_axioms)
  show "storage both_store (\<lambda>d. m_tbl (fst d)) (\<lambda>d. mem_env (fst d)) (\<lambda>d. mem_up (fst d))"
    unfolding storage_def both_store_def by (simp add: table_postgres mem.postgres_axioms)
  show "lock_server (lock_pgx lm_pgx) (\<lambda>d. lm_holder (snd d)) (\<lambda>d. {..<l_next (snd d)}) (\<lambda>d. True)"
    using lock_lock_server [OF lm.lock_server_axioms] .
  show "\<exists>tmpl zone roll conf. both_apps i = main_app tmpl zone roll conf both_store mem_queue" for i
    unfolding both_apps_def by blast
  show "pool_frame (pool both_store) (\<lambda>d. lm_holder (snd d) = h \<and> {..<l_next (snd d)} = U)" for h U
    using table_frame [of mem_pool "\<lambda>l. lm_holder l = h \<and> {..<l_next l} = U"] by (simp add: both_store_def)
qed (simp_all add: demo_rest_def HealthHandler_def reads_ret preserves_ret lock_pgx_def on_lock_def split: prod.split)

section \<open>The property\<close>


definition both_world :: "(pgmem \<times> lockmem, rmem) world" where
  "both_world =
     \<lparr>db = (db faulty_world, lm_free), rds = rds faulty_world, clk = clk faulty_world, ticks = 0, met = [], cancelled = False\<rparr>"

definition both_nodes :: "nat \<Rightarrow> (nat, sched_ctl, pgmem \<times> lockmem, rmem) node" where
  "both_nodes i = main_node ''postgres://db'' (2 * time_Second) both_world"

lemma both_sound: "sys_ok (\<lambda>d. m_tbl (fst d)) r_ks canon_lib 0 both_world"
proof -
  have "met faulty_world = []" by (simp add: faulty_world_def demo_world_def)
  with faulty_sound show ?thesis
    by (simp add: sys_ok_def both_world_def metrics_ok_def sane_clock_def)
qed


end
