(* ===== verification/Delivery.thy ===== *)
theory Delivery
  imports System
begin

text \<open>
  With both servers up no waiting job is forgotten: a job that is pending, scheduled or retrying
  has an entry in its queue or in the schedule, after every step of the program.  A step breaks
  this for a moment, when it has stored a status and not yet the entry, or has taken an entry and
  not yet looked at the job; \<open>tracked E\<close> says that the jobs for which this may be so are in \<open>E\<close>.
\<close>

definition waits :: "Job \<Rightarrow> bool" where
  "waits j \<longleftrightarrow> Status j \<in> {StatusPending, StatusScheduled, StatusRetrying}"

definition placed :: "lib \<Rightarrow> keyspace \<Rightarrow> Job \<Rightarrow> bool" where
  "placed L k j \<longleftrightarrow>
     uuid_String L (ID j) \<in> set (waiting k (Queue j)) \<or> uuid_String L (ID j) \<in> dom (sched k)"

definition track :: "lib \<Rightarrow> uuid set \<Rightarrow> keyspace \<Rightarrow> Job \<Rightarrow> bool" where
  "track L E k j \<longleftrightarrow> text_ok (Type j) \<and> (waits j \<longrightarrow> ID j \<in> E \<or> placed L k j)"

definition tracked ::
  "('d \<Rightarrow> table) \<Rightarrow> ('d \<Rightarrow> bool) \<Rightarrow> ('r \<Rightarrow> keyspace) \<Rightarrow> ('r \<Rightarrow> bool) \<Rightarrow> lib \<Rightarrow> uuid set \<Rightarrow> ('d, 'r) world \<Rightarrow> bool" where
  "tracked tbl up ks rup L E w \<longleftrightarrow>
     services_up (\<lambda>d. schema_ok (tbl d)) up ks rup w \<and> list_all (track L E (ks (rds w))) (table_jobs (tbl (db w)))"

lemma tracked_mono: "tracked tbl up ks rup L E w \<Longrightarrow> E \<subseteq> E' \<Longrightarrow> tracked tbl up ks rup L E' w"
  by (auto simp: tracked_def list_all_iff track_def)

lemma tracked_db:
  assumes "tracked tbl up ks rup L E w" "schema_ok (tbl d)" "up d" "list_all (track L E' (ks (rds w))) (table_jobs (tbl d))"
  shows "tracked tbl up ks rup L E' (w\<lparr>ticks := m, db := d\<rparr>)"
  using assms by (simp add: tracked_def services_up_def sane_clock_def)

lemma tracked_rds:
  assumes "tracked tbl up ks rup L E w" "rup r" "ks_ok (ks r)"
    and "\<And>j. j \<in> set (table_jobs (tbl (db w))) \<Longrightarrow> track L E (ks (rds w)) j \<Longrightarrow> track L E' (ks r) j"
  shows "tracked tbl up ks rup L E' (w\<lparr>ticks := m, rds := r\<rparr>)"
  using assms by (auto simp: tracked_def services_up_def sane_clock_def list_all_iff)

lemma waits_simps [simp]:
  "waits (set_status st n u j) \<longleftrightarrow> st \<in> {StatusPending, StatusScheduled, StatusRetrying}"
  "waits (set_error st rc e u j) \<longleftrightarrow> st \<in> {StatusPending, StatusScheduled, StatusRetrying}"
  by (simp_all add: waits_def set_status_def set_error_def)

lemma placed_simps [simp]:
  "placed L k (set_status st n u j) = placed L k j" "placed L k (set_error st rc e u j) = placed L k j"
  "Type (set_status st n u j) = Type j" "Type (set_error st rc e u j) = Type j"
  "ID (set_status st n u j) = ID j" "ID (set_error st rc e u j) = ID j"
  by (simp_all add: placed_def set_status_def set_error_def)

lemma list_all_upd_job:
  assumes "list_all P js" "\<And>j. P j \<Longrightarrow> ID j \<noteq> i \<Longrightarrow> Q j" "\<And>j. P j \<Longrightarrow> ID j = i \<Longrightarrow> Q (f j)"
  shows "list_all Q (upd_job i f js)"
  using assms by (auto simp: list_all_iff upd_job_def)

abbreviation settles :: "JobStatus \<Rightarrow> bool" where
  "settles st \<equiv> st \<notin> {StatusPending, StatusScheduled, StatusRetrying}"

lemma settle_facts: "settles StatusRunning" "settles StatusCompleted" "settles StatusFailed" "settles StatusDead" "settles StatusCancelled"
  by (simp_all add: status_facts)

section \<open>The calls\<close>

named_theorems stays \<open>calls after which the database is still up\<close>

context storage
begin

lemma stays_calls [stays]:
  "preserves (\<lambda>w. up (db w)) (db_call (Exec (pool s) q as))" "preserves (\<lambda>w. up (db w)) (db_call (QueryRow (pool s) q as))"
  "preserves (\<lambda>w. up (db w)) (db_call (Query (pool s) q as))" "preserves (\<lambda>w. up (db w)) (db_call (Ping (pool s)))"
  by (auto intro!: validI simp: run_db_call split: prod.splits)
     (blast intro: up_after_exec up_after_row up_after_query up_after_ping)+

lemma stays_now [stays]: "preserves (\<lambda>w. up (db w)) time_Now"
  by (auto intro!: validI simp: run_time_Now)

abbreviation trk :: "('r \<Rightarrow> keyspace) \<Rightarrow> ('r \<Rightarrow> bool) \<Rightarrow> lib \<Rightarrow> uuid set \<Rightarrow> ('d, 'r) world \<Rightarrow> bool" where
  "trk \<equiv> tracked tbl up"

lemma trk_up: "trk ks rup L E w \<Longrightarrow> ok (db w) \<and> up (db w) \<and> list_all (track L E (ks (rds w))) (jobs (db w))"
  by (simp add: tracked_def services_up_def)

lemma trk_GetJob:
  "valid (trk ks rup L E) (GetJob s i)
     (\<lambda>x w. case x of Inl _ \<Rightarrow> trk ks rup L (E - {i}) w
            | Inr j \<Rightarrow> trk ks rup L E w \<and> ID j = i \<and> text_ok (Type j) \<and> in_int4 (RetryCount j))"
proof (rule validI)
  fix w x w'
  assume k: "trk ks rup L E w" and r: "run_state (GetJob s i) w = (x, w')"
  note w = trk_up [OF k, THEN conjunct1] trk_up [OF k, THEN conjunct2, THEN conjunct1] trk_up [OF k, THEN conjunct2, THEN conjunct2]
  note jo = ok_jobs_ok [OF w(1)]
  show "case x of Inl _ \<Rightarrow> trk ks rup L (E - {i}) w'
        | Inr j \<Rightarrow> trk ks rup L E w' \<and> ID j = i \<and> text_ok (Type j) \<and> in_int4 (RetryCount j)"
  proof (cases "look (jobs (db w)) i")
    case None
    obtain e d where d: "run_state (GetJob s i) w = (Inl e, w\<lparr>db := d\<rparr>)" "ok d" "up d" "jobs d = jobs (db w)"
      using w(1,2) None by (rule store.get_none_exact)
    have "j \<in> set (jobs (db w)) \<Longrightarrow> ID j \<noteq> i" for j using None look_Some_iff [OF jo, of i j] by auto
    then have "list_all (track L (E - {i}) (ks (rds w))) (jobs d)"
      using w(3) d(4) by (auto simp: list_all_iff track_def)
    then have "trk ks rup L (E - {i}) (w\<lparr>db := d\<rparr>)" using tracked_db [OF k d(2,3), of "E - {i}" "ticks w"] by simp
    with r d(1) show ?thesis by auto
  next
    case (Some j)
    obtain d where d: "run_state (GetJob s i) w = (Inr j, w\<lparr>db := d\<rparr>)" "ok d" "up d" "jobs d = jobs (db w)"
      using w(1,2) Some by (rule store.get_exact)
    have "j \<in> set (jobs (db w))" "ID j = i" using Some look_Some_iff [OF jo] by auto
    then have "ID j = i" "text_ok (Type j)" "in_int4 (RetryCount j)"
      using w(3) jo by (auto simp: list_all_iff track_def jobs_ok_def job_ok_def)
    moreover have "trk ks rup L E (w\<lparr>db := d\<rparr>)" using tracked_db [OF k d(2,3), of E "ticks w"] w(3) d(4) by simp
    ultimately show ?thesis using r d(1) by auto
  qed
qed

lemma trk_settle:
  assumes "settles st" "utf8_length st \<le> 20" "text_ok st"
  shows "valid (trk ks rup L E) (UpdateJobStatus s i st) (\<lambda>y w. y = None \<and> trk ks rup L (E - {i}) w)"
proof (rule validI)
  fix w y w'
  assume k: "trk ks rup L E w" and r: "run_state (UpdateJobStatus s i st) w = (y, w')"
  note w = trk_up [OF k, THEN conjunct1] trk_up [OF k, THEN conjunct2, THEN conjunct1] trk_up [OF k, THEN conjunct2, THEN conjunct2]
  obtain d n u where d: "run_state (UpdateJobStatus s i st) w = (None, w\<lparr>ticks := Suc (ticks w), db := d\<rparr>)" "ok d" "up d"
    "jobs d = upd_job i (set_status st n u) (jobs (db w))"
    using w(1,2) assms(2,3) by (rule store.status_exact)
  have "list_all (track L (E - {i}) (ks (rds w))) (jobs d)"
    unfolding d(4) using w(3) by (rule list_all_upd_job) (use assms(1) in \<open>auto simp: track_def\<close>)
  from tracked_db [OF k d(2,3) this] r d(1) show "y = None \<and> trk ks rup L (E - {i}) w'" by auto
qed

lemma trk_error:
  assumes "settles st \<Longrightarrow> E \<subseteq> E'" "\<not> settles st \<Longrightarrow> insert i E \<subseteq> E'"
  shows "valid (trk ks rup L E) (UpdateJobError s i st rc e) (\<lambda>_. trk ks rup L E')"
proof (rule validI)
  fix w y w'
  assume k: "trk ks rup L E w" and r: "run_state (UpdateJobError s i st rc e) w = (y, w')"
  note w = trk_up [OF k, THEN conjunct1] trk_up [OF k, THEN conjunct2, THEN conjunct1] trk_up [OF k, THEN conjunct2, THEN conjunct2]
  have "preserves (\<lambda>w. up (db w)) (UpdateJobError s i st rc e)"
    unfolding UpdateJobError_def by (intro preserves_intros stays)
  then have u: "up (db w')" using validD w(2) r by fastforce
  obtain d t where d: "w' = w\<lparr>db := d\<rparr>" "ok d" "jobs d = jobs (db w) \<or> jobs d = upd_job i (set_error st rc e t) (jobs (db w))"
    using UpdateJobError_run [OF w(1) r] by blast
  have E: "E \<subseteq> E'" using assms by blast
  have "list_all (track L E' (ks (rds w))) (jobs d)"
    using d(3)
  proof
    assume "jobs d = jobs (db w)"
    then show ?thesis using w(3) E by (auto simp: list_all_iff track_def)
  next
    assume eq: "jobs d = upd_job i (set_error st rc e t) (jobs (db w))"
    show ?thesis unfolding eq using w(3)
      by (rule list_all_upd_job) (use assms E in \<open>auto simp: track_def\<close>)
  qed
  from tracked_db [OF k d(2) _ this, of "ticks w"] d(1) u show "trk ks rup L E' w'" by simp
qed

lemma trk_fail:
  assumes "in_int4 rc" "text_ok e"
  shows "valid (trk ks rup L E) (UpdateJobError s i StatusFailed rc e) (\<lambda>_. trk ks rup L (E - {i}))"
proof (rule validI)
  fix w y w'
  assume k: "trk ks rup L E w" and r: "run_state (UpdateJobError s i StatusFailed rc e) w = (y, w')"
  note w = trk_up [OF k, THEN conjunct1] trk_up [OF k, THEN conjunct2, THEN conjunct1] trk_up [OF k, THEN conjunct2, THEN conjunct2]
  obtain d u where d: "run_state (UpdateJobError s i StatusFailed rc e) w = (None, w\<lparr>db := d\<rparr>)" "ok d" "up d"
    "jobs d = upd_job i (set_error StatusFailed rc e u) (jobs (db w))"
    using w(1,2) status_texts(4) assms(1) status_texts(12) assms(2) by (rule store.error_exact)
  have "list_all (track L (E - {i}) (ks (rds w))) (jobs d)"
    unfolding d(4) using w(3) by (rule list_all_upd_job) (use settle_facts in \<open>auto simp: track_def\<close>)
  from tracked_db [OF k d(2,3) this, of "ticks w"] r d(1) show "trk ks rup L (E - {i}) w'" by auto
qed

end

context redis_queue
begin

lemma trk_Schedule: "valid (tracked tbl up ks rup L E) (Schedule q (uuid_String L i) t) (\<lambda>_. tracked tbl up ks rup L (E - {i}))"
proof (rule validI)
  fix w x w'
  assume k: "tracked tbl up ks rup L E w" and r: "run_state (Schedule q (uuid_String L i) t) w = (x, w')"
  have "rup (rds w)" "ks_ok (ks (rds w))" using k by (simp_all add: tracked_def services_up_def)
  then obtain r' where d: "run_state (Schedule q (uuid_String L i) t) w = (None, w\<lparr>rds := r'\<rparr>)" "rup r'"
    "waiting (ks r') = waiting (ks (rds w))" "ks_ok (ks r')"
    "sched (ks r') = (sched (ks (rds w)))(uuid_String L i \<mapsto> f64_int (Unix t))"
    by (rule queue.schedule_exact)
  have "tracked tbl up ks rup L (E - {i}) (w\<lparr>ticks := ticks w, rds := r'\<rparr>)"
    using k d(2,4) by (rule tracked_rds) (auto simp: track_def placed_def d(3,5))
  with r d(1) show "tracked tbl up ks rup L (E - {i}) w'" by auto
qed

end

context redis
begin

lemma trk_publish: "Timestamp e = zero_time \<Longrightarrow> preserves (tracked tbl up ks rup L E) (PublishJobEvent C e)"
proof (rule validI)
  fix w x w'
  assume z: "Timestamp e = zero_time" and k: "tracked tbl up ks rup L E w" and r: "run_state (PublishJobEvent C e) w = (x, w')"
  have up: "rup (rds w)" "sane_clock w" "ks_ok (ks (rds w))" using k by (simp_all add: tracked_def services_up_def)
  obtain n r' t where d: "run_state (PublishJobEvent C e) w = (None, w\<lparr>ticks := n, rds := r'\<rparr>)" "rup r'" "ks r' = ks (rds w)"
    using bus.publish_exact [OF up(1,2) z] by metis
  have "tracked tbl up ks rup L E (w\<lparr>ticks := n, rds := r'\<rparr>)"
    using k d(2) by (rule tracked_rds) (simp_all add: d(3) up(3))
  with r d(1) show "tracked tbl up ks rup L E w'" by auto
qed

end

lemma trk_clock: "preserves (tracked tbl up ks rup L E) time_Now"
  by (simp add: valid_def run_time_Now tracked_def)

lemma trk_metric: "preserves (tracked tbl up ks rup L E) (metric_do m ls q)"
  by (simp add: valid_def run_metric_do tracked_def)

lemma trk_handler:
  assumes "tame f"
  shows "preserves (tracked tbl up ks rup L E) (f t pl)"
proof (rule validI)
  fix w x w'
  assume "tracked tbl up ks rup L E w" "run_state (f t pl) w = (x, w')"
  moreover from this assms obtain m where "w' = w\<lparr>ticks := m\<rparr>" unfolding tame_def by blast
  ultimately show "tracked tbl up ks rup L E w'" by (simp add: tracked_def)
qed

lemma take_first_rest: "take_first qs f = Some (v, g) \<Longrightarrow> set (f q) \<subseteq> insert v (set (g q))"
  by (induction qs f rule: take_first.induct) (auto split: list.splits if_splits)

section \<open>Rounds of a worker\<close>

context worker_services
begin

abbreviation trkd :: "uuid set \<Rightarrow> ('d, 'r) world \<Rightarrow> bool" where
  "trkd \<equiv> tracked tbl up ks rup L"

lemma trk_worker_publish: "preserves (trkd E) (publishEvent L p ty j)"
  unfolding publishEvent_def by (intro preserves_intros rc.trk_publish) simp

lemma trk_failure: "preserves (trkd {}) (handleFailure L p j e)"
proof -
  have dead: "preserves (trkd {}) (UpdateJobError (store p) (ID j) StatusDead n e)" for n
    by (rule st.trk_error) (use settle_facts in auto)
  have retry: "valid (trkd {}) (UpdateJobError (store p) (ID j) StatusRetrying n e) (\<lambda>_. trkd {ID j})" for n
    by (rule st.trk_error) auto
  have sch: "valid (trkd {ID j}) (Schedule (queue p) (uuid_String L (ID j)) t) (\<lambda>_. trkd {})" for t
    using rq.trk_Schedule [of tbl up L "{ID j}" "ID j"] by simp
  show ?thesis
    unfolding handleFailure_def Let_def
    by (intro preserves_if; intro preserves_bind dead trk_worker_publish valid_bind [OF retry] valid_bind [OF trk_worker_publish]
          valid_bind [OF trk_metric] valid_bind [OF trk_clock] valid_bind [OF sch] preserves_ret)
qed

lemma trk_run_handler:
  assumes "tame f"
  shows "preserves (trkd {}) (run_handler L p f j)"
proof -
  have "preserves (trkd {}) (UpdateJobStatus (store p) (ID j) StatusCompleted)"
    using st.trk_settle [OF settle_facts(2) status_texts(3,11), of ks rup L "{}" "ID j"] by (rule valid_weaken) auto
  then show ?thesis
    unfolding run_handler_def after_handler_def Let_def
    by (intro preserves_intros trk_clock trk_metric trk_handler [OF assms] trk_failure trk_worker_publish)
qed

lemma trk_process_loaded:
  assumes "tame_registry (registry p)" "text_ok (Type j)" "in_int4 (RetryCount j)"
  shows "valid (trkd {i}) (process_loaded L p i j) (\<lambda>_. trkd {})"
proof (cases "Registry_Get (registry p) (Type j)")
  case None
  have "text_ok (''no handler for type: '' @ Type j)" using assms(2) by (simp add: text_ok_def)
  from valid_bind [OF st.trk_fail [OF assms(3) this, of ks rup L "{i}" i] preserves_ret] None
  show ?thesis by (simp add: process_loaded_def)
next
  case (Some f)
  with assms(1) have f: "tame f" by (simp add: tame_registry_def)
  have "valid (\<lambda>w. y = None \<and> trkd ({i} - {i}) w)
          (case y of Some _ \<Rightarrow> ret () | None \<Rightarrow> do { publishEvent L p ''job.running'' j; run_handler L p f j })
          (\<lambda>_. trkd {})" for y
    using preserves_bind [OF trk_worker_publish trk_run_handler [OF f]] by (cases y) (simp_all add: valid_def)
  from valid_bind [OF st.trk_settle [OF settle_facts(1) status_texts(2,10)] this] Some show ?thesis
    by (simp add: process_loaded_def)
qed

lemma trk_processJob:
  assumes "tame_registry (registry p)"
  shows "valid (trkd {k. uuid_Parse L sid = Some k}) (processJob L p sid) (\<lambda>_. trkd {})"
proof -
  have "valid (trkd {k. uuid_Parse L sid = Some k}) (process_body L p sid) (\<lambda>_. trkd {})"
  proof (cases "uuid_Parse L sid")
    case (Some i)
    have "valid (\<lambda>w. case x of Inl _ \<Rightarrow> trkd ({i} - {i}) w
              | Inr j \<Rightarrow> trkd {i} w \<and> ID j = i \<and> text_ok (Type j) \<and> in_int4 (RetryCount j))
            (case x of Inl _ \<Rightarrow> ret () | Inr job \<Rightarrow> process_loaded L p i job) (\<lambda>_. trkd {})" for x
    proof (cases x)
      case (Inl e)
      then show ?thesis by (simp add: valid_ret)
    next
      case (Inr j)
      have "valid (\<lambda>w. trkd {i} w \<and> ID j = i \<and> text_ok (Type j) \<and> in_int4 (RetryCount j)) (process_loaded L p i j) (\<lambda>_. trkd {})"
        by (rule valid_pre_conj) (blast intro: trk_process_loaded [OF assms])
      with Inr show ?thesis by simp
    qed
    from valid_bind [OF st.trk_GetJob this] Some show ?thesis by (simp add: process_body_def)
  qed (simp add: process_body_def valid_ret)
  from valid_bind [OF trk_metric valid_bind [OF this trk_metric]] show ?thesis by (simp add: processJob_def)
qed

lemma trk_round:
  assumes "tame_registry (registry p)"
  shows "preserves (trkd {}) (worker_round L p)"
proof (rule validI)
  fix w go w'
  assume k: "trkd {} w" and r: "run_state (worker_round L p) w = (go, w')"
  then have s: "services_up (\<lambda>d. schema_ok (tbl d)) up ks rup w" by (simp add: tracked_def)
  show "trkd {} w'"
  proof (cases "cancelled w")
    case True
    with k r show ?thesis by (simp add: round_cancelled)
  next
    case False
    obtain v where v: "run_state (worker_round L p) w =
       (True, case take_first (queues p) (waiting (ks (rds w))) of
                None \<Rightarrow> v | Some (sid, _) \<Rightarrow> if sid = [] then v else exec (processJob L p sid) v)"
      "services_up (\<lambda>d. schema_ok (tbl d)) up ks rup v" "db v = db w" "sched (ks (rds v)) = sched (ks (rds w))"
      "waiting (ks (rds v)) = (case take_first (queues p) (waiting (ks (rds w))) of None \<Rightarrow> waiting (ks (rds w)) | Some (sid, f) \<Rightarrow> f)"
      using s False by (rule wk.round_takes)
    show ?thesis
    proof (cases "take_first (queues p) (waiting (ks (rds w)))")
      case None
      then have "placed L (ks (rds v)) j = placed L (ks (rds w)) j" for j using v(4,5) by (simp add: placed_def)
      with None v k r show ?thesis by (auto simp: tracked_def list_all_iff track_def)
    next
      case (Some y)
      then obtain sid f where y: "take_first (queues p) (waiting (ks (rds w))) = Some (sid, f)" by (cases y) auto
      have "placed L (ks (rds w)) j \<Longrightarrow> placed L (ks (rds v)) j \<or> uuid_String L (ID j) = sid" for j
        using y v(4,5) take_first_rest [OF y, of "Queue j"] by (auto simp: placed_def)
      then have t: "trkd {k. uuid_String L k = sid} v"
        using k v(2,3) by (auto simp: tracked_def list_all_iff track_def)
      show ?thesis
      proof (cases "sid = []")
        case True
        then have "{k. uuid_String L k = sid} = {}" using string_nonempty by simp
        with True t y v(1) r show ?thesis by auto
      next
        case False
        have "trkd {k. uuid_Parse L sid = Some k} v" using t by (rule tracked_mono) (auto simp: parse_string)
        from valid_exec [OF trk_processJob [OF assms] this] False y v(1) r show ?thesis by auto
      qed
    qed
  qed
qed

end

section \<open>Ticks of the scheduler\<close>

lemma set_push_all: "set (push_all ps f q) = set (f q) \<union> {v. (q, v) \<in> set ps}"
  by (force simp: push_all_def)

lemma set_due_pushes:
  "(n, sid) \<in> set (due_pushes L js sids) \<longleftrightarrow> sid \<in> set sids \<and> (\<exists>j. due_job L js sid = Some j \<and> Queue j = n)"
  by (force simp: due_pushes_def List.map_filter_def)

lemma requeued_look:
  assumes "requeued S js js'" "look js' i = Some j'"
  obtains j n u where "look js i = Some j"
    "j' = (if i \<in> S \<and> Status j = StatusRetrying then set_status StatusPending n u j else j)"
proof -
  obtain n u where "look js' i =
      map_option (\<lambda>j. if i \<in> S \<and> Status j = StatusRetrying then set_status StatusPending n u j else j) (look js i)"
    using assms(1) unfolding requeued_def by blast
  with assms(2) show thesis by (cases "look js i") (auto intro: that)
qed

lemma timed_out_look:
  assumes "timed_out st js js'" "look js' i = Some j'"
  obtains j u where "look js i = Some j"
    "j' = (if i \<in> ID ` set st then set_error StatusFailed (RetryCount j) ''job timed out (stale)'' u j else j)"
proof -
  obtain u where "look js' i = map_option (\<lambda>j. if i \<in> ID ` set st
        then set_error StatusFailed (RetryCount j) ''job timed out (stale)'' u j else j) (look js i)"
    using assms(1) unfolding timed_out_def by blast
  with assms(2) show thesis by (cases "look js i") (auto intro: that)
qed

text \<open>The jobs of the new state, each with the one it was.\<close>

lemma tracked_look:
  assumes "tracked tbl up ks rup L {} w" "services_up (\<lambda>d. schema_ok (tbl d)) up ks rup w'"
    and "\<And>k j'. look (table_jobs (tbl (db w'))) k = Some j' \<Longrightarrow>
           \<exists>j. look (table_jobs (tbl (db w))) k = Some j \<and> Type j' = Type j \<and>
               (waits j' \<longrightarrow> (waits j \<longrightarrow> placed L (ks (rds w)) j) \<longrightarrow> placed L (ks (rds w')) j')"
  shows "tracked tbl up ks rup L {} w'"
proof -
  have s: "schema_ok (tbl (db w))" "schema_ok (tbl (db w'))" using assms(1,2) by (simp_all add: tracked_def services_up_def)
  then have jo: "jobs_ok (table_jobs (tbl (db w)))" "jobs_ok (table_jobs (tbl (db w')))"
    unfolding table_jobs_def by (simp_all add: schema_jobs_ok)
  have "track L {} (ks (rds w')) j'" if "j' \<in> set (table_jobs (tbl (db w')))" for j'
  proof -
    have "look (table_jobs (tbl (db w'))) (ID j') = Some j'" using that look_Some_iff [OF jo(2)] by auto
    from assms(3) [OF this] obtain j where j: "look (table_jobs (tbl (db w))) (ID j') = Some j" "Type j' = Type j"
      "waits j' \<longrightarrow> (waits j \<longrightarrow> placed L (ks (rds w)) j) \<longrightarrow> placed L (ks (rds w')) j'" by blast
    have "j \<in> set (table_jobs (tbl (db w)))" using j(1) look_Some_iff [OF jo(1)] by auto
    with assms(1) j show ?thesis by (auto simp: tracked_def list_all_iff track_def)
  qed
  with assms(2) show ?thesis by (simp add: tracked_def list_all_iff)
qed

context scheduler_services
begin

abbreviation trkd :: "uuid set \<Rightarrow> ('d, 'r) world \<Rightarrow> bool" where
  "trkd \<equiv> tracked tbl up ks rup L"

abbreviation jobs :: "('d, 'r) world \<Rightarrow> Job list" where
  "jobs w \<equiv> table_jobs (tbl (db w))"

lemma trk_scheduled: "preserves (trkd {}) (processScheduledJobs L s)"
proof (rule validI)
  fix w x w'
  assume k: "trkd {} w" and r: "run_state (processScheduledJobs L s) w = (x, w')"
  then have sv: "services_up (\<lambda>d. schema_ok (tbl d)) up ks rup w" by (simp add: tracked_def)
  define h where "h = f64_int (Unix (clk w (ticks w)))"
  let ?due = "due_members h (ks (rds w))"
  have e: "services_up (\<lambda>d. schema_ok (tbl d)) up ks rup w'"
    "waiting (ks (rds w')) = push_all (due_pushes L (jobs w) ?due) (waiting (ks (rds w)))"
    "sched (ks (rds w')) = (\<lambda>m. case sched (ks (rds w)) m of None \<Rightarrow> None | Some t \<Rightarrow> if t \<le> h then None else Some t)"
    "requeued {i. \<exists>sid\<in>set ?due. uuid_Parse L sid = Some i} (jobs w) (jobs w')"
    using sch.processScheduledJobs_serving [OF sv] r unfolding h_def by auto
  have ko: "ks_ok (ks (rds w))" using sv by (simp add: services_up_def)
  have keep: "placed L (ks (rds w')) j" if j: "look (jobs w) i = Some j" "ID j = i" "placed L (ks (rds w)) j" for i j
  proof (cases "uuid_String L i \<in> set ?due")
    case True
    moreover have "due_job L (jobs w) (uuid_String L i) = Some j" using j(1) by (simp add: due_job_def parse_string)
    ultimately show ?thesis using j(2) by (auto simp: placed_def e(2) set_push_all set_due_pushes)
  next
    case False
    then have "\<not> (\<exists>t. sched (ks (rds w)) (uuid_String L i) = Some t \<and> t \<le> h)" using set_due_members [OF ko] by auto
    then have "sched (ks (rds w')) (uuid_String L i) = sched (ks (rds w)) (uuid_String L i)"
      by (auto simp: e(3) split: option.split)
    with j(2,3) show ?thesis by (auto simp: placed_def e(2) set_push_all dom_def)
  qed
  show "trkd {} w'"
  proof (rule tracked_look [OF k e(1)])
    fix i j'
    assume j': "look (jobs w') i = Some j'"
    obtain n u j where j: "look (jobs w) i = Some j"
      "j' = (if i \<in> {i. \<exists>sid\<in>set ?due. uuid_Parse L sid = Some i} \<and> Status j = StatusRetrying
             then set_status StatusPending n u j else j)"
      using e(4) j' by (rule requeued_look)
    have "waits j' \<Longrightarrow> waits j" using j(2) by (auto simp: waits_def split: if_splits)
    moreover have "placed L (ks (rds w')) j' = placed L (ks (rds w')) j" "Type j' = Type j" using j(2) by simp_all
    ultimately show "\<exists>j. look (jobs w) i = Some j \<and> Type j' = Type j \<and>
        (waits j' \<longrightarrow> (waits j \<longrightarrow> placed L (ks (rds w)) j) \<longrightarrow> placed L (ks (rds w')) j')"
      using j(1) keep [OF j(1) look_ID [OF j(1)]] by auto
  qed
qed

lemma trk_recovery: "preserves (trkd {}) (recoverUnqueuedJobs L s)"
proof (rule validI)
  fix w x w'
  assume k: "trkd {} w" and r: "run_state (recoverUnqueuedJobs L s) w = (x, w')"
  then have sv: "services_up (\<lambda>d. schema_ok (tbl d)) up ks rup w" by (simp add: tracked_def)
  obtain ps where "services_up (\<lambda>d. schema_ok (tbl d)) up ks rup w'" "jobs w' = jobs w" "sched (ks (rds w')) = sched (ks (rds w))"
    "waiting (ks (rds w')) = push_all ps (waiting (ks (rds w)))"
    using sch.recoverUnqueuedJobs_serving [OF sv] r by auto
  with k show "trkd {} w'" by (auto simp: tracked_def list_all_iff track_def placed_def set_push_all)
qed

lemma trk_stale: "preserves (trkd {}) (recoverStaleJobs L s)"
proof (rule validI)
  fix w x w'
  assume k: "trkd {} w" and r: "run_state (recoverStaleJobs L s) w = (x, w')"
  then have sv: "services_up (\<lambda>d. schema_ok (tbl d)) up ks rup w" by (simp add: tracked_def)
  obtain sel where e: "services_up (\<lambda>d. schema_ok (tbl d)) up ks rup w'" "ks (rds w') = ks (rds w)" "timed_out sel (jobs w) (jobs w')"
    using sch.recoverStaleJobs_serving [OF sv] r by auto
  show "trkd {} w'"
  proof (rule tracked_look [OF k e(1)])
    fix i j'
    assume "look (jobs w') i = Some j'"
    with e(3) obtain u j where j: "look (jobs w) i = Some j"
      "j' = (if i \<in> ID ` set sel then set_error StatusFailed (RetryCount j) ''job timed out (stale)'' u j else j)"
      by (rule timed_out_look)
    then show "\<exists>j. look (jobs w) i = Some j \<and> Type j' = Type j \<and>
        (waits j' \<longrightarrow> (waits j \<longrightarrow> placed L (ks (rds w)) j) \<longrightarrow> placed L (ks (rds w')) j')"
      using settle_facts(3) by (simp add: e(2))
  qed
qed

lemma trk_tick: "preserves (trkd {}) (tick_body L s l)"
  by (cases l) (simp_all add: trk_scheduled trk_recovery trk_stale)

end

section \<open>Requests\<close>

lemma trk_reads:
  assumes "\<And>v. preserves (same_data tbl v) m" "preserves (\<lambda>w. up (db w)) m"
  shows "preserves (tracked tbl up ks rup L E) m"
proof (rule validI)
  fix w x w'
  assume k: "tracked tbl up ks rup L E w" and r: "run_state m w = (x, w')"
  have "same_data tbl w w'" using validD [OF assms(1) _ r] by (simp add: same_data_def)
  moreover have "up (db w')" using validD [OF assms(2) _ r] k by (simp add: tracked_def services_up_def)
  ultimately show "tracked tbl up ks rup L E w'" using k by (simp add: tracked_def services_up_def same_data_def sane_clock_def)
qed

context storage
begin

lemma stays_queries [stays]:
  "preserves (\<lambda>w. up (db w)) (GetJob s i)" "preserves (\<lambda>w. up (db w)) (GetQueueStats s)"
  "preserves (\<lambda>w. up (db w)) (GetQueueStatsByName s name)" "preserves (\<lambda>w. up (db w)) (GetTimeSeries s d u)"
  unfolding GetJob_def GetQueueStats_def GetQueueStatsByName_def GetTimeSeries_def
  by (intro preserves_bind preserves_ret stays)+

lemma stays_ListJobs [stays]: "preserves (\<lambda>w. up (db w)) (ListJobs s f)"
  unfolding ListJobs_def Let_def
  by (auto intro!: preserves_bind preserves_ret stays split: prod.splits sum.splits list.splits val.splits)

lemma stays_fragments [stays]:
  assumes "tr_store t = s"
  shows "preserves (\<lambda>w. up (db w)) (RenderStatsFragment t)" "preserves (\<lambda>w. up (db w)) (RenderJobListFragment t f k)"
    "preserves (\<lambda>w. up (db w)) (RenderJobDetailFragment t i)" "preserves (\<lambda>w. up (db w)) (RenderDLQFragment t k)"
    "preserves (\<lambda>w. up (db w)) (buildChartData t)" "preserves (\<lambda>w. up (db w)) (RenderChartDataFragment t)"
  unfolding RenderStatsFragment_def RenderJobListFragment_def RenderJobDetailFragment_def RenderDLQFragment_def
    RenderChartDataFragment_def buildChartData_def assms
  by (intro preserves_bind preserves_ret stays)+

lemma stays_handlers [stays]:
  assumes "tr_store t = s"
  shows "preserves (\<lambda>w. up (db w)) (DashboardPageHandler t s k r)" "preserves (\<lambda>w. up (db w)) (JobListHandler t k r)"
    "preserves (\<lambda>w. up (db w)) (JobDetailHandler L t r)" "preserves (\<lambda>w. up (db w)) (DLQHandler t k r)"
    "preserves (\<lambda>w. up (db w)) (ReadyHandler b s r)"
  unfolding DashboardPageHandler_def JobListHandler_def JobDetailHandler_def DLQHandler_def ReadyHandler_def Let_def
  by (auto intro!: preserves_bind preserves_ret preserves_option stays assms split: prod.splits)

lemma create_rejected:
  assumes "ok (db w)" "up (db w)" "run_sql (env (db w)) insert_job_sql (insert_args job) (tbl (db w)) = None"
  obtains e d where "run_state (CreateJob s job) w = (Inl e, w\<lparr>db := d\<rparr>)" "tbl d = tbl (db w)" "up d"
proof -
  obtain x d where q: "QueryRow (pool s) insert_job_sql (insert_args job) (db w) = (x, d)" by force
  obtain e where "x = Inl e" using row_ok [of insert_job_sql "insert_args job" "db w" _ d] q assms(3) by (cases x) auto
  moreover have "tbl d = tbl (db w)" "up d" using row_effect [OF q] assms(3) up_after_row [OF assms(2) q] by simp_all
  moreover obtain e' where "scanJob (Inl e) = Inl e'" by (simp add: scanJob_def)
  ultimately show thesis using q by (intro that [of e' d]) (simp_all add: CreateJob_def run_db_call insert_args_def)
qed

end

context api_services
begin

abbreviation trkd :: "uuid set \<Rightarrow> ('d, 'r) world \<Rightarrow> bool" where
  "trkd \<equiv> tracked tbl up ks rup L"

lemma trk_serving: "trkd E w \<Longrightarrow> serving w"
  by (simp add: tracked_def)

lemma track_new: "track L E k (new_job e p job) \<longleftrightarrow>
    text_ok (Type job) \<and> (Status job \<in> {StatusPending, StatusScheduled, StatusRetrying} \<longrightarrow>
      fresh_id e \<in> E \<or> uuid_String L (fresh_id e) \<in> set (waiting k (Queue job)) \<or> uuid_String L (fresh_id e) \<in> dom (sched k))"
  by (auto simp: track_def new_job_def waits_def placed_def)

lemma trk_CreateJob: "preserves (trkd {}) (api_CreateJob L h r)"
proof (rule validI)
  fix w x w'
  assume k: "trkd {} w" and r: "run_state (api_CreateJob L h r) w = (x, w')"
  note sv = trk_serving [OF k]
  then have up: "schema_ok (tbl (db w))" "up (db w)" by (simp_all add: services_up_def)
  show "trkd {} w'"
  proof (cases "request_job (Body r)")
    case (Inl msg)
    with k r show ?thesis by (simp add: api_CreateJob_def)
  next
    case (Inr job)
    show ?thesis
    proof (cases "run_sql (env (db w)) insert_job_sql (insert_args job) (tbl (db w))")
      case None
      obtain e d where d: "run_state (CreateJob (h_store h) job) w = (Inl e, w\<lparr>db := d\<rparr>)" "tbl d = tbl (db w)" "up d"
        using up None by (rule st.create_rejected)
      have "trkd {} (w\<lparr>db := d\<rparr>)"
        using tracked_db [OF k _ d(3), of "{}" "ticks w"] k d(2) up by (simp add: tracked_def)
      with Inr d r show ?thesis by (auto simp: api_CreateJob_def)
    next
      case (Some y)
      obtain p where p: "Option.bind (Payload job) (jsonb_in (env (db w))) = Some p" "text_ok (Queue job)" "text_ok (Type job)"
        "jobs_ok (jobs w @ [new_job (env (db w)) p job])"
        using Some run_insert [of "env (db w)" job "jobs w"] unfolding st.tbl_jobs [OF up(1)]
        by (auto split: option.splits if_splits)
      let ?j = "new_job (env (db w)) p job"
      have e: "serving w'" "jobs w' = jobs w @ [?j]"
        "case RunAt job of
              None \<Rightarrow> sched (ks (rds w')) = sched (ks (rds w)) \<and>
                waiting (ks (rds w')) = (waiting (ks (rds w)))(Queue job := waiting (ks (rds w)) (Queue job) @ [uuid_String L (ID ?j)])
            | Some t \<Rightarrow> waiting (ks (rds w')) = waiting (ks (rds w)) \<and>
                sched (ks (rds w')) = (sched (ks (rds w)))(uuid_String L (ID ?j) \<mapsto> f64_int (Unix t))"
        using api_CreateJob_serving [OF sv Inr p] r by auto
      have "placed L (ks (rds w)) j \<Longrightarrow> placed L (ks (rds w')) j" for j
        using e(3) by (auto simp: placed_def split: option.splits)
      then have "track L {} (ks (rds w)) j \<Longrightarrow> track L {} (ks (rds w')) j" for j by (auto simp: track_def)
      moreover have "ID ?j = fresh_id (env (db w))" by (simp add: new_job_def)
      then have "track L {} (ks (rds w')) ?j"
        using e(3) p(3) by (auto simp: track_new split: option.splits)
      ultimately show ?thesis using k e(1,2) by (auto simp: tracked_def list_all_iff)
    qed
  qed
qed

lemma trk_CancelJob: "preserves (trkd {}) (api_CancelJob L h r)"
proof -
  have set: "preserves (trkd {}) (UpdateJobStatus (h_store h) i StatusCancelled)" for i
    using st.trk_settle [OF settle_facts(5) status_texts(7,15), of ks rup L "{}" i] by (rule valid_weaken) auto
  have get: "preserves (trkd {}) (GetJob (h_store h) i)" for i
    by (intro trk_reads st.reads_GetJob st.stays_queries)
  show ?thesis
    unfolding api_CancelJob_def api_publishEvent_def by (intro preserves_intros get set rc.trk_publish) simp
qed

lemma trk_RetryJob: "preserves (trkd {}) (api_RetryJob L h r)"
proof (cases "uuid_Parse L (URLParam r ''id'')")
  case None
  then show ?thesis by (simp add: api_RetryJob_def valid_ret)
next
  case (Some i)
  show ?thesis
  proof (rule validI)
    fix w x w'
    assume k: "trkd {} w" and r: "run_state (api_RetryJob L h r) w = (x, w')"
    note sv = trk_serving [OF k]
    have jo: "jobs_ok (jobs w)" using st.ok_jobs_ok sv by (simp add: services_up_def)
    note e = api_RetryJob_serving [OF sv Some]
    have a: "list_all (track L {} (ks (rds w))) (jobs w)" using k by (simp add: tracked_def)
    show "trkd {} w'"
    proof (cases "\<exists>j. look (jobs w) i = Some j \<and> Status j = StatusDead")
      case False
      then have "serving w'" "jobs w' = jobs w" "waiting (ks (rds w')) = waiting (ks (rds w))" "sched (ks (rds w')) = sched (ks (rds w))"
        using e r by (auto split: option.splits if_splits)
      with a show ?thesis by (simp add: tracked_def list_all_iff track_def placed_def)
    next
      case True
      then obtain j u where j: "look (jobs w) i = Some j" and f: "serving w'" "jobs w' = upd_job i (set_error StatusPending 0 [] u) (jobs w)"
        "waiting (ks (rds w')) = (waiting (ks (rds w)))(Queue j := waiting (ks (rds w)) (Queue j) @ [uuid_String L i])"
        "sched (ks (rds w')) = sched (ks (rds w))"
        using e r by auto
      have same: "x = j" if "x \<in> set (jobs w)" "ID x = i" for x
        using that j look_Some_iff [OF jo, of i x] by simp
      have "track L {} (ks (rds w')) (if ID x = i then set_error StatusPending 0 [] u x else x)" if "x \<in> set (jobs w)" for x
      proof (cases "ID x = i")
        case True
        then have "placed L (ks (rds w')) x" using same [OF that] by (simp add: placed_def f(3))
        with True a that show ?thesis by (simp add: track_def list_all_iff)
      next
        case False
        with a that show ?thesis by (auto simp: track_def list_all_iff placed_def f(3,4))
      qed
      then have "list_all (track L {} (ks (rds w'))) (jobs w')"
        unfolding f(2) upd_job_def list.pred_map comp_def by (simp only: list_all_iff) blast
      with f(1) show ?thesis by (simp add: tracked_def)
    qed
  qed
qed

lemma trk_DeleteJob: "preserves (trkd {}) (api_DeleteJob L h r)"
proof (cases "uuid_Parse L (URLParam r ''id'')")
  case None
  then show ?thesis by (simp add: api_DeleteJob_def valid_ret)
next
  case (Some i)
  show ?thesis
  proof (rule validI)
    fix w x w'
    assume k: "trkd {} w" and r: "run_state (api_DeleteJob L h r) w = (x, w')"
    have "serving w'" "rds w' = rds w" "jobs w' = jobs w \<or> jobs w' = filter (\<lambda>j. ID j \<noteq> i) (jobs w)"
      using api_DeleteJob_serving [OF trk_serving [OF k] Some] r by (auto split: if_splits)
    with k show "trkd {} w'" by (auto simp: tracked_def list_all_iff)
  qed
qed

lemma trk_api_reads:
  "preserves (trkd {}) (api_GetJob L h r)" "preserves (trkd {}) (api_ListJobs L h r)"
  "preserves (trkd {}) (api_GetQueues h r)" "preserves (trkd {}) (api_GetQueueByName h r)"
  "preserves (trkd {}) (api_GetStats h r)" "preserves (trkd {}) (ReadyHandler b (h_store h) r)"
  "preserves (trkd {}) (HealthHandler r)"
  unfolding api_GetJob_def api_ListJobs_def api_GetQueues_def api_GetQueueByName_def api_GetStats_def ReadyHandler_def
    HealthHandler_def Let_def
  by (intro preserves_intros trk_reads st.reads_GetJob st.reads_ListJobs st.reads_GetQueueStats st.reads_GetQueueStatsByName
        st.reads_ping st.stays_calls st.stays_queries st.stays_ListJobs)+

lemmas trk_handlers = trk_CreateJob trk_CancelJob trk_RetryJob trk_DeleteJob trk_api_reads

lemma trk_serve:
  assumes "\<And>e r. preserves (trkd {}) (other e r)"
  shows "preserves (trkd {}) (serve_route L h key isLeader other rt r)"
proof -
  obtain m pat e a where rt: "rt = (m, pat, e, a)" by (metis prod_cases4)
  have "preserves (trkd {}) (endpoint_handler L h isLeader other e r)"
    by (cases e) (simp_all add: trk_handlers assms)
  then show ?thesis
    unfolding serve_route_def rt RequestLogger_def APIKeyAuth_def
    by (auto intro!: preserves_intros trk_clock)
qed

end

section \<open>The running program\<close>

context app_services
begin

abbreviation trkd :: "('d, 'r) world \<Rightarrow> bool" where
  "trkd \<equiv> tracked tbl up ks rup L {}"

lemma stays_feed: "preserves (\<lambda>w. up (db w)) (subscriber_turn (app_renderer a) input)"
  unfolding subscriber_turn_def broadcastAllFragments_def Let_def
  by (auto intro!: preserves_bind preserves_ret st.stays_fragments simp: app_parts split: option.split)

lemma trk_endpoint:
  assumes "\<And>e r. preserves (\<lambda>w. up (db w)) (rest e r)"
  shows "preserves trkd (dashboard_endpoint L (app_renderer a) st key rest e r)"
  by (rule trk_reads [OF reads_endpoint]) (cases e; simp add: assms st.stays_handlers app_parts)

lemma trk_collect_depth: "preserves trkd (collect_depth rq qs)"
proof (rule validI)
  fix w x w'
  assume k: "trkd w" and r: "run_state (collect_depth rq qs) w = (x, w')"
  have "rup (rds w)" using k by (simp add: tracked_def services_up_def)
  from collect_depth_exact [OF rc_redis this, of qs] r have "ks (rds w') = ks (rds w)" "db w' = db w" "rup (rds w')" "clk w' = clk w"
    by auto
  with k show "trkd w'" by (simp add: tracked_def services_up_def sane_clock_def)
qed

lemma trk_step:
  assumes "\<And>e r. preserves (\<lambda>w. up (db w)) (rest e r)" "app_step L rest a w w'" "trkd w"
  shows "trkd w'"
  using assms(2,3)
proof (rule app_step_keeps [where P = trkd])
  fix e rt r
  show "preserves trkd (NewRouter L rest (a\<lparr>app_elector := e\<rparr>) rt r)"
    unfolding NewRouter_def
    by (simp add: app_parts) (intro api_services.trk_serve [OF app_api] trk_endpoint assms(1))
next
  show "preserves trkd (collect_pool stat (app_store a))" for stat
    unfolding collect_pool_def Let_def by (intro preserves_bind trk_metric)
qed (simp_all add: app_parts worker_services.trk_round [OF app_worker] scheduler_services.trk_tick [OF app_scheduler]
       trk_collect_depth trk_reads [OF reads_feed stays_feed] tracked_def services_up_def sane_clock_def)

end



lemma api_world_tracked: "tracked m_tbl mem_up r_ks rmem_up canon_lib {} api_world"
proof -
  have "list_all (track canon_lib {} demo_ks) api_jobs"
    by (simp add: api_jobs_def track_def placed_def waits_def demo_waiting text_ok_def status_facts)
  then show ?thesis using api_world_up by (simp add: tracked_def)
qed

lemma step_of_exec:
  "app_step L rest a w (exec (worker_round L (cfg (app_pool a))) w)" "app_step L rest a w (exec (tick_body L (app_sched a) l) w)"
  by (rule app_step.round [where go = "fst (run_state (worker_round L (cfg (app_pool a))) w)"], simp add: exec_def)
     (rule app_step.tick [where l = l and u = "()"], simp add: exec_def prod_eq_iff)


section \<open>The backlog\<close>

definition backlog :: "string list \<Rightarrow> (string \<Rightarrow> string list) \<Rightarrow> nat" where
  "backlog qs f = sum_list (map (\<lambda>q. length (f q)) qs)"

lemma backlog_Cons: "backlog (q # qs) f = length (f q) + backlog qs f"
  by (simp add: backlog_def)

lemma backlog_0: "backlog qs f = 0 \<longleftrightarrow> (\<forall>q\<in>set qs. f q = [])"
  by (auto simp: backlog_def)

lemma take_first_None: "take_first qs f = None \<longleftrightarrow> (\<forall>q\<in>set qs. f q = [])"
  by (induction qs) (auto split: list.split)

lemma take_first_backlog: "take_first qs f = Some (v, g) \<Longrightarrow> distinct qs \<Longrightarrow> Suc (backlog qs g) = backlog qs f"
proof (induction qs arbitrary: f)
  case (Cons q qs)
  show ?case
  proof (cases "f q")
    case Nil
    with Cons.prems have "take_first qs f = Some (v, g)" by simp
    moreover from this Cons.prems(2) have "g q = f q" by (auto intro: take_first_other)
    ultimately show ?thesis using Cons by (simp add: backlog_Cons)
  next
    case (Cons x xs)
    with Cons.prems have g: "g = f(q := xs)" and q: "q \<notin> set qs" by simp_all
    have "map (\<lambda>p. length (g p)) qs = map (\<lambda>p. length (f p)) qs" using q by (auto simp: g)
    then have "backlog qs g = backlog qs f" unfolding backlog_def by (rule arg_cong)
    moreover have "g q = xs" by (simp add: g)
    ultimately show ?thesis using Cons by (simp add: backlog_Cons)
  qed
qed simp

context worker_services
begin

text \<open>One round with entries left takes one of them and pushes none; the worker goes on.\<close>

lemma round_backlog:
  assumes "tame_registry (registry p)" "sys_ok tbl ks L n w" "trkd {} w" "\<not> cancelled w" "distinct (queues p)"
    and "run_state (worker_round L p) w = (go, w')"
  shows "go \<and> sys_ok tbl ks L n w' \<and> trkd {} w' \<and> \<not> cancelled w' \<and>
         backlog (queues p) (waiting (ks (rds w'))) = backlog (queues p) (waiting (ks (rds w))) - 1"
proof -
  have s: "services_up (\<lambda>d. schema_ok (tbl d)) up ks rup w" using assms(3) by (simp add: tracked_def)
  obtain v where v: "run_state (worker_round L p) w =
       (True, case take_first (queues p) (waiting (ks (rds w))) of
                None \<Rightarrow> v | Some (sid, _) \<Rightarrow> if sid = [] then v else exec (processJob L p sid) v)"
      "db v = db w" "met v = met w" "services_up (\<lambda>d. schema_ok (tbl d)) up ks rup v"
      "waiting (ks (rds v)) = (case take_first (queues p) (waiting (ks (rds w))) of None \<Rightarrow> waiting (ks (rds w)) | Some (sid, f) \<Rightarrow> f)"
      "cancelled v = cancelled w"
    using s assms(4) by (rule wk.round_takes)
  have "sys_ok tbl ks L n w'" "trkd {} w'"
    using validD [OF sys_round [OF assms(1)] assms(2,6)] validD [OF trk_round [OF assms(1)] assms(3,6)] by simp_all
  moreover have "waiting (ks (rds w')) = waiting (ks (rds v)) \<and> cancelled w' = cancelled v"
  proof -
    have d: "data_ok (\<lambda>d. schema_ok (tbl d)) ks n v"
      using assms(2) v(2,3,4) by (simp add: data_ok_def sys_ok_def services_up_def metrics_ok_def)
    have "waiting (ks (rds (exec (processJob L p sid) v))) = waiting (ks (rds v)) \<and> cancelled (exec (processJob L p sid) v) = cancelled v" for sid
      using wk.processJob_safe [OF assms(1) d, of sid] wk.processJob_bad_id [of sid v]
      by (cases "uuid_Parse L sid") (simp_all add: job_frame_def exec_def)
    with v(1) assms(6) show ?thesis by (auto split: option.splits prod.splits if_splits)
  qed
  moreover have "backlog (queues p) (waiting (ks (rds v))) = backlog (queues p) (waiting (ks (rds w))) - 1"
  proof (cases "take_first (queues p) (waiting (ks (rds w)))")
    case None
    then have "backlog (queues p) (waiting (ks (rds w))) = 0" by (simp add: backlog_0 take_first_None)
    with None v(5) show ?thesis by simp
  next
    case (Some y)
    then obtain sid f where "take_first (queues p) (waiting (ks (rds w))) = Some (sid, f)" by (cases y) auto
    with v(5) take_first_backlog [OF this assms(5)] show ?thesis by simp
  qed
  ultimately show ?thesis using v(1,6) assms(4,6) by simp
qed

lemma rounds_backlog:
  assumes "tame_registry (registry p)" "distinct (queues p)" "(round_step L ^^ k) (r, w) (r', w')" "cfg r = p"
    and "sys_ok tbl ks L n w" "trkd {} w" "\<not> cancelled w"
  shows "cfg r' = p \<and> alive r' = alive r \<and> sys_ok tbl ks L n w' \<and> trkd {} w' \<and> \<not> cancelled w' \<and>
         backlog (queues p) (waiting (ks (rds w'))) = backlog (queues p) (waiting (ks (rds w))) - k"
  using assms(3)
proof (induction k arbitrary: r' w')
  case 0
  with assms show ?case by simp
next
  case (Suc k)
  then obtain r1 w1 where 1: "(round_step L ^^ k) (r, w) (r1, w1)" "round_step L (r1, w1) (r', w')" by auto
  note ih = Suc.IH [OF 1(1)]
  from 1(2) obtain i go where i: "alive r1 ! i" "r' = r1\<lparr>alive := (alive r1)[i := go]\<rparr>"
    "run_state (worker_round L (cfg r1)) w1 = (go, w')" by (auto elim: round_stepE)
  have "go \<and> sys_ok tbl ks L n w' \<and> trkd {} w' \<and> \<not> cancelled w' \<and>
      backlog (queues p) (waiting (ks (rds w'))) = backlog (queues p) (waiting (ks (rds w1))) - 1"
    using round_backlog [OF assms(1) _ _ _ assms(2), of n w1 go w'] ih i(3) by simp
  moreover have "(alive r1)[i := True] = alive r1" using i(1) list_update_id [of "alive r1" i] by simp
  ultimately show ?case using ih i(2) by simp
qed

lemma rounds_possible:
  assumes "tame_registry (registry p)" "distinct (queues p)" "cfg r = p" "True \<in> set (alive r)"
    and "sys_ok tbl ks L n w" "trkd {} w" "\<not> cancelled w"
  shows "\<exists>s. (round_step L ^^ k) (r, w) s"
proof (induction k)
  case (Suc k)
  then obtain r1 w1 where 1: "(round_step L ^^ k) (r, w) (r1, w1)" by auto
  have "True \<in> set (alive r1)" using rounds_backlog [OF assms(1,2) 1 assms(3,5-7)] assms(4) by simp
  then obtain i where "i < length (alive r1)" "alive r1 ! i" by (auto simp: in_set_conv_nth)
  moreover obtain go w2 where "run_state (worker_round L (cfg r1)) w1 = (go, w2)" by force
  ultimately have "round_step L (r1, w1) (r1\<lparr>alive := (alive r1)[i := go]\<rparr>, w2)" by (rule round_step.round)
  with 1 show ?case by auto
qed auto

end

text \<open>C8.
  The backlog is worked off.  With the servers up and at least one worker, there is always a
  next round, and after as many rounds as the four queues have entries, whichever workers take
  them and whatever the handlers answer, the queues are empty, the data is sound, and a job of
  these queues that still waits is in the schedule: every other one was taken up.
\<close>

theorem backlog_drains:
  assumes "storage st tbl env up" "redis_queue rq ks pub rup" "uuid_codec L"
    and "a = main_app tmpl zone roll conf st rq" "0 < WorkerCount conf" "\<not> cancelled w"
    and "sys_ok tbl ks L n w" "tracked tbl up ks rup L {} w"
    and "k = backlog main_queues (waiting (ks (rds w)))"
  shows "(\<exists>s. (round_step L ^^ k) (app_pool a, w) s) \<and>
         (\<forall>r' w'. (round_step L ^^ k) (app_pool a, w) (r', w') \<longrightarrow>
            (\<forall>q\<in>set main_queues. waiting (ks (rds w')) q = []) \<and> sys_ok tbl ks L n w' \<and>
            (\<forall>j\<in>set (table_jobs (tbl (db w'))). Queue j \<in> set main_queues \<longrightarrow> waits j \<longrightarrow>
               uuid_String L (ID j) \<in> dom (sched (ks (rds w')))))"
proof -
  let ?p = "cfg (app_pool a)"
  have red: "redis (client rq) ks pub rup" using assms(2) by (simp add: redis_queue_def)
  have ws: "worker_services ?p tbl env up ks pub rup L"
    using assms(1-3) red unfolding worker_services_def assms(4)
    by (simp add: main_app_def Start_def pool_new_def NewPool_def RedisQueue_Client_def)
  have p: "tame_registry (registry ?p)" "queues ?p = main_queues" "True \<in> set (alive (app_pool a))"
    using assms(4,5) main_registry_tame by (auto simp: main_app_def Start_def pool_new_def NewPool_def)
  have d: "distinct (queues ?p)" by (simp add: p(2) main_queues_def)
  have "\<exists>s. (round_step L ^^ k) (app_pool a, w) s"
    by (rule worker_services.rounds_possible [OF ws p(1) d refl p(3) assms(7,8,6)])
  moreover have "(\<forall>q\<in>set main_queues. waiting (ks (rds w')) q = []) \<and> sys_ok tbl ks L n w' \<and>
      (\<forall>j\<in>set (table_jobs (tbl (db w'))). Queue j \<in> set main_queues \<longrightarrow> waits j \<longrightarrow>
         uuid_String L (ID j) \<in> dom (sched (ks (rds w'))))"
    if "(round_step L ^^ k) (app_pool a, w) (r', w')" for r' w'
  proof -
    note e = worker_services.rounds_backlog [OF ws p(1) d that refl assms(7,8,6)]
    then have "\<forall>q\<in>set main_queues. waiting (ks (rds w')) q = []" using assms(9) p(2) backlog_0 by simp
    with e show ?thesis by (auto simp: tracked_def list_all_iff track_def placed_def)
  qed
  ultimately show ?thesis by blast
qed

lemma api_world_sound: "sys_ok m_tbl r_ks canon_lib 0 api_world"
proof -
  have "list_all job_sound api_jobs" by (simp add: api_jobs_def demo_job_def job_sound_def status_facts)
  moreover have "entries_ok canon_lib demo_ks" by (auto simp: entries_ok_def demo_ks_def waiting_def sched_def)
  moreover have "schema_ok (m_tbl (db api_world))" "ks_ok demo_ks" "sane_clock api_world"
    using api_world_up by (simp_all add: services_up_def)
  moreover have "metrics_ok 0 api_world" by (simp add: metrics_ok_def api_world_def demo_world_def gauge_def)
  ultimately show ?thesis by (simp add: sys_ok_def)
qed

theorem backlog_drains_witness:
  "\<exists>r' w'. (round_step canon_lib ^^ 2) (app_pool demo_app, api_world) (r', w') \<and>
     waiting (r_ks (rds w')) ''default'' = [] \<and> (\<forall>j\<in>set (table_jobs (m_tbl (db w'))).
       Queue j = ''default'' \<longrightarrow> waits j \<longrightarrow> canon_String (ID j) \<in> dom (sched (r_ks (rds w'))))"
proof -
  have "2 = backlog main_queues (waiting (r_ks (rds api_world)))"
    by (simp add: backlog_def main_queues_def demo_ks_def waiting_def)
  moreover have "0 < WorkerCount demo_conf" "\<not> cancelled api_world" by (simp_all add: demo_conf_def api_world_def demo_world_def)
  ultimately have "(\<exists>s. (round_step canon_lib ^^ 2) (app_pool demo_app, api_world) s) \<and>
      (\<forall>r' w'. (round_step canon_lib ^^ 2) (app_pool demo_app, api_world) (r', w') \<longrightarrow>
         (\<forall>q\<in>set main_queues. waiting (r_ks (rds w')) q = []) \<and> sys_ok m_tbl r_ks canon_lib 0 w' \<and>
         (\<forall>j\<in>set (table_jobs (m_tbl (db w'))). Queue j \<in> set main_queues \<longrightarrow> waits j \<longrightarrow>
            uuid_String canon_lib (ID j) \<in> dom (sched (r_ks (rds w')))))"
    by (intro backlog_drains [OF memst.storage_axioms memq.redis_queue_axioms canon.uuid_codec_axioms demo_app_def]
          api_world_sound api_world_tracked)
  moreover have "''default'' \<in> set main_queues" by (simp add: main_queues_def)
  ultimately show ?thesis by (metis (no_types, lifting) canon_uuid_simps(2) surj_pair)
qed

end
