(* ===== verification/Interleave.thy ===== *)
theory Interleave
  imports Prelude
begin

text \<open>
  Programs at the granularity of single calls.  A program in the state monad is one function on
  the state and cannot be interrupted; here a program is a tree of calls, each followed by a
  continuation, so that other goroutines may run between two calls.  \<open>alone\<close> leads back to
  the state monad.  Goroutines run as a list of such programs over one state (\<open>go_step\<close>), and
  \<open>shared\<close> is the rely-guarantee argument for them: what every call keeps of the knowledge of
  all the others is never lost.
\<close>

section \<open>Trees of calls\<close>

text \<open>A call changes the state; how the program goes on depends on the state it was made in.\<close>

datatype ('s, 'a) prog = Done 'a | Call "'s \<Rightarrow> 's" "'s \<Rightarrow> ('s, 'a) prog"

definition do_call :: "('s, 'a) state \<Rightarrow> ('a \<Rightarrow> ('s, 'b) prog) \<Rightarrow> ('s, 'b) prog" where
  "do_call m k = Call (exec m) (\<lambda>s. k (fst (run_state m s)))"

definition one_call :: "('s, 'a) state \<Rightarrow> ('s, 'a) prog" where
  "one_call m = do_call m Done"

primrec followed_by :: "('s, 'a) prog \<Rightarrow> ('a \<Rightarrow> ('s, 'b) prog) \<Rightarrow> ('s, 'b) prog" where
  "followed_by (Done a) k = k a"
| "followed_by (Call f c) k = Call f (\<lambda>s. followed_by (c s) k)"

fun for_calls :: "'a list \<Rightarrow> ('a \<Rightarrow> ('s, unit) prog) \<Rightarrow> ('s, unit) prog" where
  "for_calls [] f = Done ()"
| "for_calls (x # xs) f = followed_by (f x) (\<lambda>_. for_calls xs f)"

primrec map_result :: "('a \<Rightarrow> 'b) \<Rightarrow> ('s, 'a) prog \<Rightarrow> ('s, 'b) prog" where
  "map_result h (Done a) = Done (h a)"
| "map_result h (Call f c) = Call f (\<lambda>s. map_result h (c s))"

text \<open>The program on its own, with nothing between its calls.\<close>

primrec alone :: "('s, 'a) prog \<Rightarrow> ('s, 'a) state" where
  "alone (Done a) = ret a"
| "alone (Call f c) = State (\<lambda>s. run_state (alone (c s)) (f s))"

text \<open>The program after its first \<open>n\<close> calls, and the state they lead to.\<close>

fun after_calls :: "nat \<Rightarrow> ('s, 'a) prog \<Rightarrow> 's \<Rightarrow> ('s, 'a) prog \<times> 's" where
  "after_calls (Suc n) (Call f c) s = after_calls n (c s) (f s)"
| "after_calls n p s = (p, s)"

named_theorems alone_simps \<open>equations that turn a tree of calls into a program of the state monad\<close>

lemma alone_do_call [simp, alone_simps]: "alone (do_call m k) = State_Monad.bind m (\<lambda>x. alone (k x))"
  by (simp add: do_call_def State_Monad.bind_def exec_def split_beta)

lemma state_bind_ret [alone_simps]: "State_Monad.bind m ret = m"
  by (cases m) (simp add: State_Monad.bind_def State_Monad.return_def)

lemma alone_one_call [simp, alone_simps]: "alone (one_call m) = m"
  by (simp add: one_call_def state_bind_ret)

lemma state_eqI: "(\<And>s. run_state m s = run_state n s) \<Longrightarrow> m = n"
  by (cases m; cases n) auto

lemma alone_followed_by [simp, alone_simps]:
  "alone (followed_by p k) = State_Monad.bind (alone p) (\<lambda>x. alone (k x))"
proof (induction p)
  case (Call f c)
  then have "alone (followed_by (c s) k) = State_Monad.bind (alone (c s)) (\<lambda>x. alone (k x))" for s by blast
  then show ?case by (intro state_eqI) (simp add: split_beta)
qed (simp add: State_Monad.bind_def State_Monad.return_def)

lemma alone_map_result [simp, alone_simps]:
  "alone (map_result h p) = State_Monad.bind (alone p) (\<lambda>x. ret (h x))"
  by (induction p) (auto intro!: state_eqI simp: split_beta)

lemma alone_for_calls [alone_simps]: "alone (for_calls xs f) = for_each xs (\<lambda>x. alone (f x))"
  by (induction xs) simp_all

lemma alone_Done [alone_simps]: "alone (Done a) = ret a"
  by simp

text \<open>Stopping a program somewhere and letting it finish is running it.\<close>

lemma after_calls_alone:
  "after_calls n p s = (q, t) \<Longrightarrow> run_state (alone q) t = run_state (alone p) s"
  by (induction n p s arbitrary: q t rule: after_calls.induct) auto

lemma after_do_call [simp]: "after_calls (Suc n) (do_call m k) s = after_calls n (k (fst (run_state m s))) (exec m s)"
  by (simp add: do_call_def)

lemma after_zero [simp]: "after_calls 0 p s = (p, s)"
  by (cases p) simp_all

lemma followed_by_do_call [simp]: "followed_by (do_call m k) h = do_call m (\<lambda>x. followed_by (k x) h)"
  by (simp add: do_call_def)

lemma followed_by_Done [simp]: "followed_by p Done = p"
  by (induction p) simp_all

section \<open>Goroutines\<close>

text \<open>
  The goroutines, a record of what the run has seen so far, and the state.  A goroutine starts
  (\<open>starts\<close> says which can), or one of them makes its next call; \<open>legal\<close> says which changes of
  the state are taken into account, and \<open>note_seen\<close> extends the record.
\<close>

record ('g, 's, 'a) goroutines =
  progs :: "('s, 'a) prog list"
  seen :: 'g
  shared_state :: 's

inductive go_step ::
  "(('s, 'a) prog \<Rightarrow> bool) \<Rightarrow> ('g \<Rightarrow> 's \<Rightarrow> 's \<Rightarrow> bool) \<Rightarrow> ('g \<Rightarrow> 's \<Rightarrow> 'g) \<Rightarrow>
     ('g, 's, 'a) goroutines \<Rightarrow> ('g, 's, 'a) goroutines \<Rightarrow> bool"
  for starts legal note_seen where
  start: "starts p \<Longrightarrow> go_step starts legal note_seen c (c\<lparr>progs := progs c @ [p]\<rparr>)"
| call: "i < length (progs c) \<Longrightarrow> progs c ! i = Call f k \<Longrightarrow> legal (seen c) (shared_state c) (f (shared_state c)) \<Longrightarrow>
     go_step starts legal note_seen c
       \<lparr>progs = (progs c)[i := k (shared_state c)], seen = note_seen (seen c) (f (shared_state c)),
        shared_state = f (shared_state c)\<rparr>"

text \<open>A goroutine whose next call is known.\<close>

lemma go_call:
  assumes "i < length (progs c)" "progs c ! i = map_result h (do_call m k)"
    and "legal (seen c) (shared_state c) (exec m (shared_state c))"
  shows "go_step starts legal note_seen c
      \<lparr>progs = (progs c)[i := map_result h (k (fst (run_state m (shared_state c))))],
       seen = note_seen (seen c) (exec m (shared_state c)), shared_state = exec m (shared_state c)\<rparr>"
  using go_step.call [of i c "exec m" "\<lambda>s. map_result h (k (fst (run_state m s)))" legal starts note_seen] assms
  by (simp add: do_call_def)

text \<open>Stopping one goroutine after some calls, for the others to go on, is a run.\<close>

lemma go_after_calls:
  assumes "after_calls n p (shared_state c) = (q, t)" "i < length (progs c)" "progs c ! i = p"
  shows "\<exists>g. (go_step starts (\<lambda>_ _ _. True) note_seen)\<^sup>*\<^sup>* c \<lparr>progs = (progs c)[i := q], seen = g, shared_state = t\<rparr>"
  using assms
proof (induction n arbitrary: p c)
  case 0
  then have "c = \<lparr>progs = (progs c)[i := q], seen = seen c, shared_state = t\<rparr>" by auto
  then show ?case by (metis rtranclp.rtrancl_refl)
next
  case (Suc n)
  show ?case
  proof (cases p)
    case (Done a)
    with Suc.prems have "c = \<lparr>progs = (progs c)[i := q], seen = seen c, shared_state = t\<rparr>" by auto
    then show ?thesis by (metis rtranclp.rtrancl_refl)
  next
    case (Call f k)
    let ?s = "shared_state c"
    let ?c = "\<lparr>progs = (progs c)[i := k ?s], seen = note_seen (seen c) (f ?s), shared_state = f ?s\<rparr>"
    have step: "go_step starts (\<lambda>_ _ _. True) note_seen c ?c" using Suc.prems Call by (auto intro: go_step.call)
    have "after_calls n (k ?s) (shared_state ?c) = (q, t)" using Suc.prems(1) Call by simp
    from Suc.IH [OF this] Suc.prems(2) obtain g where
      "(go_step starts (\<lambda>_ _ _. True) note_seen)\<^sup>*\<^sup>* ?c \<lparr>progs = (progs c)[i := q], seen = g, shared_state = t\<rparr>" by auto
    with step show ?thesis by (blast intro: converse_rtranclp_into_rtranclp)
  qed
qed

text \<open>
  A goroutine makes finitely many calls, whatever the others do to the state: as long as no new
  one starts, every interleaving comes to an end.
\<close>

definition next_calls :: "(('s, 'a) prog \<times> ('s, 'a) prog) set" where
  "next_calls = {(c s, Call f c) | f c s. True}"

lemma wf_next_calls: "wf (next_calls :: (('s, 'a) prog \<times> ('s, 'a) prog) set)"
proof (rule wfUNIVI)
  fix P :: "('s, 'a) prog \<Rightarrow> bool" and p
  assume "\<forall>x. (\<forall>y. (y, x) \<in> next_calls \<longrightarrow> P y) \<longrightarrow> P x"
  then have step: "(\<And>y. (y, x) \<in> next_calls \<Longrightarrow> P y) \<Longrightarrow> P x" for x by blast
  show "P p"
    by (induction p; rule step) (auto simp: next_calls_def)
qed

lemma go_ends: "wf {(c', c :: ('g, 's, 'a) goroutines). go_step (\<lambda>_. False) legal note_seen c c'}"
proof (rule wf_subset [OF wf_inv_image [OF wf_mult [OF wf_next_calls], of "\<lambda>c. mset (progs c)"]], clarify)
  fix c c' :: "('g, 's, 'a) goroutines"
  assume "go_step (\<lambda>_. False) legal note_seen c c'"
  then show "(c', c) \<in> inv_image (mult next_calls) (\<lambda>c. mset (progs c))"
  proof cases
    case (call i f k)
    let ?M = "mset (progs c) - {#Call f k#}"
    have "Call f k \<in> set (progs c)" using call(2,3) nth_mem [of i "progs c"] by simp
    then have "mset (progs c) = ?M + {#Call f k#}" by simp
    moreover have "mset (progs c') = ?M + {#k (shared_state c)#}" using call by (simp add: mset_update)
    moreover have "(?M + {#k (shared_state c)#}, ?M + {#Call f k#}) \<in> mult next_calls"
      by (rule one_step_implies_mult) (auto simp: next_calls_def)
    ultimately show ?thesis by simp
  qed simp
qed

section \<open>Knowledge that interference keeps\<close>

text \<open>
  \<open>know k\<close> is what may be known of the record and the state, for each \<open>k\<close>.  A change is harmless
  if it keeps everything that may be known; this is what a goroutine relies on between its calls
  and what it guarantees for each of them.
\<close>

definition keeps_all :: "('k \<Rightarrow> 'g \<Rightarrow> 's \<Rightarrow> bool) \<Rightarrow> 'g \<Rightarrow> 's \<Rightarrow> 'g \<Rightarrow> 's \<Rightarrow> bool" where
  "keeps_all know g s g' s' \<longleftrightarrow> (\<forall>k. know k g s \<longrightarrow> know k g' s')"

primrec withstands ::
  "('k \<Rightarrow> 'g \<Rightarrow> 's \<Rightarrow> bool) \<Rightarrow> ('g \<Rightarrow> 's \<Rightarrow> 's \<Rightarrow> bool) \<Rightarrow> ('g \<Rightarrow> 's \<Rightarrow> 'g) \<Rightarrow> ('a \<Rightarrow> 'k) \<Rightarrow>
     ('s, 'a) prog \<Rightarrow> 'g \<Rightarrow> 's \<Rightarrow> bool" where
  "withstands know legal note_seen q (Done a) = (\<lambda>g s. know (q a) g s)"
| "withstands know legal note_seen q (Call f c) =
     (\<lambda>g s. \<forall>g' s'. keeps_all know g s g' s' \<longrightarrow> legal g' s' (f s') \<longrightarrow>
        keeps_all know g' s' (note_seen g' (f s')) (f s') \<and>
        withstands know legal note_seen q (c s') (note_seen g' (f s')) (f s'))"

definition holds ::
  "('k \<Rightarrow> 'g \<Rightarrow> 's \<Rightarrow> bool) \<Rightarrow> ('g \<Rightarrow> 's \<Rightarrow> 's \<Rightarrow> bool) \<Rightarrow> ('g \<Rightarrow> 's \<Rightarrow> 'g) \<Rightarrow> 'k \<Rightarrow> ('s, 'a) prog \<Rightarrow> ('a \<Rightarrow> 'k) \<Rightarrow> bool" where
  "holds know legal note_seen k p q \<longleftrightarrow> (\<forall>g s. know k g s \<longrightarrow> withstands know legal note_seen q p g s)"

text \<open>One call: it does no harm, and its result tells more.\<close>

definition call_keeps ::
  "('k \<Rightarrow> 'g \<Rightarrow> 's \<Rightarrow> bool) \<Rightarrow> ('g \<Rightarrow> 's \<Rightarrow> 's \<Rightarrow> bool) \<Rightarrow> ('g \<Rightarrow> 's \<Rightarrow> 'g) \<Rightarrow> 'k \<Rightarrow> ('s, 'a) state \<Rightarrow> ('a \<Rightarrow> 'k) \<Rightarrow> ('a \<Rightarrow> bool) \<Rightarrow> bool" where
  "call_keeps know legal note_seen k m k' B \<longleftrightarrow>
     (\<forall>g s x t. know k g s \<longrightarrow> run_state m s = (x, t) \<longrightarrow> legal g s t \<longrightarrow>
        keeps_all know g s (note_seen g t) t \<and> know (k' x) (note_seen g t) t \<and> B x)"

lemma keeps_all_refl [simp]: "keeps_all know g s g s"
  by (simp add: keeps_all_def)

lemma keeps_all_trans [trans]:
  "keeps_all know g s g' s' \<Longrightarrow> keeps_all know g' s' g'' s'' \<Longrightarrow> keeps_all know g s g'' s''"
  by (simp add: keeps_all_def)

lemma withstands_stable:
  assumes "withstands know legal note_seen q p g s" "keeps_all know g s g' s'"
  shows "withstands know legal note_seen q p g' s'"
proof (cases p)
  case (Done a)
  with assms show ?thesis by (simp add: keeps_all_def)
next
  case (Call f c)
  with assms show ?thesis by (auto intro: keeps_all_trans)
qed

lemma withstands_followed_by:
  assumes "withstands know legal note_seen q p g s" "\<And>a. holds know legal note_seen (q a) (k a) q'"
  shows "withstands know legal note_seen q' (followed_by p k) g s"
  using assms(1)
proof (induction p arbitrary: g s)
  case (Done a)
  with assms(2) [of a] show ?case by (simp add: holds_def)
next
  case (Call f c)
  have "keeps_all know g' s' (note_seen g' (f s')) (f s') \<and>
        withstands know legal note_seen q' (followed_by (c s') k) (note_seen g' (f s')) (f s')"
    if "keeps_all know g s g' s'" "legal g' s' (f s')" for g' s'
    using Call that by auto
  then show ?case by simp
qed

text \<open>The rules.\<close>

lemma holds_Done: "(\<And>g s. know k g s \<Longrightarrow> know (q a) g s) \<Longrightarrow> holds know legal note_seen k (Done a) q"
  by (simp add: holds_def)

lemma holds_stop: "holds know legal note_seen k (Done a) (\<lambda>_. k)"
  by (rule holds_Done)

lemma holds_call:
  assumes "call_keeps know legal note_seen k m k' B" "\<And>x. B x \<Longrightarrow> holds know legal note_seen (k' x) (c x) q"
  shows "holds know legal note_seen k (do_call m c) q"
  unfolding holds_def do_call_def
proof (intro allI impI)
  fix g s
  assume "know k g s"
  have "keeps_all know g' s' (note_seen g' (exec m s')) (exec m s') \<and>
        withstands know legal note_seen q (c (fst (run_state m s'))) (note_seen g' (exec m s')) (exec m s')"
    if "keeps_all know g s g' s'" "legal g' s' (exec m s')" for g' s'
  proof -
    obtain x t where x: "run_state m s' = (x, t)" by fastforce
    then have t: "exec m s' = t" by (rule exec_eqI)
    have "know k g' s'" using \<open>know k g s\<close> that(1) by (simp add: keeps_all_def)
    with assms(1) x that(2) t have "keeps_all know g' s' (note_seen g' t) t" "know (k' x) (note_seen g' t) t" "B x"
      by (auto simp: call_keeps_def)
    with assms(2) x t show ?thesis by (simp add: holds_def)
  qed
  then show "withstands know legal note_seen q (Call (exec m) (\<lambda>s. c (fst (run_state m s)))) g s" by simp
qed

lemma holds_one_call:
  assumes "call_keeps know legal note_seen k m k' B"
  shows "holds know legal note_seen k (one_call m) k'"
  unfolding one_call_def by (rule holds_call [OF assms]) (rule holds_Done)

lemma holds_followed_by:
  "holds know legal note_seen k p q \<Longrightarrow> (\<And>a. holds know legal note_seen (q a) (c a) q') \<Longrightarrow>
     holds know legal note_seen k (followed_by p c) q'"
  using withstands_followed_by unfolding holds_def [of know legal note_seen k] by (metis (no_types))

lemma holds_map_result:
  assumes "holds know legal note_seen k p (\<lambda>_. k')"
  shows "holds know legal note_seen k (map_result h p) (\<lambda>_. k')"
proof -
  have "map_result h p = followed_by p (\<lambda>a. Done (h a))" by (induction p) simp_all
  with assms show ?thesis by (simp add: holds_followed_by holds_stop)
qed

lemma holds_for_calls:
  "(\<And>x. x \<in> set xs \<Longrightarrow> holds know legal note_seen k (f x) (\<lambda>_. k)) \<Longrightarrow>
     holds know legal note_seen k (for_calls xs f) (\<lambda>_. k)"
  by (induction xs) (auto intro!: holds_stop holds_followed_by)

lemma holds_if:
  "(b \<Longrightarrow> holds know legal note_seen k p q) \<Longrightarrow> (\<not> b \<Longrightarrow> holds know legal note_seen k p' q) \<Longrightarrow>
     holds know legal note_seen k (if b then p else p') q"
  by simp

lemma holds_option:
  "(x = None \<Longrightarrow> holds know legal note_seen k p q) \<Longrightarrow> (\<And>a. x = Some a \<Longrightarrow> holds know legal note_seen k (f a) q) \<Longrightarrow>
     holds know legal note_seen k (case x of None \<Rightarrow> p | Some a \<Rightarrow> f a) q"
  by (cases x) simp_all

lemma holds_sum:
  "(\<And>e. x = Inl e \<Longrightarrow> holds know legal note_seen k (h e) q) \<Longrightarrow> (\<And>a. x = Inr a \<Longrightarrow> holds know legal note_seen k (f a) q) \<Longrightarrow>
     holds know legal note_seen k (case x of Inl e \<Rightarrow> h e | Inr a \<Rightarrow> f a) q"
  by (cases x) simp_all

lemma holds_weaken:
  "holds know legal note_seen k p q \<Longrightarrow> (\<And>g s. know k' g s \<Longrightarrow> know k g s) \<Longrightarrow> holds know legal note_seen k' p q"
  by (simp add: holds_def)

lemmas holds_intros = holds_if holds_option holds_sum holds_for_calls

section \<open>Any interleaving\<close>

text \<open>Every goroutine that can start does so knowing \<open>k0\<close> only, and does no harm.\<close>

locale shared =
  fixes know :: "'k \<Rightarrow> 'g \<Rightarrow> 's \<Rightarrow> bool" and legal :: "'g \<Rightarrow> 's \<Rightarrow> 's \<Rightarrow> bool" and note_seen :: "'g \<Rightarrow> 's \<Rightarrow> 'g"
    and starts :: "('s, 'a) prog \<Rightarrow> bool" and k0 :: 'k
  assumes starts_hold: "starts p \<Longrightarrow> holds know legal note_seen k0 p (\<lambda>_. k0)"
begin

definition settled :: "('g, 's, 'a) goroutines \<Rightarrow> bool" where
  "settled c \<longleftrightarrow> know k0 (seen c) (shared_state c) \<and>
     (\<forall>p\<in>set (progs c). withstands know legal note_seen (\<lambda>_. k0) p (seen c) (shared_state c))"

lemma settled_step: "go_step starts legal note_seen c c' \<Longrightarrow> settled c \<Longrightarrow> settled c'"
proof (induction rule: go_step.induct)
  case (start p c)
  with starts_hold [OF start(1)] show ?case by (auto simp: settled_def holds_def)
next
  case (call i c f k)
  let ?g = "note_seen (seen c) (f (shared_state c))" and ?s = "f (shared_state c)"
  have "withstands know legal note_seen (\<lambda>_. k0) (Call f k) (seen c) (shared_state c)"
    using call by (metis nth_mem settled_def)
  with call(3) have keep: "keeps_all know (seen c) (shared_state c) ?g ?s"
    and rest: "withstands know legal note_seen (\<lambda>_. k0) (k (shared_state c)) ?g ?s" by simp_all
  have "withstands know legal note_seen (\<lambda>_. k0) p ?g ?s" if "p \<in> set ((progs c)[i := k (shared_state c)])" for p
  proof -
    have "p = k (shared_state c) \<or> p \<in> set (progs c)" using that set_update_subset_insert by fastforce
    then show ?thesis
    proof
      assume "p \<in> set (progs c)"
      with call(4) have "withstands know legal note_seen (\<lambda>_. k0) p (seen c) (shared_state c)" by (simp add: settled_def)
      then show ?thesis using keep by (rule withstands_stable)
    qed (simp add: rest)
  qed
  moreover have "know k0 ?g ?s" using call(4) keep by (simp add: settled_def keeps_all_def)
  ultimately show ?case by (simp add: settled_def)
qed

lemma always_known:
  assumes "(go_step starts legal note_seen)\<^sup>*\<^sup>* c c'" "progs c = []" "know k0 (seen c) (shared_state c)"
  shows "know k0 (seen c') (shared_state c')"
proof -
  have "settled c" using assms(2,3) by (simp add: settled_def)
  with assms(1) have "settled c'" by (induction rule: rtranclp_induct) (auto intro: settled_step)
  then show ?thesis by (simp add: settled_def)
qed

end

end
