(* ===== verification/Goroutines.thy ===== *)
theory Goroutines
  imports Interleave System
begin

text \<open>
  The operations that change data, call by call.  A method of the storage or of the queue sends
  one statement or one command, so it is one call; between two calls any other goroutine may run.
  Each definition here is the one of its component with the calls made visible, and run alone it
  is that one (\<open>calls_alone\<close>).  The operations that only read are one call each.
\<close>

section \<open>A worker\<close>

definition handleFailure_calls :: "lib \<Rightarrow> ('d, 'r) Pool \<Rightarrow> Job \<Rightarrow> string \<Rightarrow> (('d, 'r) world, unit) prog" where
  "handleFailure_calls L p job jobErr =
     (let newRetryCount = wrap64 (RetryCount job + 1)
      in if newRetryCount \<ge> MaxRetries job then
           do_call (UpdateJobError (store p) (ID job) StatusDead newRetryCount jobErr) (\<lambda>_.
           one_call (publishEvent L p ''job.dead'' job))
         else
           do_call (UpdateJobError (store p) (ID job) StatusRetrying newRetryCount jobErr) (\<lambda>_.
           do_call (publishEvent L p ''job.retrying'' job) (\<lambda>_.
           do_call (metric_do RetriesTotal [Type job] Inc) (\<lambda>_.
           do_call time_Now (\<lambda>now.
           do_call (Schedule (queue p) (uuid_String L (ID job))
                      (Add now (BackoffDuration (float_oob L) newRetryCount))) (\<lambda>_.
           Done ()))))))"

definition after_handler_calls ::
  "lib \<Rightarrow> ('d, 'r) Pool \<Rightarrow> Job \<Rightarrow> time \<Rightarrow> string option \<Rightarrow> (('d, 'r) world, unit) prog" where
  "after_handler_calls L p job start err =
     (case err of
        Some e \<Rightarrow>
          do_call time_Now (\<lambda>now.
          do_call (metric_do JobDuration [Type job] (Observe (Sub now start))) (\<lambda>_.
          do_call (metric_do JobsProcessed [Type job, ''failed''] Inc) (\<lambda>_.
          do_call (metric_do ErrorsTotal [Type job] Inc) (\<lambda>_.
          handleFailure_calls L p job e))))
      | None \<Rightarrow>
          do_call time_Now (\<lambda>now.
          do_call (metric_do JobDuration [Type job] (Observe (Sub now start))) (\<lambda>_.
          do_call (metric_do JobsProcessed [Type job, ''success''] Inc) (\<lambda>_.
          do_call (UpdateJobStatus (store p) (ID job) StatusCompleted) (\<lambda>_.
          one_call (publishEvent L p ''job.completed'' job))))))"

definition run_handler_calls ::
  "lib \<Rightarrow> ('d, 'r) Pool \<Rightarrow> ('d, 'r) Handler \<Rightarrow> Job \<Rightarrow> (('d, 'r) world, unit) prog" where
  "run_handler_calls L p handler job =
     do_call time_Now (\<lambda>t.
     do_call time_Now (\<lambda>start.
     do_call (handler (Add t (jobTimeout p)) (Payload job)) (\<lambda>err.
     after_handler_calls L p job start err)))"

definition process_loaded_calls :: "lib \<Rightarrow> ('d, 'r) Pool \<Rightarrow> uuid \<Rightarrow> Job \<Rightarrow> (('d, 'r) world, unit) prog" where
  "process_loaded_calls L p jobID job =
     (case Registry_Get (registry p) (Type job) of
        None \<Rightarrow>
          do_call (UpdateJobError (store p) jobID StatusFailed (RetryCount job)
                     (''no handler for type: '' @ Type job)) (\<lambda>_.
          Done ())
      | Some handler \<Rightarrow>
          do_call (UpdateJobStatus (store p) jobID StatusRunning) (\<lambda>err.
          case err of
            Some _ \<Rightarrow> Done ()
          | None \<Rightarrow>
              do_call (publishEvent L p ''job.running'' job) (\<lambda>_.
              run_handler_calls L p handler job)))"

definition process_body_calls :: "lib \<Rightarrow> ('d, 'r) Pool \<Rightarrow> string \<Rightarrow> (('d, 'r) world, unit) prog" where
  "process_body_calls L p jobIDStr =
     (case uuid_Parse L jobIDStr of
        None \<Rightarrow> Done ()
      | Some jobID \<Rightarrow>
          do_call (GetJob (store p) jobID) (\<lambda>r.
          case r of Inl _ \<Rightarrow> Done () | Inr job \<Rightarrow> process_loaded_calls L p jobID job))"

definition processJob_calls :: "lib \<Rightarrow> ('d, 'r) Pool \<Rightarrow> string \<Rightarrow> (('d, 'r) world, unit) prog" where
  "processJob_calls L p jobIDStr =
     do_call (metric_do ActiveWorkers [] Inc) (\<lambda>_.
     followed_by (process_body_calls L p jobIDStr) (\<lambda>_.
     one_call (metric_do ActiveWorkers [] Dec)))"

definition worker_round_calls :: "lib \<Rightarrow> ('d, 'r) Pool \<Rightarrow> (('d, 'r) world, bool) prog" where
  "worker_round_calls L p =
     do_call (gets cancelled) (\<lambda>done.
     if done then Done False
     else
       do_call (Pop (queue p) (queues p) (1 * time_Second)) (\<lambda>r.
       case r of
         Inl _ \<Rightarrow> do_call (gets cancelled) (\<lambda>done'. Done (\<not> done'))
       | Inr jobID \<Rightarrow>
           if jobID = '''' then Done True
           else followed_by (processJob_calls L p jobID) (\<lambda>_. Done True)))"

section \<open>The scheduler\<close>

definition enqueue_due_calls :: "lib \<Rightarrow> ('d, 'r) Scheduler \<Rightarrow> string \<Rightarrow> (('d, 'r) world, unit) prog" where
  "enqueue_due_calls L s jobIDStr =
     (case uuid_Parse L jobIDStr of
        None \<Rightarrow> Done ()
      | Some jid \<Rightarrow>
          do_call (GetJob (sc_store s) jid) (\<lambda>r.
          case r of
            Inl _ \<Rightarrow> Done ()
          | Inr job \<Rightarrow>
              do_call (Push (sc_queue s) (Queue job) jobIDStr) (\<lambda>err.
              case err of
                Some _ \<Rightarrow> Done ()
              | None \<Rightarrow>
                  followed_by
                    (if Status job = StatusRetrying
                     then do_call (UpdateJobStatus (sc_store s) (ID job) StatusPending) (\<lambda>_. Done ())
                     else Done ())
                    (\<lambda>_. one_call (sc_publishEvent L s ''job.enqueued'' job)))))"

definition processScheduledJobs_calls :: "lib \<Rightarrow> ('d, 'r) Scheduler \<Rightarrow> (('d, 'r) world, unit) prog" where
  "processScheduledJobs_calls L s =
     do_call time_Now (\<lambda>now.
     do_call (GetDueJobs (sc_queue s) now) (\<lambda>r.
     case r of Inl _ \<Rightarrow> Done () | Inr dueJobIDs \<Rightarrow> for_calls dueJobIDs (enqueue_due_calls L s)))"

definition recoverUnqueuedJobs_calls :: "lib \<Rightarrow> ('d, 'r) Scheduler \<Rightarrow> (('d, 'r) world, unit) prog" where
  "recoverUnqueuedJobs_calls L s =
     do_call (GetPendingUnqueued (sc_store s) (5 * time_Second)) (\<lambda>r.
     case r of
       Inl _ \<Rightarrow> Done ()
     | Inr js \<Rightarrow>
         for_calls js (\<lambda>job. do_call (Push (sc_queue s) (Queue job) (uuid_String L (ID job))) (\<lambda>_. Done ())))"

definition recoverStaleJobs_calls :: "lib \<Rightarrow> ('d, 'r) Scheduler \<Rightarrow> (('d, 'r) world, unit) prog" where
  "recoverStaleJobs_calls L s =
     do_call (GetStaleRunningJobs (sc_store s) (sc_jobTimeout s)) (\<lambda>r.
     case r of
       Inl _ \<Rightarrow> Done ()
     | Inr js \<Rightarrow>
         for_calls js (\<lambda>job.
           do_call (UpdateJobError (sc_store s) (ID job) StatusFailed (RetryCount job) ''job timed out (stale)'') (\<lambda>_.
           one_call (sc_publishEvent L s ''job.stale_recovered'' job))))"

fun tick_calls :: "lib \<Rightarrow> ('d, 'r) Scheduler \<Rightarrow> loop \<Rightarrow> (('d, 'r) world, unit) prog" where
  "tick_calls L s ScheduledLoop = processScheduledJobs_calls L s"
| "tick_calls L s RecoveryLoop = recoverUnqueuedJobs_calls L s"
| "tick_calls L s StaleCheckLoop = recoverStaleJobs_calls L s"

section \<open>Requests\<close>

definition CreateJob_calls :: "lib \<Rightarrow> ('d, 'r) ApiHandler \<Rightarrow> request \<Rightarrow> (('d, 'r) world, response) prog" where
  "CreateJob_calls L h r =
     (case request_job (Body r) of
        Inl msg \<Rightarrow> Done (writeError 400 msg)
      | Inr job \<Rightarrow>
          do_call (CreateJob (h_store h) job) (\<lambda>c.
          case c of
            Inl _ \<Rightarrow> Done (writeError 500 ''failed to create job'')
          | Inr created \<Rightarrow>
              do_call (case RunAt job of
                         Some t \<Rightarrow> Schedule (h_queue h) (uuid_String L (ID created)) t
                       | None \<Rightarrow> Push (h_queue h) (Queue job) (uuid_String L (ID created))) (\<lambda>_.
              Done (writeJSON 201 (json_job L created)))))"

text \<open>What a cancellation and a retry do after the job was read and checked.\<close>

definition cancel_rest :: "lib \<Rightarrow> ('d, 'r) ApiHandler \<Rightarrow> uuid \<Rightarrow> Job \<Rightarrow> (('d, 'r) world, response) prog" where
  "cancel_rest L h i j =
     do_call (UpdateJobStatus (h_store h) i StatusCancelled) (\<lambda>e.
     case e of
       Some _ \<Rightarrow> Done (writeError 500 ''failed to cancel job'')
     | None \<Rightarrow>
         do_call (api_publishEvent L h ''job.cancelled'' j) (\<lambda>_.
         Done (writeJSON 200 (Some (status_only ''cancelled'')))))"

definition retry_rest :: "lib \<Rightarrow> ('d, 'r) ApiHandler \<Rightarrow> uuid \<Rightarrow> Job \<Rightarrow> (('d, 'r) world, response) prog" where
  "retry_rest L h i j =
     do_call (UpdateJobError (h_store h) i StatusPending 0 '''') (\<lambda>e.
     case e of
       Some _ \<Rightarrow> Done (writeError 500 ''failed to retry job'')
     | None \<Rightarrow>
         do_call (Push (h_queue h) (Queue j) (uuid_String L i)) (\<lambda>_.
         do_call (api_publishEvent L h ''job.retried'' j) (\<lambda>_.
         Done (writeJSON 200 (Some (status_only ''retrying''))))))"

definition CancelJob_calls :: "lib \<Rightarrow> ('d, 'r) ApiHandler \<Rightarrow> request \<Rightarrow> (('d, 'r) world, response) prog" where
  "CancelJob_calls L h r =
     (case uuid_Parse L (URLParam r ''id'') of
        None \<Rightarrow> Done (writeError 400 ''invalid job ID'')
      | Some jid \<Rightarrow>
          do_call (GetJob (h_store h) jid) (\<lambda>x.
          case x of
            Inl _ \<Rightarrow> Done (writeError 404 ''job not found'')
          | Inr job \<Rightarrow>
              if \<not> CanTransitionTo (Status job) StatusCancelled
              then Done (writeError 409 ''job cannot be cancelled in current state'')
              else
                cancel_rest L h jid job))"

definition RetryJob_calls :: "lib \<Rightarrow> ('d, 'r) ApiHandler \<Rightarrow> request \<Rightarrow> (('d, 'r) world, response) prog" where
  "RetryJob_calls L h r =
     (case uuid_Parse L (URLParam r ''id'') of
        None \<Rightarrow> Done (writeError 400 ''invalid job ID'')
      | Some jid \<Rightarrow>
          do_call (GetJob (h_store h) jid) (\<lambda>x.
          case x of
            Inl _ \<Rightarrow> Done (writeError 404 ''job not found'')
          | Inr job \<Rightarrow>
              if Status job \<noteq> StatusDead then Done (writeError 409 ''only dead jobs can be retried'')
              else
                retry_rest L h jid job))"

fun endpoint_calls ::
  "lib \<Rightarrow> ('d, 'r) ApiHandler \<Rightarrow> bool \<Rightarrow> (endpoint \<Rightarrow> ('d, 'r) http_handler) \<Rightarrow> endpoint \<Rightarrow> request \<Rightarrow> (('d, 'r) world, response) prog" where
  "endpoint_calls L h isLeader other ECreateJob r = CreateJob_calls L h r"
| "endpoint_calls L h isLeader other ECancelJob r = CancelJob_calls L h r"
| "endpoint_calls L h isLeader other ERetryJob r = RetryJob_calls L h r"
| "endpoint_calls L h isLeader other e r = one_call (endpoint_handler L h isLeader other e r)"

text \<open>The middlewares around a handler.\<close>

definition serve_calls ::
  "lib \<Rightarrow> ('d, 'r) ApiHandler \<Rightarrow> string \<Rightarrow> bool \<Rightarrow> (endpoint \<Rightarrow> ('d, 'r) http_handler) \<Rightarrow>
     http_method option \<times> string \<times> endpoint \<times> bool \<Rightarrow> request \<Rightarrow> (('d, 'r) world, response) prog" where
  "serve_calls L h apiKey isLeader other rt r =
     (case rt of (_, _, e, auth) \<Rightarrow>
        do_call time_Now (\<lambda>_.
        followed_by
          (if auth \<and> Header r ''X-API-Key'' \<noteq> apiKey then Done (writeError 401 ''invalid or missing API key'')
           else endpoint_calls L h isLeader other e r) (\<lambda>x.
        do_call time_Now (\<lambda>_.
        Done x))))"

definition router_calls ::
  "lib \<Rightarrow> (endpoint \<Rightarrow> ('d, 'r) http_handler) \<Rightarrow> ('c, 'd, 'r) app \<Rightarrow>
     http_method option \<times> string \<times> endpoint \<times> bool \<Rightarrow> request \<Rightarrow> (('d, 'r) world, response) prog" where
  "router_calls L rest a =
     serve_calls L (NewHandler (app_store a) (app_queue a)) (APIKey (app_cfg a)) (IsLeader (app_elector a))
       (dashboard_endpoint L (app_renderer a) (app_store a) (APIKey (app_cfg a)) rest)"

section \<open>Run alone, they are the operations\<close>

lemma alone_option [alone_simps]:
  "alone (case x of None \<Rightarrow> p | Some a \<Rightarrow> f a) = (case x of None \<Rightarrow> alone p | Some a \<Rightarrow> alone (f a))"
  by (rule option.case_distrib)

lemma alone_sum [alone_simps]:
  "alone (case x of Inl e \<Rightarrow> g e | Inr a \<Rightarrow> f a) = (case x of Inl e \<Rightarrow> alone (g e) | Inr a \<Rightarrow> alone (f a))"
  by (rule sum.case_distrib)

lemma alone_if [alone_simps]: "alone (if b then p else q) = (if b then alone p else alone q)"
  by simp

lemma alone_handleFailure [alone_simps]: "alone (handleFailure_calls L p job e) = handleFailure L p job e"
  by (simp add: handleFailure_calls_def handleFailure_def Let_def alone_if)

lemma alone_after_handler [alone_simps]: "alone (after_handler_calls L p job t x) = after_handler L p job t x"
  by (cases x) (simp_all add: after_handler_calls_def after_handler_def alone_handleFailure)

lemma alone_run_handler [alone_simps]: "alone (run_handler_calls L p f job) = run_handler L p f job"
  by (simp add: run_handler_calls_def run_handler_def alone_after_handler Let_def)

lemmas alone_congs = option.case_cong sum.case_cong if_cong

lemma alone_process_loaded [alone_simps]: "alone (process_loaded_calls L p i job) = process_loaded L p i job"
  by (simp add: process_loaded_calls_def process_loaded_def alone_simps cong: alone_congs)

lemma alone_process_body [alone_simps]: "alone (process_body_calls L p sid) = process_body L p sid"
  by (simp add: process_body_calls_def process_body_def alone_simps cong: alone_congs)

lemma alone_processJob [alone_simps]: "alone (processJob_calls L p sid) = processJob L p sid"
  by (simp add: processJob_calls_def processJob_def alone_simps)

lemma alone_worker_round [alone_simps]: "alone (worker_round_calls L p) = worker_round L p"
  by (simp add: worker_round_calls_def worker_round_def alone_simps cong: alone_congs)

lemma alone_enqueue_due [alone_simps]: "alone (enqueue_due_calls L s sid) = enqueue_due L s sid"
  by (simp add: enqueue_due_calls_def enqueue_due_def alone_simps when_do_def cong: alone_congs)

lemma alone_tick [alone_simps]: "alone (tick_calls L s l) = tick_body L s l"
  by (cases l)
     (simp_all add: processScheduledJobs_calls_def processScheduledJobs_def recoverUnqueuedJobs_calls_def
        recoverUnqueuedJobs_def recoverStaleJobs_calls_def recoverStaleJobs_def alone_simps cong: alone_congs)

lemma alone_requests [alone_simps]:
  "alone (CreateJob_calls L h r) = api_CreateJob L h r"
  "alone (CancelJob_calls L h r) = api_CancelJob L h r"
  "alone (RetryJob_calls L h r) = api_RetryJob L h r"
  by (simp_all add: CreateJob_calls_def api_CreateJob_def CancelJob_calls_def api_CancelJob_def RetryJob_calls_def
        api_RetryJob_def cancel_rest_def retry_rest_def alone_simps cong: alone_congs)

lemma alone_endpoint [alone_simps]: "alone (endpoint_calls L h b other e r) = endpoint_handler L h b other e r"
  by (cases e) (simp_all add: alone_simps)

lemma alone_serve [alone_simps]: "alone (serve_calls L h key b other rt r) = serve_route L h key b other rt r"
  by (cases rt) (simp add: serve_calls_def serve_route_def RequestLogger_def APIKeyAuth_def alone_simps)

text \<open>
  The calls are those of the program.  A request through the router, a round of a worker and a tick
  of any loop of the scheduler, taken call by call and run with nothing in between, do exactly what
  the definitions of their components do, from every state and with every result.
\<close>

lemma calls_alone:
  "alone (router_calls L rest a rt r) = NewRouter L rest a rt r \<and>
   alone (worker_round_calls L p) = worker_round L p \<and>
   alone (tick_calls L s l) = tick_body L s l"
  by (simp add: router_calls_def NewRouter_def alone_serve alone_worker_round alone_tick)

end
