(* ===== verification/Concurrent.thy ===== *)
theory Concurrent
  imports Goroutines
begin

text \<open>
  The invariant of the stored data when goroutines are interleaved call by call, whatever calls
  fail.  A goroutine between two calls knows the number of retries its job was stored with, and
  that it was started; no call of another goroutine can take this away as long as no identifier
  is used twice.
\<close>

section \<open>What a goroutine knows between its calls\<close>

text \<open>
  The record of a run: the identifiers stored so far, each with its number of retries.  A new
  job must get an identifier that was never stored (\<^verbatim>\<open>gen_random_uuid()\<close>).
\<close>

type_synonym id_book = "uuid \<rightharpoonup> int"
type_synonym facts = "(uuid \<rightharpoonup> int) \<times> uuid set"

definition note_ids :: "('d \<Rightarrow> table) \<Rightarrow> id_book \<Rightarrow> ('d, 'r) world \<Rightarrow> id_book" where
  "note_ids tbl g w = (\<lambda>i. case g i of Some k \<Rightarrow> Some k | None \<Rightarrow> map_option MaxRetries (look (table_jobs (tbl (db w))) i))"

definition no_reuse :: "('d \<Rightarrow> table) \<Rightarrow> id_book \<Rightarrow> ('d, 'r) world \<Rightarrow> ('d, 'r) world \<Rightarrow> bool" where
  "no_reuse tbl g w w' \<longleftrightarrow>
     (\<forall>j\<in>set (table_jobs (tbl (db w'))). ID j \<in> dom g \<longrightarrow> ID j \<in> ID ` set (table_jobs (tbl (db w))))"

definition told :: "('d \<Rightarrow> table) \<Rightarrow> ('r \<Rightarrow> keyspace) \<Rightarrow> lib \<Rightarrow> facts \<Rightarrow> id_book \<Rightarrow> ('d, 'r) world \<Rightarrow> bool" where
  "told tbl ks L k g w \<longleftrightarrow>
     (\<exists>n. knows tbl ks L n g (snd k) w) \<and> fst k \<subseteq>\<^sub>m g \<and> snd k \<subseteq> dom g \<and>
     ID ` set (table_jobs (tbl (db w))) \<subseteq> dom g"

abbreviation harmless ::
  "('d \<Rightarrow> table) \<Rightarrow> ('r \<Rightarrow> keyspace) \<Rightarrow> lib \<Rightarrow> facts \<Rightarrow> (('d, 'r) world, 'a) state \<Rightarrow> ('a \<Rightarrow> facts) \<Rightarrow> ('a \<Rightarrow> bool) \<Rightarrow> bool" where
  "harmless tbl ks L \<equiv> call_keeps (told tbl ks L) (no_reuse tbl) (note_ids tbl)"

abbreviation sound ::
  "('d \<Rightarrow> table) \<Rightarrow> ('r \<Rightarrow> keyspace) \<Rightarrow> lib \<Rightarrow> facts \<Rightarrow> (('d, 'r) world, 'a) prog \<Rightarrow> ('a \<Rightarrow> facts) \<Rightarrow> bool" where
  "sound tbl ks L \<equiv> holds (told tbl ks L) (no_reuse tbl) (note_ids tbl)"

lemma note_ids_extends: "g \<subseteq>\<^sub>m note_ids tbl g w"
  by (auto simp: map_le_def note_ids_def dom_def)

lemma map_le_dom: "g \<subseteq>\<^sub>m h \<Longrightarrow> dom g \<subseteq> dom h"
  by (rule map_le_implies_dom_le)

lemma knows_schema: "knows tbl ks L n K B w \<Longrightarrow> jobs_ok (table_jobs (tbl (db w)))"
  using schema_jobs_ok by (auto simp: knows_def table_jobs_def)

text \<open>What was noted is true of the table, and it lists every job in it.\<close>

lemma knows_noted:
  assumes "knows tbl ks L n g B w"
  shows "knows tbl ks L n (note_ids tbl g w) B w"
proof -
  note jo = knows_schema [OF assms]
  have "kept (note_ids tbl g w) B j" if "j \<in> set (table_jobs (tbl (db w)))" for j
  proof -
    have "kept g B j" using assms that by (simp add: knows_def list_all_iff)
    moreover have "look (table_jobs (tbl (db w))) (ID j) = Some j" using that look_Some_iff [OF jo] by simp
    ultimately show ?thesis by (auto simp: kept_def note_ids_def split: option.splits)
  qed
  with assms show ?thesis by (simp add: knows_def list_all_iff)
qed

lemma noted_all:
  assumes "knows tbl ks L n g B w"
  shows "ID ` set (table_jobs (tbl (db w))) \<subseteq> dom (note_ids tbl g w)"
proof
  fix i
  assume "i \<in> ID ` set (table_jobs (tbl (db w)))"
  then obtain j where "j \<in> set (table_jobs (tbl (db w)))" "ID j = i" by blast
  then have "look (table_jobs (tbl (db w))) i = Some j" using look_Some_iff [OF knows_schema [OF assms]] by blast
  then show "i \<in> dom (note_ids tbl g w)" by (auto simp: note_ids_def split: option.splits)
qed

lemma knows_both: "knows tbl ks L n K B w \<Longrightarrow> knows tbl ks L n K B' w \<Longrightarrow> knows tbl ks L n K (B \<union> B') w"
  by (auto simp: knows_def list_all_iff kept_def)

lemma knows_fewer: "knows tbl ks L n K B w \<Longrightarrow> B' \<subseteq> B \<Longrightarrow> knows tbl ks L n K B' w"
  by (auto simp: knows_def list_all_iff kept_def)

lemma knows_gauge: "knows tbl ks L n K B w \<Longrightarrow> knows tbl ks L m K B' w \<Longrightarrow> m = n"
  by (simp add: knows_def metrics_ok_def)

lemma told_noted:
  assumes "knows tbl ks L n g (snd k) w" "fst k \<subseteq>\<^sub>m g" "snd k \<subseteq> dom g"
  shows "told tbl ks L k (note_ids tbl g w) w"
proof -
  have "snd k \<subseteq> dom (note_ids tbl g w)" using assms(3) map_le_dom [OF note_ids_extends] by (rule order_trans)
  moreover have "fst k \<subseteq>\<^sub>m note_ids tbl g w" using assms(2) note_ids_extends by (rule map_le_trans)
  ultimately show ?thesis using knows_noted [OF assms(1)] noted_all [OF assms(1)] by (auto simp: told_def)
qed

text \<open>
  A call that keeps what its goroutine knows together with whatever else is known is harmless,
  if it also does so when it stores a new identifier.
\<close>

lemma harmless_legal:
  assumes "\<And>n g B' w x w'. K \<subseteq>\<^sub>m g \<Longrightarrow> B \<subseteq> B' \<Longrightarrow> B' \<subseteq> dom g \<Longrightarrow> ID ` set (table_jobs (tbl (db w))) \<subseteq> dom g \<Longrightarrow>
      knows tbl ks L n g B' w \<Longrightarrow> run_state m w = (x, w') \<Longrightarrow> no_reuse tbl g w w' \<Longrightarrow> (\<exists>n'. knows tbl ks L n' g B' w') \<and> P x"
  shows "harmless tbl ks L (K, B) m (\<lambda>_. (K, B)) P"
  unfolding call_keeps_def
proof (intro allI impI)
  fix g w x w'
  assume t: "told tbl ks L (K, B) g w" and r: "run_state m w = (x, w')" "no_reuse tbl g w w'"
  then obtain n where n: "knows tbl ks L n g B w" "K \<subseteq>\<^sub>m g" "B \<subseteq> dom g" "ID ` set (table_jobs (tbl (db w))) \<subseteq> dom g"
    by (auto simp: told_def)
  have "told tbl ks L k (note_ids tbl g w') w'" if k: "told tbl ks L k g w" for k
  proof -
    from k obtain m where m: "knows tbl ks L m g (snd k) w" "fst k \<subseteq>\<^sub>m g" "snd k \<subseteq> dom g" by (auto simp: told_def)
    with knows_gauge [OF n(1)] have "knows tbl ks L n g (B \<union> snd k) w" using knows_both [OF n(1)] by blast
    then obtain n' where "knows tbl ks L n' g (B \<union> snd k) w'" using assms n m(3) r by (meson Un_least Un_upper1)
    then have "knows tbl ks L n' g (snd k) w'" by (rule knows_fewer) simp
    then show ?thesis using m(2,3) by (rule told_noted)
  qed
  moreover have "P x" using assms n r by blast
  ultimately show "keeps_all (told tbl ks L) g w (note_ids tbl g w') w' \<and> told tbl ks L (K, B) (note_ids tbl g w') w' \<and> P x"
    using t by (simp add: keeps_all_def)
qed

lemma harmless_call:
  assumes "\<And>n g B'. K \<subseteq>\<^sub>m g \<Longrightarrow> B \<subseteq> B' \<Longrightarrow> valid (knows tbl ks L n g B') m (\<lambda>x w. (\<exists>n'. knows tbl ks L n' g B' w) \<and> P x)"
  shows "harmless tbl ks L (K, B) m (\<lambda>_. (K, B)) P"
  using assms by (intro harmless_legal) (blast dest: validD)

lemma harmless_preserves:
  assumes "\<And>n g B'. K \<subseteq>\<^sub>m g \<Longrightarrow> B \<subseteq> B' \<Longrightarrow> preserves (knows tbl ks L n g B') m"
  shows "harmless tbl ks L (K, B) m (\<lambda>_. (K, B)) (\<lambda>_. True)"
  by (rule harmless_call, rule valid_weaken [OF assms]) auto

text \<open>A call may also tell more than its goroutine knew.\<close>

lemma harmless_learn:
  assumes "harmless tbl ks L k m (\<lambda>_. k) P"
    and "\<And>g w x w'. told tbl ks L k g w \<Longrightarrow> run_state m w = (x, w') \<Longrightarrow> P x \<Longrightarrow> told tbl ks L k (note_ids tbl g w') w' \<Longrightarrow>
           told tbl ks L (k' x) (note_ids tbl g w') w'"
  shows "harmless tbl ks L k m k' P"
  using assms unfolding call_keeps_def by blast

lemma told_book:
  assumes "told tbl ks L k g w" "j \<in> set (table_jobs (tbl (db w)))"
  shows "g (ID j) = Some (MaxRetries j)"
proof -
  obtain n where "knows tbl ks L n g (snd k) w" using assms(1) by (auto simp: told_def)
  then have "kept g (snd k) j" using assms(2) by (simp add: knows_def list_all_iff)
  moreover have "ID j \<in> dom g" using assms by (auto simp: told_def)
  ultimately show ?thesis by (auto simp: kept_def)
qed

subsection \<open>The calls\<close>

lemma error_sound_mono: "error_sound K i st rc \<Longrightarrow> K \<subseteq>\<^sub>m g \<Longrightarrow> error_sound g i st rc"
  unfolding error_sound_def map_le_def by (metis domI)

lemma harmless_reads:
  assumes "\<And>v. preserves (same_data tbl v) m"
  shows "harmless tbl ks L (K, B) m (\<lambda>_. (K, B)) (\<lambda>_. True)"
  by (rule harmless_preserves, rule knows_reads [OF assms])

lemma harmless_gets: "harmless tbl ks L (K, B) (gets f) (\<lambda>_. (K, B)) (\<lambda>_. True)"
  by (rule harmless_preserves, rule preserves_gets)

lemma harmless_now: "harmless tbl ks L (K, B) time_Now (\<lambda>_. (K, B)) (\<lambda>t. in_int64 (Unix t))"
  by (rule harmless_call, rule valid_weaken [OF knows_now]) auto

lemma harmless_metric:
  "call_ok (m, ls, q) \<Longrightarrow> harmless tbl ks L (K, B) (metric_do m ls q) (\<lambda>_. (K, B)) (\<lambda>_. True)"
  by (rule harmless_call, rule valid_weaken [OF knows_metric]) auto

lemma harmless_handler: "tame f \<Longrightarrow> harmless tbl ks L (K, B) (f t pl) (\<lambda>_. (K, B)) (\<lambda>_. True)"
  by (rule harmless_preserves, rule knows_handler)

context storage
begin

lemma harmless_GetJob:
  "harmless tbl ks L (K, B) (GetJob s i)
     (\<lambda>x. case x of Inl _ \<Rightarrow> (K, B) | Inr j \<Rightarrow> (K(i \<mapsto> MaxRetries j), B))
     (\<lambda>x. \<forall>j. x = Inr j \<longrightarrow> ID j = i \<and> 0 \<le> RetryCount j \<and> in_int4 (RetryCount j))"
proof (rule harmless_learn)
  show "harmless tbl ks L (K, B) (GetJob s i) (\<lambda>_. (K, B))
      (\<lambda>x. \<forall>j. x = Inr j \<longrightarrow> ID j = i \<and> 0 \<le> RetryCount j \<and> in_int4 (RetryCount j))"
    by (rule harmless_call, rule valid_weaken [OF knows_GetJob]) blast+
next
  fix g w x w'
  assume t: "told tbl ks L (K, B) g w" "told tbl ks L (K, B) (note_ids tbl g w') w'" and r: "run_state (GetJob s i) w = (x, w')"
  have ok: "ok (db w)" using t(1) by (auto simp: told_def knows_def)
  show "told tbl ks L (case x of Inl _ \<Rightarrow> (K, B) | Inr j \<Rightarrow> (K(i \<mapsto> MaxRetries j), B)) (note_ids tbl g w') w'"
  proof (cases x)
    case (Inr j)
    then have "look (jobs (db w)) i = Some j" "jobs (db w') = jobs (db w)" using GetJob_run [OF ok r] by auto
    then have "j \<in> set (jobs (db w'))" "ID j = i" using look_Some_iff [OF ok_jobs_ok [OF ok]] by auto
    with told_book [OF t(2)] have "note_ids tbl g w' i = Some (MaxRetries j)" by blast
    with t(2) Inr show ?thesis by (auto simp: told_def map_le_def)
  qed (use t(2) in simp)
qed

lemma harmless_status:
  assumes "st \<in> {StatusPending, StatusRunning, StatusCancelled} \<or> st = StatusCompleted \<and> i \<in> B"
  shows "harmless tbl ks L (K, B) (UpdateJobStatus s i st) (\<lambda>_. (K, B)) (\<lambda>_. True)"
  by (rule harmless_preserves, rule knows_status) (use assms in blast)

lemma harmless_run_status:
  assumes "K i \<noteq> None"
  shows "harmless tbl ks L (K, B) (UpdateJobStatus s i StatusRunning) (\<lambda>y. if y = None then (K, insert i B) else (K, B)) (\<lambda>_. True)"
proof (rule harmless_learn [OF harmless_status])
  fix g w y w'
  assume t: "told tbl ks L (K, B) g w" "told tbl ks L (K, B) (note_ids tbl g w') w'"
    and r: "run_state (UpdateJobStatus s i StatusRunning) w = (y, w')"
  obtain n where n: "knows tbl ks L n g B w" "K \<subseteq>\<^sub>m g" "B \<subseteq> dom g" using t(1) by (auto simp: told_def)
  have "i \<in> dom g" using assms map_le_dom [OF n(2)] by blast
  moreover have "y = None \<Longrightarrow> knows tbl ks L n g (insert i B) w'" using validD [OF knows_run_status n(1) r] by simp
  ultimately show "told tbl ks L (if y = None then (K, insert i B) else (K, B)) (note_ids tbl g w') w'"
    using t(2) n(2,3) told_noted [of tbl ks L n g "(K, insert i B)" w'] by auto
qed simp

lemma harmless_error:
  assumes "error_sound K i st rc"
  shows "harmless tbl ks L (K, B) (UpdateJobError s i st rc e) (\<lambda>_. (K, B)) (\<lambda>_. True)"
  by (rule harmless_preserves, rule knows_error, rule error_sound_mono [OF assms])

lemma harmless_DeleteJob: "harmless tbl ks L (K, B) (DeleteJob s i) (\<lambda>_. (K, B)) (\<lambda>_. True)"
  by (rule harmless_preserves, rule knows_DeleteJob)

lemma reads_stale: "preserves (same_data tbl v) (GetStaleRunningJobs s t)"
  unfolding GetStaleRunningJobs_def
  by (intro preserves_bind reads_clock reads_jobs_query) (simp add: stale_running_sql_def)

lemma harmless_stale:
  "harmless tbl ks L (K, B) (GetStaleRunningJobs s t) (\<lambda>_. (K, B)) (\<lambda>x. \<forall>js. x = Inr js \<longrightarrow> list_all (\<lambda>j. 0 \<le> RetryCount j) js)"
proof (rule harmless_call, rule validI)
  fix n g B' w x w'
  assume k: "knows tbl ks L n g B' w" and r: "run_state (GetStaleRunningJobs s t) w = (x, w')"
  have "sys_ok tbl ks L n w" using k by (rule knows_weaken)
  from validD [OF sys_stale_query this r] have "\<forall>js. x = Inr js \<longrightarrow> list_all (\<lambda>j. 0 \<le> RetryCount j) js" by blast
  moreover have "knows tbl ks L n g B' w'"
    by (rule validD [OF knows_reads [OF reads_stale] k r])
  ultimately show "(\<exists>n'. knows tbl ks L n' g B' w') \<and> (\<forall>js. x = Inr js \<longrightarrow> list_all (\<lambda>j. 0 \<le> RetryCount j) js)" by blast
qed

text \<open>The new job has an identifier nothing is known of.\<close>

lemma harmless_CreateJob:
  assumes "request_job b = Inr job"
  shows "harmless tbl ks L (K, B) (CreateJob s job) (\<lambda>_. (K, B)) (\<lambda>_. True)"
proof (rule harmless_legal)
  fix n g B' w x w'
  assume k: "knows tbl ks L n g B' w" "B' \<subseteq> dom g" and r: "run_state (CreateJob s job) w = (x, w')" and u: "no_reuse tbl g w w'"
  have ok: "ok (db w)" using k by (simp add: knows_def)
  obtain d where d: "w' = w\<lparr>db := d\<rparr>" "ok d"
    "jobs d = jobs (db w) \<or> (\<exists>p. jobs d = jobs (db w) @ [new_job (env (db w)) p job])"
    using CreateJob_run [OF ok r] by metis
  have "kept g B' j" if "j \<in> set (jobs d)" for j
  proof (cases "j \<in> set (jobs (db w))")
    case True
    with k show ?thesis by (simp add: knows_def list_all_iff)
  next
    case False
    with d(3) that obtain p where j: "j = new_job (env (db w)) p job" "jobs d = jobs (db w) @ [j]" by auto
    have "ID j \<notin> ID ` set (jobs (db w))" using ok_jobs_ok [OF d(2)] j(2) by (simp add: jobs_ok_def)
    then have "ID j \<notin> dom g" using u that d(1) by (auto simp: no_reuse_def)
    moreover from this k(2) have "ID j \<notin> B'" by blast
    moreover have "job_sound j"
      using assms unfolding j(1) by (auto simp: request_job_def Let_def job_sound_def new_job_def status_facts
          split: option.splits if_splits)
    ultimately show ?thesis by (simp add: kept_def domIff)
  qed
  then have "knows tbl ks L n g B' w'" using knows_db [OF k(1) d(2), of g B' "ticks w"] d(1) by (simp add: list_all_iff)
  then show "(\<exists>n'. knows tbl ks L n' g B' w') \<and> True" by blast
qed

end

context redis_queue
begin

lemma harmless_Push: "harmless tbl ks L (K, B) (Push q name (uuid_String L i)) (\<lambda>_. (K, B)) (\<lambda>_. True)"
  by (rule harmless_preserves, rule knows_Push)

lemma harmless_Schedule: "harmless tbl ks L (K, B) (Schedule q (uuid_String L i) t) (\<lambda>_. (K, B)) (\<lambda>_. True)"
  by (rule harmless_preserves, rule knows_Schedule)

lemma harmless_Pop: "harmless tbl ks L (K, B) (Pop q qs t) (\<lambda>_. (K, B)) (\<lambda>_. True)"
  by (rule harmless_preserves, rule knows_Pop)

lemma harmless_due:
  "in_int64 (Unix t) \<Longrightarrow>
     harmless tbl ks L (K, B) (GetDueJobs q t) (\<lambda>_. (K, B)) (\<lambda>x. \<forall>vs. x = Inr vs \<longrightarrow> set vs \<subseteq> range (uuid_String L))"
  by (rule harmless_call, rule valid_weaken [OF knows_due]) auto

end

subsection \<open>The goroutines\<close>

definition no_facts :: facts where
  "no_facts = (Map.empty, {})"

lemma told_forget: "told tbl ks L k g w \<Longrightarrow> told tbl ks L no_facts g w"
  unfolding told_def no_facts_def by (auto intro: knows_fewer)

lemma told_sys_ok: "told tbl ks L no_facts g w \<Longrightarrow> \<exists>n. sys_ok tbl ks L n w"
  by (auto simp: told_def intro: knows_weaken)

lemma sound_Done: "sound tbl ks L k (Done a) (\<lambda>_. no_facts)"
  by (rule holds_Done) (rule told_forget)

lemma sound_one: "harmless tbl ks L k m (\<lambda>_. k) P \<Longrightarrow> sound tbl ks L k (one_call m) (\<lambda>_. no_facts)"
  unfolding one_call_def by (erule holds_call) (rule sound_Done)

lemma sound_then: "sound tbl ks L k p (\<lambda>_. no_facts) \<Longrightarrow> (\<And>a. sound tbl ks L no_facts (c a) q) \<Longrightarrow> sound tbl ks L k (followed_by p c) q"
  by (rule holds_followed_by)

lemma sound_facts: "sound tbl ks L no_facts p q \<Longrightarrow> sound tbl ks L k p q"
  by (erule holds_weaken) (rule told_forget)

context worker_services
begin

lemma harmless_publish: "harmless tbl ks L (K, B) (publishEvent L p ty j) (\<lambda>_. (K, B)) (\<lambda>_. True)"
  by (rule harmless_preserves, rule knows_worker_publish)

lemma sound_handleFailure:
  assumes "K (ID j) = Some (MaxRetries j)" "0 \<le> RetryCount j" "in_int4 (RetryCount j)"
  shows "sound tbl ks L (K, B) (handleFailure_calls L p j e) (\<lambda>_. no_facts)"
  unfolding handleFailure_calls_def Let_def next_count [OF assms(3)]
  by (intro holds_if holds_call [OF st.harmless_error] holds_call [OF harmless_publish] holds_call [OF harmless_metric]
        holds_call [OF harmless_now] holds_call [OF rq.harmless_Schedule] sound_one [OF harmless_publish] sound_Done)
     (use assms in \<open>auto simp: error_sound_def call_ok_def\<close>)

lemma sound_run_handler:
  assumes "K (ID j) = Some (MaxRetries j)" "0 \<le> RetryCount j" "in_int4 (RetryCount j)" "tame f" "ID j \<in> B"
  shows "sound tbl ks L (K, B) (run_handler_calls L p f j) (\<lambda>_. no_facts)"
  unfolding run_handler_calls_def after_handler_calls_def
  by (intro holds_option holds_call [OF harmless_now] holds_call [OF harmless_metric] holds_call [OF harmless_handler]
        holds_call [OF st.harmless_status] sound_one [OF harmless_publish] sound_handleFailure)
     (use assms in \<open>simp_all add: call_ok_def\<close>)

lemma sound_process_loaded:
  assumes "tame_registry (registry p)" "ID j = i" "0 \<le> RetryCount j" "in_int4 (RetryCount j)"
  shows "sound tbl ks L ([i \<mapsto> MaxRetries j], {}) (process_loaded_calls L p i j) (\<lambda>_. no_facts)"
proof (cases "Registry_Get (registry p) (Type j)")
  case None
  have "error_sound [i \<mapsto> MaxRetries j] i StatusFailed (RetryCount j)" using assms(3) by (simp add: error_sound_def)
  with None show ?thesis
    by (simp add: process_loaded_calls_def holds_call [OF st.harmless_error] sound_Done)
next
  case (Some f)
  with assms(1) have f: "tame f" by (simp add: tame_registry_def)
  have rest: "sound tbl ks L (if y = None then ([i \<mapsto> MaxRetries j], {i}) else ([i \<mapsto> MaxRetries j], {}))
          (case y of Some _ \<Rightarrow> Done () | None \<Rightarrow> do_call (publishEvent L p ''job.running'' j) (\<lambda>_. run_handler_calls L p f j))
          (\<lambda>_. no_facts)" for y
    by (cases y; simp; intro sound_Done holds_call [OF harmless_publish] sound_run_handler) (use assms f in simp_all)
  have "harmless tbl ks L ([i \<mapsto> MaxRetries j], {}) (UpdateJobStatus (store p) i StatusRunning)
      (\<lambda>y. if y = None then ([i \<mapsto> MaxRetries j], {i}) else ([i \<mapsto> MaxRetries j], {})) (\<lambda>_. True)"
    by (rule st.harmless_run_status) simp
  from holds_call [OF this rest] Some show ?thesis by (simp add: process_loaded_calls_def)
qed

lemma sound_process_body:
  assumes "tame_registry (registry p)"
  shows "sound tbl ks L no_facts (process_body_calls L p sid) (\<lambda>_. no_facts)"
proof (cases "uuid_Parse L sid")
  case (Some i)
  have rest: "sound tbl ks L (case x of Inl _ \<Rightarrow> (Map.empty, {}) | Inr j \<Rightarrow> ([i \<mapsto> MaxRetries j], {}))
          (case x of Inl _ \<Rightarrow> Done () | Inr job \<Rightarrow> process_loaded_calls L p i job) (\<lambda>_. no_facts)"
    if "\<forall>j. x = Inr j \<longrightarrow> ID j = i \<and> 0 \<le> RetryCount j \<and> in_int4 (RetryCount j)" for x
    using that by (cases x) (simp_all add: sound_Done sound_process_loaded [OF assms])
  from holds_call [OF st.harmless_GetJob [where K = Map.empty and B = "{}"] rest] Some show ?thesis
    by (simp add: process_body_calls_def no_facts_def)
qed (simp add: process_body_calls_def sound_Done)

lemma sound_processJob:
  assumes "tame_registry (registry p)"
  shows "sound tbl ks L no_facts (processJob_calls L p sid) (\<lambda>_. no_facts)"
proof -
  have gauge: "harmless tbl ks L no_facts (metric_do ActiveWorkers [] q) (\<lambda>_. no_facts) (\<lambda>_. True)" if "q \<in> {Inc, Dec}" for q
    unfolding no_facts_def by (rule harmless_metric) (use that in \<open>auto simp: call_ok_def\<close>)
  show ?thesis
    unfolding processJob_calls_def
    by (rule holds_call [OF gauge], simp) (intro sound_then sound_process_body assms sound_one [OF gauge], simp)
qed

lemma sound_round:
  assumes "tame_registry (registry p)"
  shows "sound tbl ks L no_facts (worker_round_calls L p) (\<lambda>_. no_facts)"
proof -
  have gets: "harmless tbl ks L no_facts (gets cancelled) (\<lambda>_. no_facts) (\<lambda>_. True)"
    and pop: "harmless tbl ks L no_facts (Pop (queue p) (queues p) t) (\<lambda>_. no_facts) (\<lambda>_. True)" for t
    unfolding no_facts_def by (rule harmless_gets rq.harmless_Pop)+
  show ?thesis
    unfolding worker_round_calls_def
    by (intro holds_intros holds_call [OF gets] holds_call [OF pop] sound_then sound_processJob [OF assms] sound_Done)
qed

end

context scheduler_services
begin

lemma harmless_sc_publish: "harmless tbl ks L (K, B) (sc_publishEvent L s ty j) (\<lambda>_. (K, B)) (\<lambda>_. True)"
  unfolding sc_publishEvent_def by (rule harmless_preserves) (intro preserves_intros rc.knows_publish)

lemma sound_enqueue:
  assumes "v \<in> range (uuid_String L)"
  shows "sound tbl ks L (K, B) (enqueue_due_calls L s v) (\<lambda>_. no_facts)"
proof -
  obtain i where v: "v = uuid_String L i" using assms by blast
  have get: "harmless tbl ks L (K, B) (GetJob (sc_store s) jid) (\<lambda>_. (K, B)) (\<lambda>_. True)" for K B jid
    by (rule harmless_reads) (rule st.reads_GetJob)
  show ?thesis
    unfolding enqueue_due_calls_def v
    by (intro holds_intros holds_call [OF get] holds_call [OF rq.harmless_Push] sound_then holds_call [OF st.harmless_status]
          sound_facts [OF sound_one [OF harmless_sc_publish [where K = Map.empty and B = "{}", folded no_facts_def]]] sound_Done) simp
qed

lemma sound_tick: "sound tbl ks L no_facts (tick_calls L s l) (\<lambda>_. no_facts)"
proof (cases l)
  case ScheduledLoop
  have "sound tbl ks L (Map.empty, {}) (case x of Inl _ \<Rightarrow> Done () | Inr vs \<Rightarrow> for_calls vs (enqueue_due_calls L s)) (\<lambda>_. no_facts)"
    if "\<forall>vs. x = Inr vs \<longrightarrow> set vs \<subseteq> range (uuid_String L)" for x
    unfolding no_facts_def [symmetric]
    by (intro holds_sum sound_Done holds_for_calls) (use that sound_enqueue in \<open>auto simp: no_facts_def\<close>)
  then have "sound tbl ks L (Map.empty, {}) (processScheduledJobs_calls L s) (\<lambda>_. no_facts)"
    unfolding processScheduledJobs_calls_def
    by (intro holds_call [OF harmless_now] holds_call [OF rq.harmless_due])
  with ScheduledLoop show ?thesis by (simp add: no_facts_def)
next
  case RecoveryLoop
  have get: "harmless tbl ks L no_facts (GetPendingUnqueued (sc_store s) t) (\<lambda>_. no_facts) (\<lambda>_. True)" for t
    unfolding no_facts_def GetPendingUnqueued_def
    by (rule harmless_reads, intro preserves_bind reads_clock st.reads_jobs_query) (simp add: pending_unqueued_sql_def)
  have push: "harmless tbl ks L no_facts (Push (sc_queue s) q (uuid_String L i)) (\<lambda>_. no_facts) (\<lambda>_. True)" for q i
    unfolding no_facts_def by (rule rq.harmless_Push)
  show ?thesis
    unfolding RecoveryLoop tick_calls.simps recoverUnqueuedJobs_calls_def
    by (intro holds_intros holds_call [OF get] holds_call [OF push] sound_Done)
next
  case StaleCheckLoop
  have "sound tbl ks L (Map.empty, {}) (case x of Inl _ \<Rightarrow> Done ()
      | Inr js \<Rightarrow> for_calls js (\<lambda>job.
           do_call (UpdateJobError (sc_store s) (ID job) StatusFailed (RetryCount job) ''job timed out (stale)'') (\<lambda>_.
           one_call (sc_publishEvent L s ''job.stale_recovered'' job)))) (\<lambda>_. no_facts)"
    if "\<forall>js. x = Inr js \<longrightarrow> list_all (\<lambda>j. 0 \<le> RetryCount j) js" for x
    unfolding no_facts_def [symmetric]
    by (intro holds_sum sound_Done holds_for_calls, unfold no_facts_def,
        intro holds_call [OF st.harmless_error] sound_one [OF harmless_sc_publish, unfolded no_facts_def])
       (use that in \<open>auto simp: error_sound_def list_all_iff\<close>)
  then have "sound tbl ks L (Map.empty, {}) (recoverStaleJobs_calls L s) (\<lambda>_. no_facts)"
    unfolding recoverStaleJobs_calls_def by (intro holds_call [OF st.harmless_stale])
  with StaleCheckLoop show ?thesis by (simp add: no_facts_def)
qed

end

context api_services
begin

lemma harmless_api_publish: "harmless tbl ks L (K, B) (api_publishEvent L h ty j) (\<lambda>_. (K, B)) (\<lambda>_. True)"
  unfolding api_publishEvent_def by (rule harmless_preserves) (intro preserves_intros rc.knows_publish)

lemma harmless_get: "harmless tbl ks L (K, B) (GetJob (h_store h) i) (\<lambda>_. (K, B)) (\<lambda>_. True)"
  by (rule harmless_reads) (rule st.reads_GetJob)

lemma harmless_enqueue:
  "harmless tbl ks L (K, B) (case x of Some t \<Rightarrow> Schedule (h_queue h) (uuid_String L i) t | None \<Rightarrow> Push (h_queue h) q (uuid_String L i))
     (\<lambda>_. (K, B)) (\<lambda>_. True)"
  by (cases x) (simp_all add: rq.harmless_Push rq.harmless_Schedule)

lemma sound_writes:
  "sound tbl ks L (K, B) (CreateJob_calls L h r) (\<lambda>_. no_facts)"
  "sound tbl ks L (K, B) (CancelJob_calls L h r) (\<lambda>_. no_facts)"
  "sound tbl ks L (K, B) (RetryJob_calls L h r) (\<lambda>_. no_facts)"
  unfolding CreateJob_calls_def CancelJob_calls_def cancel_rest_def RetryJob_calls_def retry_rest_def
  by (intro holds_intros holds_call [OF st.harmless_CreateJob] holds_call [OF harmless_enqueue] holds_call [OF harmless_get]
        holds_call [OF st.harmless_status] holds_call [OF st.harmless_error] holds_call [OF rq.harmless_Push]
        holds_call [OF harmless_api_publish] sound_Done; simp add: error_sound_def)+

lemma reads_requests:
  "preserves (same_data tbl v) (api_GetJob L h r)" "preserves (same_data tbl v) (api_ListJobs L h r)"
  "preserves (same_data tbl v) (api_GetQueues h r)" "preserves (same_data tbl v) (api_GetQueueByName h r)"
  "preserves (same_data tbl v) (api_GetStats h r)" "preserves (same_data tbl v) (ReadyHandler b (h_store h) r)"
  "preserves (same_data tbl v) (HealthHandler r)"
  unfolding api_GetJob_def api_ListJobs_def api_GetQueues_def api_GetQueueByName_def api_GetStats_def ReadyHandler_def
    HealthHandler_def Let_def
  by (intro preserves_intros st.reads_GetJob st.reads_ListJobs st.reads_GetQueueStats st.reads_GetQueueStatsByName st.reads_ping)+

lemma harmless_delete: "harmless tbl ks L (K, B) (api_DeleteJob L h r) (\<lambda>_. (K, B)) (\<lambda>_. True)"
  unfolding api_DeleteJob_def by (rule harmless_preserves) (intro preserves_intros st.knows_DeleteJob)

lemma sound_endpoint:
  assumes "\<And>v e r. preserves (same_data tbl v) (other e r)"
  shows "sound tbl ks L (K, B) (endpoint_calls L h isLeader other e r) (\<lambda>_. no_facts)"
  by (cases e; simp only: endpoint_calls.simps endpoint_handler.simps;
      intro sound_writes sound_one [OF harmless_reads] sound_one [OF harmless_delete] reads_requests assms)

lemma sound_serve:
  assumes "\<And>v e r. preserves (same_data tbl v) (other e r)"
  shows "sound tbl ks L no_facts (serve_calls L h key isLeader other rt r) (\<lambda>_. no_facts)"
proof -
  have now: "harmless tbl ks L no_facts time_Now (\<lambda>_. no_facts) (\<lambda>t. in_int64 (Unix t))"
    unfolding no_facts_def by (rule harmless_now)
  have endp: "sound tbl ks L no_facts (endpoint_calls L h isLeader other e r) (\<lambda>_. no_facts)" for e
    using sound_endpoint [OF assms, of Map.empty "{}"] by (simp add: no_facts_def)
  show ?thesis
    unfolding serve_calls_def by (cases rt) (auto intro!: holds_call [OF now] sound_then endp sound_Done)
qed

end

section \<open>The program, call by call\<close>

text \<open>
  What can start at any time: the goroutines of \<^verbatim>\<open>main\<close>, each as its calls, with the answer of a
  request as the result.
\<close>

inductive goroutine ::
  "lib \<Rightarrow> (endpoint \<Rightarrow> ('d, 'r) http_handler) \<Rightarrow> ('c, 'd, 'r) app \<Rightarrow> (('d, 'r) world, response option) prog \<Rightarrow> bool"
  for L rest a where
  request: "rt \<in> set routes \<Longrightarrow> goroutine L rest a (map_result Some (router_calls L rest (a\<lparr>app_elector := e\<rparr>) rt r))"
| round: "goroutine L rest a (map_result (\<lambda>_. None) (worker_round_calls L (cfg (app_pool a))))"
| tick: "goroutine L rest a (map_result (\<lambda>_. None) (tick_calls L (app_sched a) l))"
| pool_stats: "goroutine L rest a (map_result (\<lambda>_. None) (one_call (collect_pool stat (app_store a))))"
| queue_depth: "goroutine L rest a (map_result (\<lambda>_. None) (one_call (collect_depth (app_queue a) main_queues)))"
| feed: "goroutine L rest a (map_result (\<lambda>_. None) (one_call (subscriber_turn (app_renderer a) input)))"
| signal: "goroutine L rest a (map_result (\<lambda>_. None) (one_call (modify (\<lambda>w. w\<lparr>cancelled := True\<rparr>))))"

context app_services
begin

lemma harmless_collect_pool: "harmless tbl ks L (K, B) (collect_pool stat st) (\<lambda>_. (K, B)) (\<lambda>_. True)"
  unfolding collect_pool_def Let_def
  by (rule harmless_preserves, intro preserves_bind knows_metric) (simp_all add: call_ok_def)

lemma knows_length: "preserves (knows tbl ks L n K B) (QueueLength rq q)"
proof (rule validI)
  fix w x w'
  assume k: "knows tbl ks L n K B w" and r: "run_state (QueueLength rq q) w = (x, w')"
  obtain r' where "w' = w\<lparr>rds := r'\<rparr>" "ks r' = ks (rds w)"
    using r redis.llen_ks [OF rc_redis] by (auto simp: QueueLength_def run_rds_call split: prod.splits)
  with k show "knows tbl ks L n K B w'" by (simp add: knows_def metrics_ok_def sane_clock_def)
qed

lemma harmless_collect_depth: "harmless tbl ks L (K, B) (collect_depth rq qs) (\<lambda>_. (K, B)) (\<lambda>_. True)"
  unfolding collect_depth_def
  by (rule harmless_preserves, intro preserves_intros knows_length knows_metric) (simp_all add: call_ok_def)

lemma harmless_signal: "harmless tbl ks L (K, B) (modify (\<lambda>w. w\<lparr>cancelled := True\<rparr>)) (\<lambda>_. (K, B)) (\<lambda>_. True)"
  by (rule harmless_preserves, rule preserves_modify) (simp add: knows_def metrics_ok_def sane_clock_def)

lemma sound_turns:
  "sound tbl ks L no_facts (one_call (collect_pool stat (app_store a))) (\<lambda>_. no_facts)"
  "sound tbl ks L no_facts (one_call (collect_depth (app_queue a) qs)) (\<lambda>_. no_facts)"
  "sound tbl ks L no_facts (one_call (subscriber_turn (app_renderer a) input)) (\<lambda>_. no_facts)"
  "sound tbl ks L no_facts (one_call (modify (\<lambda>w. w\<lparr>cancelled := True\<rparr>))) (\<lambda>_. no_facts)"
  using harmless_collect_pool harmless_collect_depth harmless_reads [OF reads_feed] harmless_signal
  by (auto simp: app_parts no_facts_def intro!: sound_one [unfolded no_facts_def])

lemma sound_goroutine: "goroutine L rest a p \<Longrightarrow> sound tbl ks L no_facts p (\<lambda>_. no_facts)"
proof (induction rule: goroutine.induct)
  case (request rt e r)
  have "sound tbl ks L no_facts (router_calls L rest (a\<lparr>app_elector := e\<rparr>) rt r) (\<lambda>_. no_facts)"
    unfolding router_calls_def by (simp add: app_parts) (intro api_services.sound_serve [OF app_api] reads_endpoint)
  then show ?case by (rule holds_map_result)
next
  case round
  show ?case by (intro holds_map_result worker_services.sound_round [OF app_worker] app_parts)
next
  case (tick l)
  show ?case by (intro holds_map_result scheduler_services.sound_tick [OF app_scheduler])
qed (intro holds_map_result sound_turns)+

end

text \<open>So the program is one more instance of the argument for goroutines over a shared state.\<close>

sublocale app_services \<subseteq> calls: shared "told tbl ks L" "no_reuse tbl" "note_ids tbl" "goroutine L rest a" no_facts
  by unfold_locales (rule sound_goroutine)

interpretation memgo: shared "told m_tbl r_ks canon_lib" "no_reuse m_tbl" "note_ids m_tbl"
  "goroutine canon_lib demo_rest demo_app" no_facts
  by unfold_locales (rule memsys.sound_goroutine)

definition at_start :: "('d \<Rightarrow> table) \<Rightarrow> ('d, 'r) world \<Rightarrow> (id_book, ('d, 'r) world, 'a) goroutines" where
  "at_start tbl w = \<lparr>progs = [], seen = note_ids tbl Map.empty w, shared_state = w\<rparr>"

lemma told_start:
  assumes "sys_ok tbl ks L n w"
  shows "told tbl ks L no_facts (note_ids tbl Map.empty w) w"
  by (rule told_noted [of _ _ _ n]) (use assms in \<open>simp_all add: no_facts_def knows_none\<close>)

text \<open>C3.
  The invariant of the stored data holds at every point of every interleaving of single calls.
  Start from sound data and let any number of requests, rounds of workers, ticks, collectors and
  dashboard turns run at the same time, each call of one of them between any calls of the others,
  whichever calls fail.  As long as no new job gets an identifier that was used before, the table
  satisfies the schema, every job is sound as in \<open>system_invariant\<close> (a retrying job has used
  some of its retries and not all, a dead one all, a completed one has a start and a completion),
  every entry of a queue or the schedule is an identifier, and every metric call is well-formed.
\<close>

theorem interleaved_invariant:
  assumes "storage st tbl env up" "redis_queue rq ks pub rup" "uuid_codec L"
    and "a = main_app tmpl zone roll conf st rq" "\<forall>v e r. preserves (same_data tbl v) (rest e r)"
    and "sys_ok tbl ks L n w"
    and "(go_step (goroutine L rest a) (no_reuse tbl) (note_ids tbl))\<^sup>*\<^sup>* (at_start tbl w) c"
  shows "\<exists>m. sys_ok tbl ks L m (shared_state c)"
proof -
  have "app_services st tbl env up rq ks pub rup L a rest"
    using assms(1-5) by (intro app_services.intro app_services_axioms.intro) blast+
  then have "shared (told tbl ks L) (no_reuse tbl) (note_ids tbl) (goroutine L rest a) no_facts"
    by (intro shared.intro app_services.sound_goroutine)
  from shared.always_known [OF this assms(7)] told_start [OF assms(6)] show ?thesis
    by (simp add: at_start_def told_sys_ok)
qed

text \<open>A worker and a tick that have each made their first call.\<close>

lemma two_started:
  fixes w :: "(pgmem, rmem) world"
  defines "steps \<equiv> go_step (goroutine canon_lib demo_rest demo_app) (no_reuse m_tbl) (note_ids m_tbl)"
  shows "\<exists>c. steps\<^sup>*\<^sup>* (at_start m_tbl w) c \<and> length (progs c) = 2 \<and> shared_state c = w\<lparr>ticks := Suc (ticks w)\<rparr>"
proof -
  let ?p = "map_result (\<lambda>_. None) (worker_round_calls canon_lib (cfg (app_pool demo_app)))"
  let ?q = "map_result (\<lambda>_. None) (tick_calls canon_lib (app_sched demo_app) ScheduledLoop)"
  let ?c0 = "at_start m_tbl w" and ?c1 = "at_start m_tbl w\<lparr>progs := [?p]\<rparr>"
  let ?c2 = "at_start m_tbl w\<lparr>progs := [?p, ?q]\<rparr>"
  have "goroutine canon_lib demo_rest demo_app ?p" "goroutine canon_lib demo_rest demo_app ?q"
    by (rule goroutine.round goroutine.tick)+
  then have "steps ?c0 ?c1" "steps ?c1 ?c2"
    unfolding steps_def
    using go_step.start [where starts = "goroutine canon_lib demo_rest demo_app" and p = ?p and c = ?c0]
      go_step.start [where starts = "goroutine canon_lib demo_rest demo_app" and p = ?q and c = ?c1]
    by (simp_all add: at_start_def)
  moreover obtain c3 where c3: "steps ?c2 c3" "length (progs c3) = 2" "progs c3 ! 0 = ?p" "shared_state c3 = w\<lparr>ticks := Suc (ticks w)\<rparr>"
    using go_call [where i = 1 and c = ?c2 and m = time_Now and h = "\<lambda>_. None" and legal = "no_reuse m_tbl"
        and starts = "goroutine canon_lib demo_rest demo_app" and note_seen = "note_ids m_tbl"]
    unfolding steps_def
    by (force simp: at_start_def processScheduledJobs_calls_def exec_def run_time_Now no_reuse_def)
  moreover obtain c4 where "steps c3 c4" "length (progs c4) = 2" "shared_state c4 = w\<lparr>ticks := Suc (ticks w)\<rparr>"
    using go_call [where i = 0 and c = c3 and m = "gets cancelled" and h = "\<lambda>_. None" and legal = "no_reuse m_tbl"
        and starts = "goroutine canon_lib demo_rest demo_app" and note_seen = "note_ids m_tbl"] c3
    unfolding steps_def
    by (force simp: worker_round_calls_def no_reuse_def)
  ultimately show ?thesis by (meson rtranclp.rtrancl_into_rtrancl rtranclp.rtrancl_refl)
qed

theorem interleaved_invariant_witness:
  "\<exists>c. (go_step (goroutine canon_lib demo_rest demo_app) (no_reuse m_tbl) (note_ids m_tbl))\<^sup>*\<^sup>* (at_start m_tbl faulty_world) c \<and>
       length (progs c) = 2 \<and> (\<exists>m. sys_ok m_tbl r_ks canon_lib m (shared_state c))"
proof -
  obtain c where c: "(go_step (goroutine canon_lib demo_rest demo_app) (no_reuse m_tbl) (note_ids m_tbl))\<^sup>*\<^sup>* (at_start m_tbl faulty_world) c"
    "length (progs c) = 2" using two_started by blast
  from interleaved_invariant [OF memst.storage_axioms memq.redis_queue_axioms canon.uuid_codec_axioms demo_app_def _ faulty_sound c(1)]
    memsys.rest_reads c show ?thesis by blast
qed

end
