(* ===== verification/Races.thy ===== *)
theory Races
  imports Concurrent ApiProperties
begin

text \<open>
  Where the calls of two goroutines on the same job interleave badly.  A check and the change it
  guards are two calls, and so are the push of an entry and the change of the status that goes
  with it; each property here stops one goroutine between such calls (\<open>after_calls\<close>), lets another
  run, and then lets the first one finish (\<open>alone\<close>).  Both servers answer throughout.
\<close>

section \<open>A worker takes one job\<close>

lemma take_first_only:
  assumes "\<forall>q\<in>set qs. f q = []" "n \<in> set qs"
  shows "take_first qs (f(n := [v])) = Some (v, f(n := []))"
  using assms by (induction qs) (auto simp: fun_upd_def)

lemma round_completes:
  assumes "worker_services p tbl env up ks pub rup L" "services_up (\<lambda>d. schema_ok (tbl d)) up ks rup w" "\<not> cancelled w"
    and "take_first (queues p) (waiting (ks (rds w))) = Some (uuid_String L i, g)" "look (table_jobs (tbl (db w))) i = Some j"
    and "Registry_Get (registry p) (Type j) = Some f" "tame f" "\<forall>d v. fst (run_state (f d (Payload j)) v) = None"
  obtains w' n u n' u' where "run_state (worker_round L p) w = (True, w')" "waiting (ks (rds w')) = g"
    "services_up (\<lambda>d. schema_ok (tbl d)) up ks rup w'" "sched (ks (rds w')) = sched (ks (rds w))"
    "table_jobs (tbl (db w')) = upd_job i (set_status StatusCompleted n' u')
       (upd_job i (set_status StatusRunning n u) (table_jobs (tbl (db w))))"
proof -
  note wk = worker_services.as_worker_env [OF assms(1)]
  have codec: "uuid_codec L" using assms(1) by (simp add: worker_services_def)
  have id: "uuid_Parse L (uuid_String L i) = Some i" "uuid_String L i \<noteq> []"
    using uuid_codec.parse_string [OF codec] uuid_codec.string_nonempty [OF codec] by blast+
  obtain v where v: "run_state (worker_round L p) w = (True, exec (processJob L p (uuid_String L i)) v)"
    "services_up (\<lambda>d. schema_ok (tbl d)) up ks rup v" "db v = db w" "waiting (ks (rds v)) = g"
    "sched (ks (rds v)) = sched (ks (rds w))"
    using worker_env.round_takes [OF wk assms(2,3)] assms(4) id(2) by (auto split: option.splits)
  have h: "handlers (registry p) (Type j) = Some f" using assms(6) by (simp add: Registry_Get_def)
  have "look (table_jobs (tbl (db v))) i = Some j" using assms(5) v(3) by simp
  then obtain w' n u n' u' where "run_state (processJob L p (uuid_String L i)) v = ((), w')"
    "table_jobs (tbl (db w')) = upd_job i (set_status StatusCompleted n' u')
       (upd_job i (set_status StatusRunning n u) (table_jobs (tbl (db v))))" "ks (rds w') = ks (rds v)"
    "services_up (\<lambda>d. schema_ok (tbl d)) up ks rup w'"
    by (rule worker_env.processJob_success [OF wk v(2) id(1) _ h assms(7) assms(8) [rule_format]])
  with v show thesis by (intro that [of w' n' u' n u]) (simp_all add: exec_def)
qed

section \<open>A tick interrupted by a worker\<close>

context scheduler_env
begin

text \<open>The scheduled tick with one due entry, up to the push and from there.\<close>

lemma tick_until_push:
  assumes "serving w" "due_members (f64_int (Unix (clk w (ticks w)))) (ks (rds w)) = [uuid_String L i]"
    and "look (jobs (db w)) i = Some j" "Status j = StatusRetrying"
  obtains w1 where
    "after_calls 4 (tick_calls L s ScheduledLoop) w =
       (do_call (UpdateJobStatus (sc_store s) i StatusPending) (\<lambda>_.
        do_call (sc_publishEvent L s ''job.enqueued'' j) Done), w1)"
    "serving w1" "jobs (db w1) = jobs (db w)" "cancelled w1 = cancelled w"
    "waiting (ks (rds w1)) = (waiting (ks (rds w)))(Queue j := waiting (ks (rds w)) (Queue j) @ [uuid_String L i])"
    "sched (ks (rds w1)) (uuid_String L i) = None"
proof -
  let ?w = "w\<lparr>ticks := Suc (ticks w)\<rparr>" and ?now = "clk w (ticks w)" and ?sid = "uuid_String L i"
  have ko: "qlive (rds ?w)" "ks_ok (ks (rds ?w))" "in_int64 (Unix ?now)"
    using assms(1) year_ok_Unix by (simp_all add: serving_def sane_clock_def)
  then obtain r' where r: "run_state (GetDueJobs (sc_queue s) ?now) ?w = (Inr [?sid], ?w\<lparr>rds := r'\<rparr>)" "qlive r'"
    "waiting (ks r') = waiting (ks (rds w))" "ks_ok (ks r')"
    "sched (ks r') = (\<lambda>m. case sched (ks (rds w)) m of None \<Rightarrow> None
                          | Some t \<Rightarrow> if t \<le> f64_int (Unix ?now) then None else Some t)"
    using Q.due_exact [of ?w ?now] assms(2) by auto
  let ?v = "?w\<lparr>rds := r'\<rparr>"
  have up: "ok (db ?v)" "live (db ?v)" using assms(1) by (simp_all add: serving_def)
  have "look (jobs (db ?v)) i = Some j" using assms(3) by simp
  from S.get_exact [OF up this] obtain d' where g: "run_state (GetJob (sc_store s) i) ?v = (Inr j, ?v\<lparr>db := d'\<rparr>)"
    "ok d'" "live d'" "jobs d' = jobs (db w)" by auto
  let ?u = "?v\<lparr>db := d'\<rparr>"
  have "serving ?u" using g r assms(1) by (simp add: serving_def)
  then obtain r2 where p: "run_state (Push (sc_queue s) (Queue j) ?sid) ?u = (None, ?u\<lparr>rds := r2\<rparr>)" "serving (?u\<lparr>rds := r2\<rparr>)"
    "waiting (ks r2) = (waiting (ks r'))(Queue j := waiting (ks r') (Queue j) @ [?sid])" "sched (ks r2) = sched (ks r')"
    using Q.push_exact [of ?u "Queue j" ?sid] unfolding serving_def by auto
  have "set (due_members (f64_int (Unix ?now)) (ks (rds w))) = {m. \<exists>t. sched (ks (rds w)) m = Some t \<and> t \<le> f64_int (Unix ?now)}"
    using set_due_members ko(2) by simp
  with assms(2) have "?sid \<in> {m. \<exists>t. sched (ks (rds w)) m = Some t \<and> t \<le> f64_int (Unix ?now)}"
    by (metis list.set_intros(1))
  then have gone: "sched (ks r2) ?sid = None" unfolding p(4) r(5) by auto
  have parse: "uuid_Parse L ?sid = Some i" by (rule parse_string)
  have ID: "ID j = i" using assms(3) by (rule look_ID)
  have four: "after_calls 4 q v = after_calls (Suc (Suc (Suc (Suc 0)))) q v" for q :: "(('d, 'r) world, unit) prog" and v
    by (simp add: numeral_eq_Suc)
  have "after_calls 4 (tick_calls L s ScheduledLoop) w =
      (do_call (UpdateJobStatus (sc_store s) i StatusPending) (\<lambda>_. do_call (sc_publishEvent L s ''job.enqueued'' j) Done), ?u\<lparr>rds := r2\<rparr>)"
    unfolding four using r(1) g(1) p(1) parse assms(4) ID
    by (simp add: processScheduledJobs_calls_def enqueue_due_calls_def one_call_def exec_def run_time_Now)
  then show thesis using g p(2,3) r(3) gone by (intro that [of "?u\<lparr>rds := r2\<rparr>"]) simp_all
qed

lemma tick_after_push:
  assumes "serving w"
  obtains w' n u where
    "run_state (alone (do_call (UpdateJobStatus (sc_store s) i StatusPending) (\<lambda>_.
        do_call (sc_publishEvent L s ''job.enqueued'' j) Done))) w = ((), w')"
    "jobs (db w') = upd_job i (set_status StatusPending n u) (jobs (db w))" "ks (rds w') = ks (rds w)"
proof -
  obtain d' n u where 1: "run_state (UpdateJobStatus (sc_store s) i StatusPending) w = (None, w\<lparr>ticks := Suc (ticks w), db := d'\<rparr>)"
    "ok d'" "live d'" "jobs d' = upd_job i (set_status StatusPending n u) (jobs (db w))"
    using S.status_exact [of w StatusPending] assms unfolding serving_def by (metis status_texts(1,9))
  let ?w = "w\<lparr>ticks := Suc (ticks w), db := d'\<rparr>"
  have "serving ?w" using 1 assms by (simp add: serving_def)
  then obtain w' t where "run_state (sc_publishEvent L s ''job.enqueued'' j) ?w = ((), w')" "db w' = db ?w" "ks (rds w') = ks (rds ?w)"
    by (rule publish_serving)
  with 1 show thesis by (intro that [of w' n u]) simp_all
qed

end



section \<open>Requests interrupted\<close>

context api_services
begin

lemma get_first:
  assumes "serving w" "look (jobs w) i = Some j"
  obtains w1 where "run_state (GetJob (h_store h) i) w = (Inr j, w1)" "serving w1" "rds w1 = rds w" "jobs w1 = jobs w"
    "cancelled w1 = cancelled w"
proof -
  obtain e w1 where 1: "run_state (GetJob (h_store h) i) w = (case look (jobs w) i of Some j \<Rightarrow> Inr j | None \<Rightarrow> Inl e, w1)"
    "serving w1" "rds w1 = rds w" "jobs w1 = jobs w" using assms(1) by (rule get_serving)
  moreover from 1(1) have "cancelled w1 = cancelled w"
    by (auto simp: GetJob_def run_db_call split: prod.splits)
  ultimately show thesis using that assms(2) by simp
qed

lemma cancel_rest_serving:
  assumes "serving w"
  obtains w' n u where "run_state (alone (cancel_rest L h i j)) w = (writeJSON 200 (Some (status_only ''cancelled'')), w')"
    "jobs w' = upd_job i (set_status StatusCancelled n u) (jobs w)"
proof -
  obtain w2 n u where 2: "run_state (UpdateJobStatus (h_store h) i StatusCancelled) w = (None, w2)" "serving w2"
    "rds w2 = rds w" "jobs w2 = upd_job i (set_status StatusCancelled n u) (jobs w)"
    using assms status_texts(7,15) by (rule status_serving)
  obtain w3 t where 3: "run_state (api_publishEvent L h ''job.cancelled'' j) w2 = ((), w3)" "db w3 = db w2"
    using 2(2) by (rule publish_serving)
  from 2 3 show thesis by (intro that [of w3 n u]) (simp_all add: cancel_rest_def)
qed

lemma retry_rest_serving:
  assumes "serving w"
  obtains w' u where "run_state (alone (retry_rest L h i j)) w = (writeJSON 200 (Some (status_only ''retrying'')), w')"
    "waiting (ks (rds w')) = (waiting (ks (rds w)))(Queue j := waiting (ks (rds w)) (Queue j) @ [uuid_String L i])"
    "jobs w' = upd_job i (set_error StatusPending 0 [] u) (jobs w)"
proof -
  have "in_int4 0" by (simp add: in_int4_def)
  then obtain w2 u where 2: "run_state (UpdateJobError (h_store h) i StatusPending 0 []) w = (None, w2)" "serving w2"
    "rds w2 = rds w" "jobs w2 = upd_job i (set_error StatusPending 0 [] u) (jobs w)"
    using error_serving [OF assms status_texts(1) _ status_texts(9) text_ok_Nil, of 0 i] by blast
  obtain w3 where 3: "run_state (Push (h_queue h) (Queue j) (uuid_String L i)) w2 = (None, w3)" "serving w3" "db w3 = db w2"
    "waiting (ks (rds w3)) = (waiting (ks (rds w2)))(Queue j := waiting (ks (rds w2)) (Queue j) @ [uuid_String L i])"
    using 2(2) by (rule push_serving)
  obtain w4 t where 4: "run_state (api_publishEvent L h ''job.retried'' j) w3 = ((), w4)" "db w4 = db w3" "ks (rds w4) = ks (rds w3)"
    using 3(2) by (rule publish_serving)
  from 2 3 4 show thesis by (intro that [of w4 u]) (simp_all add: retry_rest_def)
qed

end

text \<open>C36.
  A completed job is stored as cancelled.  The cancellation reads the status and stores the new one
  in two calls.  If a worker takes the pending job between them and completes it, the request is
  answered with 200 and the job ends as cancelled, although its handler succeeded and it has a
  completion time; alone, the request for a completed job is refused.
\<close>

theorem cancel_undoes_completion:
  assumes "api_services h tbl env up ks pub rup L" "worker_services p tbl env up ks pub rup L"
    and "services_up (\<lambda>d. schema_ok (tbl d)) up ks rup w" "uuid_Parse L (URLParam r ''id'') = Some i"
    and "look (table_jobs (tbl (db w))) i = Some j" "Status j = StatusPending" "\<not> cancelled w"
    and "take_first (queues p) (waiting (ks (rds w))) = Some (uuid_String L i, g)"
    and "Registry_Get (registry p) (Type j) = Some f" "tame f" "\<forall>d v. fst (run_state (f d (Payload j)) v) = None"
  shows "\<exists>req w1 w2 w3 x j'. after_calls 1 (CancelJob_calls L h r) w = (req, w1) \<and>
           run_state (worker_round L p) w1 = (True, w2) \<and>
           map_option Status (look (table_jobs (tbl (db w2))) i) = Some StatusCompleted \<and>
           run_state (alone req) w2 = (writeJSON 200 x, w3) \<and>
           look (table_jobs (tbl (db w3))) i = Some j' \<and> Status j' = StatusCancelled \<and> CompletedAt j' \<noteq> None"
proof -
  obtain w1 where 1: "run_state (GetJob (h_store h) i) w = (Inr j, w1)" "services_up (\<lambda>d. schema_ok (tbl d)) up ks rup w1"
    "rds w1 = rds w" "table_jobs (tbl (db w1)) = table_jobs (tbl (db w))" "cancelled w1 = cancelled w"
    using assms(3,5) by (rule api_services.get_first [OF assms(1)])
  have "CanTransitionTo (Status j) StatusCancelled" using assms(6) by (simp add: CanTransitionTo_cancel)
  then have req: "after_calls 1 (CancelJob_calls L h r) w = (cancel_rest L h i j, w1)"
    using 1(1) assms(4) unfolding One_nat_def by (simp add: CancelJob_calls_def exec_def)
  have run: "\<not> cancelled w1" "take_first (queues p) (waiting (ks (rds w1))) = Some (uuid_String L i, g)"
    "look (table_jobs (tbl (db w1))) i = Some j" using 1 assms(5,7,8) by simp_all
  obtain w2 n u n' u' where 2: "run_state (worker_round L p) w1 = (True, w2)" "waiting (ks (rds w2)) = g"
    "services_up (\<lambda>d. schema_ok (tbl d)) up ks rup w2" "sched (ks (rds w2)) = sched (ks (rds w1))"
    "table_jobs (tbl (db w2)) = upd_job i (set_status StatusCompleted n' u') (upd_job i (set_status StatusRunning n u) (table_jobs (tbl (db w1))))"
    by (rule round_completes [OF assms(2) 1(2) run assms(9-11)])
  obtain w3 m v where 3: "run_state (alone (cancel_rest L h i j)) w2 = (writeJSON 200 (Some (status_only ''cancelled'')), w3)"
    "table_jobs (tbl (db w3)) = upd_job i (set_status StatusCancelled m v) (table_jobs (tbl (db w2)))"
    using 2(3) by (rule api_services.cancel_rest_serving [OF assms(1)])
  have "look (table_jobs (tbl (db w2))) i = Some (set_status StatusCompleted n' u' (set_status StatusRunning n u j))"
    using run(3) unfolding 2(5) by simp
  then show ?thesis
    using req 2(1) 3
    by (intro exI [of _ "cancel_rest L h i j"] exI [of _ w1] exI [of _ w2] exI [of _ w3]) (auto simp: set_status_def status_facts)
qed

theorem cancel_undoes_completion_witness:
  "\<exists>req w1 w2 w3 x j'. after_calls 1 (CancelJob_calls canon_lib demo_api (job_request 1)) api_world = (req, w1) \<and>
     run_state (worker_round canon_lib demo_pool) w1 = (True, w2) \<and>
     map_option Status (look (table_jobs (m_tbl (db w2))) 1) = Some StatusCompleted \<and>
     run_state (alone req) w2 = (writeJSON 200 x, w3) \<and>
     look (table_jobs (m_tbl (db w3))) 1 = Some j' \<and> Status j' = StatusCancelled \<and> CompletedAt j' \<noteq> None"
proof -
  have "\<not> cancelled api_world" by (simp add: api_world_def demo_world_def)
  then show ?thesis
    using cancel_undoes_completion [OF mema.api_services_axioms memw.worker_services_axioms api_world_up,
        of "job_request 1" 1 "demo_job 1 ''good'' 0" "(waiting demo_ks)(''default'' := [canon_String 2])" ok_handler]
    by (simp add: ok_handler_def demo_waiting)
qed

text \<open>
  Two requests to retry a dead job can both succeed.  The second comes after the first has read the
  job and before it has changed it: both are answered with 200 and the job has two entries in its
  queue, so that it will be processed twice.  One after the other, the second would be refused.
\<close>

lemma two_retries_both_push:
  assumes "api_services h tbl env up ks pub rup L" "services_up (\<lambda>d. schema_ok (tbl d)) up ks rup w"
    and "uuid_Parse L (URLParam r ''id'') = Some i" "uuid_Parse L (URLParam r' ''id'') = Some i"
    and "look (table_jobs (tbl (db w))) i = Some j" "Status j = StatusDead"
  shows "\<exists>req w1 w2 w3 x y. after_calls 1 (RetryJob_calls L h r) w = (req, w1) \<and>
           run_state (api_RetryJob L h r') w1 = (writeJSON 200 x, w2) \<and>
           run_state (alone req) w2 = (writeJSON 200 y, w3) \<and>
           waiting (ks (rds w3)) (Queue j) = waiting (ks (rds w)) (Queue j) @ [uuid_String L i, uuid_String L i] \<and>
           map_option Status (look (table_jobs (tbl (db w3))) i) = Some StatusPending"
proof -
  obtain w1 where 1: "run_state (GetJob (h_store h) i) w = (Inr j, w1)" "services_up (\<lambda>d. schema_ok (tbl d)) up ks rup w1"
    "rds w1 = rds w" "table_jobs (tbl (db w1)) = table_jobs (tbl (db w))"
    using assms(2,5) by (rule api_services.get_first [OF assms(1)])
  have req: "after_calls 1 (RetryJob_calls L h r) w = (retry_rest L h i j, w1)"
    using 1(1) assms(3,6) unfolding One_nat_def by (simp add: RetryJob_calls_def exec_def)
  obtain w2 u where 2: "run_state (api_RetryJob L h r') w1 = (writeJSON 200 (Some (status_only ''retrying'')), w2)"
    "services_up (\<lambda>d. schema_ok (tbl d)) up ks rup w2"
    "table_jobs (tbl (db w2)) = upd_job i (set_error StatusPending 0 [] u) (table_jobs (tbl (db w1)))"
    "waiting (ks (rds w2)) = (waiting (ks (rds w1)))(Queue j := waiting (ks (rds w1)) (Queue j) @ [uuid_String L i])"
    using api_services.api_RetryJob_serving [OF assms(1) 1(2) assms(4)] assms(5,6) 1(4) by auto
  obtain w3 v where 3: "run_state (alone (retry_rest L h i j)) w2 = (writeJSON 200 (Some (status_only ''retrying'')), w3)"
    "waiting (ks (rds w3)) = (waiting (ks (rds w2)))(Queue j := waiting (ks (rds w2)) (Queue j) @ [uuid_String L i])"
    "table_jobs (tbl (db w3)) = upd_job i (set_error StatusPending 0 [] v) (table_jobs (tbl (db w2)))"
    using 2(2) by (rule api_services.retry_rest_serving [OF assms(1)])
  have "waiting (ks (rds w3)) (Queue j) = waiting (ks (rds w)) (Queue j) @ [uuid_String L i, uuid_String L i]"
    using 3(2) 2(4) 1(3) by simp
  moreover have "map_option Status (look (table_jobs (tbl (db w3))) i) = Some StatusPending"
    using assms(5) 1(4) unfolding 3(3) 2(3) by (simp add: set_error_def)
  ultimately show ?thesis using req 2(1) 3(1) by blast
qed

lemma two_retries_both_push_witness:
  "\<exists>req w1 w2 w3 x y. after_calls 1 (RetryJob_calls canon_lib demo_api (job_request 2)) api_world = (req, w1) \<and>
     run_state (api_RetryJob canon_lib demo_api (job_request 2)) w1 = (writeJSON 200 x, w2) \<and>
     run_state (alone req) w2 = (writeJSON 200 y, w3) \<and>
     waiting (r_ks (rds w3)) ''default'' =
       waiting (r_ks (rds api_world)) ''default'' @ [canon_String 2, canon_String 2] \<and>
     map_option Status (look (table_jobs (m_tbl (db w3))) 2) = Some StatusPending"
  using two_retries_both_push [OF mema.api_services_axioms api_world_up, of "job_request 2" 2 "job_request 2"
      "(demo_job 2 ''bad'' 3)\<lparr>Status := StatusDead\<rparr>"]
  by (simp add: look_def api_jobs_def demo_job_def)

end
