(* ===== verification/Refinement.thy ===== *)
theory Refinement
  imports StoreQueries RedisQueue WorkerPool
begin

text \<open>
  What the two stores promise, as abstract machines, and that the code refines them.
  \<^item> \<^verbatim>\<open>src/internal/storage/postgres.go\<close> refines a list of jobs with a non-deterministic
    specification of each method (\<open>store_spec\<close>): an error may be reported before or after the
    effect, an effect is all or nothing.  The simulation holds whatever the server does.
  \<^item> \<^verbatim>\<open>src/internal/queue/redis.go\<close> refines a family of first-in-first-out lists
    (\<open>fifo_do\<close>) exactly, while Redis answers.
\<close>

section \<open>The jobs\<close>

datatype store_op =
    OCreate Job
  | OGet uuid
  | OStatus uuid JobStatus
  | OError uuid JobStatus int string
  | ODelete uuid

datatype store_res = RJob "Job result" | RDone "string option"

fun store_do :: "'d PostgresStorage \<Rightarrow> store_op \<Rightarrow> (('d, 'r) world, store_res) state" where
  "store_do s (OCreate job) = do { x \<leftarrow> CreateJob s job; ret (RJob x) }"
| "store_do s (OGet i) = do { x \<leftarrow> GetJob s i; ret (RJob x) }"
| "store_do s (OStatus i st) = do { x \<leftarrow> UpdateJobStatus s i st; ret (RDone x) }"
| "store_do s (OError i st rc e) = do { x \<leftarrow> UpdateJobError s i st rc e; ret (RDone x) }"
| "store_do s (ODelete i) = do { x \<leftarrow> DeleteJob s i; ret (RDone x) }"

primrec store_run :: "'d PostgresStorage \<Rightarrow> store_op list \<Rightarrow> (('d, 'r) world, store_res list) state" where
  "store_run s [] = ret []"
| "store_run s (c # cs) = do { x \<leftarrow> store_do s c; xs \<leftarrow> store_run s cs; ret (x # xs) }"

text \<open>The job a request asks for: what the server fills in is the identifier and the times.\<close>

definition created_from :: "Job \<Rightarrow> Job \<Rightarrow> bool" where
  "created_from job j \<longleftrightarrow>
     Queue j = Queue job \<and> Type j = Type job \<and> Status j = Status job \<and> MaxRetries j = MaxRetries job \<and>
     RetryCount j = RetryCount job \<and> (RunAt j = None) = (RunAt job = None) \<and> StartedAt j = None \<and>
     CompletedAt j = None \<and> Error j = []"

inductive store_spec :: "store_op \<Rightarrow> Job list \<Rightarrow> store_res \<Rightarrow> Job list \<Rightarrow> bool" where
  create: "created_from job j \<Longrightarrow> ID j \<notin> ID ` set js \<Longrightarrow> x = Inr j \<or> x = Inl e \<Longrightarrow>
             store_spec (OCreate job) js (RJob x) (js @ [j])"
| create_err: "store_spec (OCreate job) js (RJob (Inl e)) js"
| get: "look js i = Some j \<Longrightarrow> store_spec (OGet i) js (RJob (Inr j)) js"
| get_err: "store_spec (OGet i) js (RJob (Inl e)) js"
| status: "store_spec (OStatus i st) js (RDone y) (upd_job i (set_status st n u) js)"
| status_err: "store_spec (OStatus i st) js (RDone (Some e)) js"
| err: "store_spec (OError i st rc msg) js (RDone y) (upd_job i (set_error st rc msg u) js)"
| err_err: "store_spec (OError i st rc msg) js (RDone (Some e)) js"
| delete: "look js i = Some j \<Longrightarrow> Status j = StatusDead \<Longrightarrow>
             store_spec (ODelete i) js (RDone y) (filter (\<lambda>j. ID j \<noteq> i) js)"
| delete_err: "store_spec (ODelete i) js (RDone (Some e)) js"

inductive spec_run :: "store_op list \<Rightarrow> Job list \<Rightarrow> store_res list \<Rightarrow> Job list \<Rightarrow> bool" where
  nil: "spec_run [] js [] js"
| call: "store_spec c js x js1 \<Longrightarrow> spec_run cs js1 xs js2 \<Longrightarrow> spec_run (c # cs) js (x # xs) js2"

lemma created_from_new_job: "created_from job (new_job env p job)"
  by (simp add: created_from_def new_job_def)

text \<open>Under distinct identifiers, taking out the dead job \<open>i\<close> is taking out job \<open>i\<close>, or nothing.\<close>

lemma drop_dead:
  assumes "jobs_ok js"
  shows "filter (\<lambda>j. \<not> (ID j = i \<and> Status j = StatusDead)) js =
           (if \<exists>j. look js i = Some j \<and> Status j = StatusDead then filter (\<lambda>j. ID j \<noteq> i) js else js)"
proof -
  have look: "look js (ID j) = Some j" if "j \<in> set js" for j
    using assms that by (auto simp: look_Some_iff jobs_ok_def)
  show ?thesis
    using look by (auto intro!: filter_cong simp: filter_id_conv)
qed

lemma store_do_frame:
  assumes "run_state (store_do s c) w = (x, w')"
  shows "rds w' = rds w" "met w' = met w"
  using assms
  by (cases c; auto simp: CreateJob_def GetJob_def UpdateJobStatus_def UpdateJobError_def DeleteJob_def run_db_call
        time_Now_def Let_def split: prod.splits)+

context storage
begin

text \<open>One call is one step of the specification.\<close>

lemma store_do_refines:
  assumes "ok (db w)" "run_state (store_do s c) w = (x, w')"
  shows "store_spec c (jobs (db w)) x (jobs (db w'))" "ok (db w')"
proof -
  have "store_spec c (jobs (db w)) x (jobs (db w')) \<and> ok (db w')"
  proof (cases c)
    case (OCreate job)
    with assms(2) obtain y where y: "run_state (CreateJob s job) w = (y, w')" "x = RJob y"
      by (auto split: prod.splits)
    note r = CreateJob_run [OF assms(1) y(1)]
    then have fresh: "jobs (db w') = jobs (db w) @ [j] \<Longrightarrow> ID j \<notin> ID ` set (jobs (db w))" for j
      using ok_jobs_ok [of "db w'"] by (auto simp: jobs_ok_def)
    have "store_spec c (jobs (db w)) x (jobs (db w'))"
    proof (cases y)
      case (Inl e)
      with r fresh show ?thesis unfolding OCreate y(2)
        by (metis created_from_new_job create create_err)
    next
      case (Inr j)
      with r fresh show ?thesis unfolding OCreate y(2)
        by (metis created_from_new_job create)
    qed
    with r show ?thesis by auto
  next
    case (OGet i)
    with assms(2) obtain y where y: "run_state (GetJob s i) w = (y, w')" "x = RJob y" by (auto split: prod.splits)
    with GetJob_run [OF assms(1) y(1)] OGet show ?thesis by (cases y) (auto intro: get get_err)
  next
    case (OStatus i st)
    with assms(2) obtain y where y: "run_state (UpdateJobStatus s i st) w = (y, w')" "x = RDone y" by (auto split: prod.splits)
    with UpdateJobStatus_run [OF assms(1) y(1)] OStatus show ?thesis by (cases y) (auto intro: status status_err)
  next
    case (OError i st rc e)
    with assms(2) obtain y where y: "run_state (UpdateJobError s i st rc e) w = (y, w')" "x = RDone y" by (auto split: prod.splits)
    with UpdateJobError_run [OF assms(1) y(1)] OError show ?thesis by (cases y) (auto intro: err err_err)
  next
    case (ODelete i)
    with assms(2) obtain y where y: "run_state (DeleteJob s i) w = (y, w')" "x = RDone y" by (auto split: prod.splits)
    note r = DeleteJob_run [OF assms(1) y(1), unfolded drop_dead [OF ok_jobs_ok [OF assms(1)]]]
    have "store_spec c (jobs (db w)) x (jobs (db w'))"
      using r unfolding ODelete y(2) by (cases y) (auto intro: delete delete_err split: if_splits)
    with r show ?thesis by auto
  qed
  then show "store_spec c (jobs (db w)) x (jobs (db w'))" "ok (db w')" by simp_all
qed

lemma store_run_refines:
  assumes "ok (db w)" "run_state (store_run s cs) w = (xs, w')"
  shows "spec_run cs (jobs (db w)) xs (jobs (db w')) \<and> ok (db w') \<and> rds w' = rds w \<and> met w' = met w"
  using assms
proof (induction cs arbitrary: w xs)
  case Nil
  then show ?case by (auto intro: spec_run.nil)
next
  case (Cons c cs)
  obtain x w1 where 1: "run_state (store_do s c) w = (x, w1)" by force
  with Cons.prems(2) obtain ys where 2: "run_state (store_run s cs) w1 = (ys, w')" "xs = x # ys"
    by (auto split: prod.splits)
  note d = store_do_refines [OF Cons.prems(1) 1] store_do_frame [OF 1]
  with Cons.IH [OF d(2) 2(1)] 2(2) show ?case by (auto intro: spec_run.call)
qed

end



section \<open>The queues\<close>

datatype queue_op = QPush string string | QPop "string list" duration

datatype queue_res = QPushed "string option" | QPopped "string result"

fun queue_do :: "'r RedisQueue \<Rightarrow> queue_op \<Rightarrow> (('d, 'r) world, queue_res) state" where
  "queue_do q (QPush n v) = do { x \<leftarrow> Push q n v; ret (QPushed x) }"
| "queue_do q (QPop ns d) = do { x \<leftarrow> Pop q ns d; ret (QPopped x) }"

primrec queue_run :: "'r RedisQueue \<Rightarrow> queue_op list \<Rightarrow> (('d, 'r) world, queue_res list) state" where
  "queue_run q [] = ret []"
| "queue_run q (c # cs) = do { x \<leftarrow> queue_do q c; xs \<leftarrow> queue_run q cs; ret (x # xs) }"

text \<open>The reference: a push appends, a pop takes the oldest entry of the first queue that has one.\<close>

fun fifo_do :: "queue_op \<Rightarrow> (string \<Rightarrow> string list) \<Rightarrow> queue_res \<times> (string \<Rightarrow> string list)" where
  "fifo_do (QPush n v) f = (QPushed None, f(n := f n @ [v]))"
| "fifo_do (QPop ns d) f =
     (case find (\<lambda>n. f n \<noteq> []) ns of
        None \<Rightarrow> (QPopped (Inr ''''), f)
      | Some n \<Rightarrow> (QPopped (Inr (hd (f n))), f(n := tl (f n))))"

primrec fifo_run :: "queue_op list \<Rightarrow> (string \<Rightarrow> string list) \<Rightarrow> queue_res list \<times> (string \<Rightarrow> string list)" where
  "fifo_run [] f = ([], f)"
| "fifo_run (c # cs) f = (let (x, g) = fifo_do c f; (xs, h) = fifo_run cs g in (x # xs, h))"

lemma take_first_find:
  "take_first ns f = map_option (\<lambda>n. (hd (f n), f(n := tl (f n)))) (find (\<lambda>n. f n \<noteq> []) ns)"
  by (induction ns) (auto split: list.splits)

context redis_queue
begin

lemma queue_do_exact:
  assumes "rup (rds w)"
  obtains r' where "run_state (queue_do q c) w = (fst (fifo_do c (waiting (ks (rds w)))), w\<lparr>rds := r'\<rparr>)" "rup r'"
    "waiting (ks r') = snd (fifo_do c (waiting (ks (rds w))))" "sched (ks r') = sched (ks (rds w))"
proof (cases c)
  case (QPush n v)
  obtain r' where "run_state (Push q n v) w = (None, w\<lparr>rds := r'\<rparr>)" "rup r'" "pub r' = pub (rds w)"
    "sched (ks r') = sched (ks (rds w))" "ks_ok (ks r') = ks_ok (ks (rds w))"
    "waiting (ks r') = (waiting (ks (rds w)))(n := waiting (ks (rds w)) n @ [v])"
    using assms by (rule queue.push_exact)
  with QPush show thesis by (intro that [of r']) simp_all
next
  case (QPop ns d)
  obtain r' where "run_state (Pop q ns d) w =
        (Inr (case take_first ns (waiting (ks (rds w))) of None \<Rightarrow> [] | Some (v, f) \<Rightarrow> v), w\<lparr>rds := r'\<rparr>)"
    "rup r'" "pub r' = pub (rds w)" "sched (ks r') = sched (ks (rds w))" "ks_ok (ks r') = ks_ok (ks (rds w))"
    "waiting (ks r') = (case take_first ns (waiting (ks (rds w))) of None \<Rightarrow> waiting (ks (rds w)) | Some (v, f) \<Rightarrow> f)"
    using assms by (rule queue.pop_exact)
  with QPop show thesis by (intro that [of r']) (simp_all add: take_first_find split: option.split)
qed

lemma queue_run_exact:
  assumes "rup (rds w)"
  shows "\<exists>r'. run_state (queue_run q cs) w = (fst (fifo_run cs (waiting (ks (rds w)))), w\<lparr>rds := r'\<rparr>) \<and> rup r' \<and>
           waiting (ks r') = snd (fifo_run cs (waiting (ks (rds w)))) \<and> sched (ks r') = sched (ks (rds w))"
  using assms
proof (induction cs arbitrary: w)
  case Nil
  then show ?case by (intro exI [of _ "rds w"]) simp
next
  case (Cons c cs)
  obtain r where 1: "run_state (queue_do q c) w = (fst (fifo_do c (waiting (ks (rds w)))), w\<lparr>rds := r\<rparr>)" "rup r"
    "waiting (ks r) = snd (fifo_do c (waiting (ks (rds w))))" "sched (ks r) = sched (ks (rds w))"
    using Cons.prems by (rule queue_do_exact)
  with Cons.IH [of "w\<lparr>rds := r\<rparr>"] show ?case by (auto simp: split_beta Let_def)
qed

end

text \<open>C12.
  The queues refine first-in-first-out lists.  While Redis answers, every sequence of pushes and
  pops returns exactly what the reference returns, and the keys hold exactly its lists; the
  schedule, the database and the metrics stay as they are.
\<close>

theorem queue_refines_fifo:
  assumes "redis_queue rq ks pub rup" "rup (rds w)"
  shows "\<exists>w'. run_state (queue_run rq cs) w = (fst (fifo_run cs (waiting (ks (rds w)))), w') \<and>
           waiting (ks (rds w')) = snd (fifo_run cs (waiting (ks (rds w)))) \<and>
           sched (ks (rds w')) = sched (ks (rds w)) \<and> db w' = db w \<and> met w' = met w"
  using redis_queue.queue_run_exact [OF assms] by fastforce

theorem queue_refines_fifo_witness:
  "\<exists>w'. run_state (queue_run mem_queue [QPush ''email'' ''x'', QPush ''email'' ''y'', QPop [''report'', ''email''] 1]) demo_world =
       ([QPushed None, QPushed None, QPopped (Inr ''x'')], w') \<and> waiting (r_ks (rds w')) ''email'' = [''y'']"
proof -
  have "waiting (r_ks (rds demo_world)) q = []" if "q \<noteq> ''default''" for q
    using that by (simp add: demo_world_def demo_ks_def waiting_def)
  moreover have "rmem_up (rds demo_world)" using demo_world_up by (simp add: services_up_def)
  ultimately show ?thesis
    using queue_refines_fifo [OF memq.redis_queue_axioms,
        of demo_world "[QPush ''email'' ''x'', QPush ''email'' ''y'', QPop [''report'', ''email''] 1]"]
    by auto
qed

end
