(* ===== verification/Swagger.thy ===== *)
theory Swagger
  imports ApiProperties
begin

text \<open>
  The published description of the REST interface (\<^verbatim>\<open>src/docs/docs.go\<close>): the operations with
  their parameters and answers, and the schemas these refer to.  It is what clients are told;
  the theory states how far the handlers keep to it.  Of the document, the texts for readers
  (descriptions, summaries, tags) and the media type, which is JSON throughout, are left out.
\<close>

section \<open>Schemas\<close>

datatype schema =
    SString
  | SInteger
  | SAny
  | SEnum "string list"
  | SArray schema
  | SMap schema
  | SObject "(string \<times> schema) list"
  | SRef string

type_synonym definitions = "(string \<times> schema) list"

text \<open>A reference is looked up once: no definition of the document is itself a reference.\<close>

definition resolve :: "definitions \<Rightarrow> schema \<Rightarrow> schema" where
  "resolve defs s = (case s of SRef n \<Rightarrow> (case map_of defs n of Some t \<Rightarrow> t | None \<Rightarrow> SEnum []) | _ \<Rightarrow> s)"

definition int_text :: "string \<Rightarrow> bool" where
  "int_text t =
     (let ds = (case t of c # cs \<Rightarrow> if c = CHR ''-'' then cs else t | [] \<Rightarrow> t)
      in ds \<noteq> [] \<and> list_all (\<lambda>c. digit_val c \<noteq> None) ds)"

text \<open>
  Whether a value is of a schema.  A time is a string; a property the schema does not name is
  allowed, and none is required, as the document has it.  The properties in \<open>lax\<close> are not checked.
\<close>

fun conforms :: "definitions \<Rightarrow> string list \<Rightarrow> schema \<Rightarrow> json \<Rightarrow> bool"
  and conforms_all :: "definitions \<Rightarrow> string list \<Rightarrow> schema \<Rightarrow> json list \<Rightarrow> bool"
  and conforms_props :: "definitions \<Rightarrow> string list \<Rightarrow> (string \<Rightarrow> schema) \<Rightarrow> (string \<times> json) list \<Rightarrow> bool" where
  "conforms defs lax s j =
     (case resolve defs s of
        SAny \<Rightarrow> True
      | SString \<Rightarrow> (case j of JStr _ \<Rightarrow> True | JTime _ \<Rightarrow> True | _ \<Rightarrow> False)
      | SInteger \<Rightarrow> (case j of JNum t \<Rightarrow> int_text t | _ \<Rightarrow> False)
      | SEnum vs \<Rightarrow> (case j of JStr t \<Rightarrow> t \<in> set vs | _ \<Rightarrow> False)
      | SArray t \<Rightarrow> (case j of JArr js \<Rightarrow> conforms_all defs lax t js | _ \<Rightarrow> False)
      | SMap t \<Rightarrow> (case j of JObj ps \<Rightarrow> conforms_props defs lax (\<lambda>_. t) ps | _ \<Rightarrow> False)
      | SObject qs \<Rightarrow>
          (case j of
             JObj ps \<Rightarrow> conforms_props defs lax (\<lambda>k. case map_of qs k of Some t \<Rightarrow> t | None \<Rightarrow> SAny) ps
           | _ \<Rightarrow> False)
      | SRef _ \<Rightarrow> False)"
| "conforms_all defs lax s [] = True"
| "conforms_all defs lax s (j # js) = (conforms defs lax s j \<and> conforms_all defs lax s js)"
| "conforms_props defs lax f [] = True"
| "conforms_props defs lax f ((k, j) # ps) =
     ((k \<in> set lax \<or> conforms defs lax (f k) j) \<and> conforms_props defs lax f ps)"

declare conforms.simps [simp del]

section \<open>The document\<close>

datatype param_in = InQuery | InPath | InBody

record param =
  p_name :: string
  p_in :: param_in
  p_required :: bool
  p_schema :: schema
  p_default :: "int option"

record operation =
  op_method :: http_method
  op_path :: string
  op_secured :: bool
  op_params :: "param list"
  op_responses :: "(int \<times> schema) list"

abbreviation error_ref :: schema where "error_ref \<equiv> SRef ''internal_api.ErrorResponse''"
abbreviation job_ref :: schema where "job_ref \<equiv> SRef ''github_com_goqueue_internal_model.Job''"

definition query_param :: "string \<Rightarrow> schema \<Rightarrow> int option \<Rightarrow> param" where
  "query_param n s d = \<lparr>p_name = n, p_in = InQuery, p_required = False, p_schema = s, p_default = d\<rparr>"

definition path_param :: "string \<Rightarrow> param" where
  "path_param n = \<lparr>p_name = n, p_in = InPath, p_required = True, p_schema = SString, p_default = None\<rparr>"

definition doc_list_jobs :: operation where
  "doc_list_jobs =
     \<lparr>op_method = GET, op_path = ''/jobs'', op_secured = True,
      op_params = [query_param ''status'' SString None, query_param ''queue'' SString None, query_param ''type'' SString None,
                   query_param ''page'' SInteger (Some 1), query_param ''limit'' SInteger (Some 20)],
      op_responses = [(200, SRef ''internal_api.PaginatedResponse''), (500, error_ref)]\<rparr>"

definition doc_create_job :: operation where
  "doc_create_job =
     \<lparr>op_method = POST, op_path = ''/jobs'', op_secured = True,
      op_params = [\<lparr>p_name = ''request'', p_in = InBody, p_required = True,
                    p_schema = SRef ''internal_api.CreateJobRequest'', p_default = None\<rparr>],
      op_responses = [(201, job_ref), (400, error_ref), (500, error_ref)]\<rparr>"

definition doc_get_job :: operation where
  "doc_get_job =
     \<lparr>op_method = GET, op_path = ''/jobs/{id}'', op_secured = True, op_params = [path_param ''id''],
      op_responses = [(200, job_ref), (400, error_ref), (404, error_ref)]\<rparr>"

definition doc_delete_job :: operation where
  "doc_delete_job =
     \<lparr>op_method = DELETE, op_path = ''/jobs/{id}'', op_secured = True, op_params = [path_param ''id''],
      op_responses = [(200, SMap SString), (400, error_ref), (409, error_ref)]\<rparr>"

definition doc_cancel_job :: operation where
  "doc_cancel_job =
     \<lparr>op_method = POST, op_path = ''/jobs/{id}/cancel'', op_secured = True, op_params = [path_param ''id''],
      op_responses = [(200, SMap SString), (400, error_ref), (404, error_ref), (409, error_ref)]\<rparr>"

definition doc_retry_job :: operation where
  "doc_retry_job =
     \<lparr>op_method = POST, op_path = ''/jobs/{id}/retry'', op_secured = True, op_params = [path_param ''id''],
      op_responses = [(200, SMap SString), (400, error_ref), (404, error_ref), (409, error_ref)]\<rparr>"

definition doc_get_queues :: operation where
  "doc_get_queues =
     \<lparr>op_method = GET, op_path = ''/queues'', op_secured = True, op_params = [],
      op_responses = [(200, SMap (SMap SInteger)), (500, error_ref)]\<rparr>"

definition doc_get_queue :: operation where
  "doc_get_queue =
     \<lparr>op_method = GET, op_path = ''/queues/{name}'', op_secured = True, op_params = [path_param ''name''],
      op_responses = [(200, SMap SInteger), (500, error_ref)]\<rparr>"

definition doc_get_stats :: operation where
  "doc_get_stats =
     \<lparr>op_method = GET, op_path = ''/stats'', op_secured = True, op_params = [],
      op_responses = [(200, SMap SInteger), (500, error_ref)]\<rparr>"

definition doc_paths :: "operation list" where
  "doc_paths = [doc_list_jobs, doc_create_job, doc_get_job, doc_delete_job, doc_cancel_job, doc_retry_job,
                doc_get_queues, doc_get_queue, doc_get_stats]"

definition doc_job :: schema where
  "doc_job = SObject
     [(''completed_at'', SString), (''created_at'', SString), (''error'', SString), (''id'', SString),
      (''max_retries'', SInteger), (''payload'', SArray SInteger), (''queue'', SString), (''retry_count'', SInteger),
      (''run_at'', SString), (''started_at'', SString),
      (''status'', SRef ''github_com_goqueue_internal_model.JobStatus''), (''type'', SString), (''updated_at'', SString)]"

definition doc_job_status :: schema where
  "doc_job_status = SEnum
     [''pending'', ''scheduled'', ''running'', ''completed'', ''failed'', ''retrying'', ''dead'', ''cancelled'']"

definition doc_create_request :: schema where
  "doc_create_request = SObject
     [(''max_retries'', SInteger), (''payload'', SArray SInteger), (''queue'', SString), (''run_at'', SString), (''type'', SString)]"

definition doc_definitions :: definitions where
  "doc_definitions =
     [(''github_com_goqueue_internal_model.Job'', doc_job),
      (''github_com_goqueue_internal_model.JobStatus'', doc_job_status),
      (''internal_api.CreateJobRequest'', doc_create_request),
      (''internal_api.ErrorResponse'', SObject [(''error'', SString)]),
      (''internal_api.PaginatedResponse'', SObject [(''data'', SAny), (''pagination'', SRef ''internal_api.Pagination'')]),
      (''internal_api.Pagination'', SObject
         [(''limit'', SInteger), (''page'', SInteger), (''total'', SInteger), (''total_pages'', SInteger)])]"

text \<open>\<^verbatim>\<open>securityDefinitions\<close>: the header the key is in.\<close>

definition doc_key_header :: string where
  "doc_key_header = ''X-API-Key''"

definition doc_base_path :: string where
  "doc_base_path = ''/api/v1''"

text \<open>An answer the document has: its code is listed, and its body, where there is one, is of the schema.\<close>

definition documented :: "string list \<Rightarrow> operation \<Rightarrow> response \<Rightarrow> bool" where
  "documented lax c x =
     (case map_of (op_responses c) (code x) of
        None \<Rightarrow> False
      | Some s \<Rightarrow> (case body x of None \<Rightarrow> True | Some j \<Rightarrow> conforms doc_definitions lax s j))"

section \<open>Values of the schemas\<close>

lemma dec_digit_vals: "dec n \<noteq> [] \<and> list_all (\<lambda>c. digit_val c \<noteq> None) (dec n)"
proof (induction n rule: dec.induct)
  case (1 n)
  then show ?case by (simp add: dec.simps [of n])
qed

lemma int_text_dec: "int_text (dec n)" "int_text (CHR ''-'' # dec n)"
  using dec_digit_vals [of n] hd_dec [of n] by (auto simp: int_text_def Let_def split: list.splits)

lemma int_text_fmt_d: "int_text (fmt_d n)"
  by (simp add: fmt_d_def int_text_dec)

lemma resolve_simps [simp]:
  "resolve defs SString = SString" "resolve defs SInteger = SInteger" "resolve defs SAny = SAny"
  "resolve defs (SMap t) = SMap t" "resolve defs (SArray t) = SArray t" "resolve defs (SObject qs) = SObject qs"
  "resolve defs (SEnum vs) = SEnum vs"
  by (simp_all add: resolve_def)

lemma resolve_docs [simp]:
  "resolve doc_definitions job_ref = doc_job"
  "resolve doc_definitions error_ref = SObject [(''error'', SString)]"
  "resolve doc_definitions (SRef ''github_com_goqueue_internal_model.JobStatus'') = doc_job_status"
  "resolve doc_definitions (SRef ''internal_api.CreateJobRequest'') = doc_create_request"
  "resolve doc_definitions (SRef ''internal_api.PaginatedResponse'') =
     SObject [(''data'', SAny), (''pagination'', SRef ''internal_api.Pagination'')]"
  "resolve doc_definitions (SRef ''internal_api.Pagination'') = SObject
     [(''limit'', SInteger), (''page'', SInteger), (''total'', SInteger), (''total_pages'', SInteger)]"
  by (simp_all add: resolve_def doc_definitions_def)

lemma conforms_simps [simp]:
  "conforms defs lax SAny j" "conforms defs lax SString (JStr t)" "conforms defs lax SString (JTime u)"
  "conforms defs lax SInteger (JNum (fmt_d n))"
  "conforms defs lax (SMap s) (JObj ps) = conforms_props defs lax (\<lambda>_. s) ps"
  by (simp_all add: conforms.simps int_text_fmt_d)

lemma conforms_props_iff:
  "conforms_props defs lax f ps \<longleftrightarrow> (\<forall>(k, j)\<in>set ps. k \<in> set lax \<or> conforms defs lax (f k) j)"
  by (induction ps) auto

lemma conforms_error: "conforms doc_definitions lax error_ref (JObj [(''error'', JStr m)])"
  by (simp add: conforms.simps [of _ _ error_ref])

lemma conforms_counts: "conforms defs lax (SMap SInteger) (json_counts m)"
  by (auto simp: json_counts_def conforms_props_iff)

lemma conforms_grouped: "conforms defs lax (SMap (SMap SInteger)) (json_grouped g)"
  using conforms_counts by (auto simp: json_grouped_def conforms_props_iff)

lemma conforms_status: "conforms defs lax (SMap SString) (status_only s)"
  by (simp add: status_only_def)

lemma conforms_valid_status:
  "IsValid s \<longleftrightarrow> conforms doc_definitions lax (SRef ''github_com_goqueue_internal_model.JobStatus'') (JStr s)"
  by (auto simp: conforms.simps doc_job_status_def IsValid_iff statuses_def go_const)

text \<open>A job conforms in all but its payload, which the document calls a list of integers.\<close>

lemma conforms_props_append [simp]:
  "conforms_props defs lax f (ps @ qs) \<longleftrightarrow> conforms_props defs lax f ps \<and> conforms_props defs lax f qs"
  by (auto simp: conforms_props_iff)

lemma conforms_time_field: "f n = SString \<Longrightarrow> conforms_props defs lax f (time_field n t)"
  by (cases t) (simp_all add: time_field_def)

lemma conforms_job:
  assumes "json_job L job = Some j" "IsValid (Status job)"
  shows "conforms doc_definitions [''payload''] job_ref j"
proof -
  have "conforms doc_definitions [''payload''] (SRef ''github_com_goqueue_internal_model.JobStatus'') (JStr (Status job))"
    by (rule conforms_valid_status [THEN iffD1, OF assms(2)])
  with assms(1) show ?thesis
    by (clarsimp simp: json_job_def conforms.simps [of _ _ job_ref] doc_job_def conforms_time_field split: if_split_asm)
qed

section \<open>The handlers against the document\<close>

lemma documented_error: "map_of (op_responses c) n = Some error_ref \<Longrightarrow> documented lax c (writeError n m)"
  by (simp add: documented_def writeError_def writeJSON_def conforms_error)

lemma documented_body:
  "map_of (op_responses c) n = Some s \<Longrightarrow> (\<And>j. b = Some j \<Longrightarrow> conforms doc_definitions lax s j) \<Longrightarrow> documented lax c (writeJSON n b)"
  by (auto simp: documented_def writeJSON_def split: option.splits)

lemmas documented_intros = documented_error documented_body conforms_counts conforms_grouped conforms_status

lemma conforms_page: "body (list_response L f js tot) = Some j \<Longrightarrow>
    conforms doc_definitions lax (SRef ''internal_api.PaginatedResponse'') j"
  by (auto simp: list_response_def writeJSON_def conforms.simps [of _ _ "SRef x" for x])

lemma documented_list:
  "run_state (api_ListJobs L h r) w = (x, w') \<Longrightarrow> documented lax doc_list_jobs x"
proof -
  have "documented lax doc_list_jobs (list_response L f js tot)" for f js tot
  proof -
    have "code (list_response L f js tot) = 200" by (simp add: list_response_def writeJSON_def)
    then show ?thesis
      using conforms_page [of L f js tot]
      by (cases "body (list_response L f js tot)") (simp_all add: documented_def doc_list_jobs_def)
  qed
  moreover have "documented lax doc_list_jobs (writeError 500 m)" for m
    by (rule documented_error) (simp add: doc_list_jobs_def)
  moreover assume "run_state (api_ListJobs L h r) w = (x, w')"
  ultimately show ?thesis by (auto simp: api_ListJobs_def Let_def split: prod.splits sum.splits)
qed

lemma documented_stats:
  "run_state (api_GetQueues h r) w = (x, w') \<Longrightarrow> documented lax doc_get_queues x"
  "run_state (api_GetQueueByName h r) w = (x, w') \<Longrightarrow> documented lax doc_get_queue x"
  "run_state (api_GetStats h r) w = (x, w') \<Longrightarrow> documented lax doc_get_stats x"
  by (auto simp: api_GetQueues_def api_GetQueueByName_def api_GetStats_def doc_get_queues_def doc_get_queue_def
        doc_get_stats_def intro: documented_intros split: prod.splits sum.splits)

lemma documented_delete:
  "run_state (api_DeleteJob L h r) w = (x, w') \<Longrightarrow> documented lax doc_delete_job x"
  by (auto simp: api_DeleteJob_def doc_delete_job_def intro: documented_intros split: prod.splits option.splits)

text \<open>The two operations that change a job can also answer 500, which the document does not list.\<close>

lemma documented_change:
  "run_state (api_CancelJob L h r) w = (x, w') \<Longrightarrow> documented lax doc_cancel_job x \<or> code x = 500"
  "run_state (api_RetryJob L h r) w = (x, w') \<Longrightarrow> documented lax doc_retry_job x \<or> code x = 500"
  by (auto simp: api_CancelJob_def api_RetryJob_def doc_cancel_job_def doc_retry_job_def writeError_def [of 500] writeJSON_def [of 500]
        intro: documented_intros split: prod.splits option.splits sum.splits if_splits)

lemma request_job_valid: "request_job b = Inr job \<Longrightarrow> IsValid (Status job)"
  by (auto simp: request_job_def Let_def IsValid_iff statuses_def split: option.splits if_splits)

context storage
begin

lemma documented_get:
  assumes "ok (db w)" "\<forall>j\<in>set (jobs (db w)). IsValid (Status j)" "h_store h = s"
    and "run_state (api_GetJob L h r) w = (x, w')"
  shows "documented [''payload''] doc_get_job x"
proof (cases "uuid_Parse L (URLParam r ''id'')")
  case None
  with assms(4) show ?thesis by (auto simp: api_GetJob_def doc_get_job_def intro: documented_intros)
next
  case (Some i)
  obtain y w1 where 1: "run_state (GetJob s i) w = (y, w1)" by force
  have "IsValid (Status j)" if "y = Inr j" for j
    using GetJob_run [OF assms(1) 1] that assms(2) look_Some_iff [OF ok_jobs_ok [OF assms(1)]] by auto
  with 1 Some assms(3,4) show ?thesis
    by (auto simp: api_GetJob_def doc_get_job_def intro: documented_intros conforms_job split: sum.splits)
qed

lemma documented_create:
  assumes "ok (db w)" "h_store h = s" "run_state (api_CreateJob L h r) w = (x, w')"
  shows "documented [''payload''] doc_create_job x"
proof (cases "request_job (Body r)")
  case (Inl m)
  with assms(3) show ?thesis by (auto simp: api_CreateJob_def doc_create_job_def intro: documented_intros)
next
  case (Inr job)
  obtain y w1 where 1: "run_state (CreateJob s job) w = (y, w1)" by force
  have "IsValid (Status j)" if "y = Inr j" for j
    using CreateJob_run [OF assms(1) 1] that request_job_valid [OF Inr] by (auto simp: new_job_def)
  with 1 Inr assms(2,3) show ?thesis
    by (auto simp: api_CreateJob_def doc_create_job_def intro: documented_intros conforms_job split: sum.splits prod.splits)
qed

end

lemma routes_documented:
  "(m, doc_base_path @ p, e, True) \<in> set routes \<longleftrightarrow> (m, p, e) \<in> set api_routes"
  unfolding routes_def doc_base_path_def by (auto simp: image_iff)

lemma doc_keys [simp]:
  "op_method doc_list_jobs = GET" "op_path doc_list_jobs = ''/jobs''"
  "op_method doc_create_job = POST" "op_path doc_create_job = ''/jobs''"
  "op_method doc_get_job = GET" "op_path doc_get_job = ''/jobs/{id}''"
  "op_method doc_delete_job = DELETE" "op_path doc_delete_job = ''/jobs/{id}''"
  "op_method doc_cancel_job = POST" "op_path doc_cancel_job = ''/jobs/{id}/cancel''"
  "op_method doc_retry_job = POST" "op_path doc_retry_job = ''/jobs/{id}/retry''"
  "op_method doc_get_queues = GET" "op_path doc_get_queues = ''/queues''"
  "op_method doc_get_queue = GET" "op_path doc_get_queue = ''/queues/{name}''"
  "op_method doc_get_stats = GET" "op_path doc_get_stats = ''/stats''"
  by (simp_all add: doc_list_jobs_def doc_create_job_def doc_get_job_def doc_delete_job_def doc_cancel_job_def doc_retry_job_def
      doc_get_queues_def doc_get_queue_def doc_get_stats_def)

lemma api_routes_keys:
  "{(m, p). \<exists>e. (Some m, p, e) \<in> set api_routes} =
     {(POST, ''/jobs''), (GET, ''/jobs''), (GET, ''/jobs/{id}''), (POST, ''/jobs/{id}/cancel''), (POST, ''/jobs/{id}/retry''),
      (DELETE, ''/jobs/{id}''), (GET, ''/queues''), (GET, ''/queues/{name}''), (GET, ''/stats'')}"
proof -
  have "{(m, p). \<exists>e. (Some m, p, e) \<in> set xs} = set (List.map_filter (\<lambda>(m, p, e). map_option (\<lambda>x. (x, p)) m) xs)" for xs
    by (force simp: map_filter_def)
  note eq = this [of api_routes]
  show ?thesis unfolding eq by (simp add: api_routes_def map_filter_simps)
qed

text \<open>The operation of the document for each endpoint.\<close>

definition doc_of :: "endpoint \<Rightarrow> operation" where
  "doc_of e =
     (case e of
        EListJobs \<Rightarrow> doc_list_jobs | ECreateJob \<Rightarrow> doc_create_job | EGetJob \<Rightarrow> doc_get_job | EDeleteJob \<Rightarrow> doc_delete_job
      | ECancelJob \<Rightarrow> doc_cancel_job | ERetryJob \<Rightarrow> doc_retry_job | EGetQueues \<Rightarrow> doc_get_queues
      | EGetQueueByName \<Rightarrow> doc_get_queue | _ \<Rightarrow> doc_get_stats)"

lemma doc_of_routes: "list_all (\<lambda>(m, p, e). doc_of e \<in> set doc_paths \<and> m = Some (op_method (doc_of e)) \<and> p = op_path (doc_of e)) api_routes"
  by (simp add: api_routes_def doc_of_def doc_paths_def)

lemma doc_paths_inj: "inj_on (\<lambda>c. (op_method c, op_path c)) (set doc_paths)"
proof -
  have "distinct (map (\<lambda>c. (op_method c, op_path c)) doc_paths)" by (simp add: doc_paths_def)
  then show ?thesis by (simp only: distinct_map)
qed

lemma path_of_endpoint:
  assumes "c \<in> set doc_paths" "(Some (op_method c), op_path c, e) \<in> set api_routes"
  shows "c = doc_of e" "e \<in> {EListJobs, ECreateJob, EGetJob, EDeleteJob, ECancelJob, ERetryJob, EGetQueues, EGetQueueByName, EGetStats}"
proof -
  show "c = doc_of e" using assms doc_of_routes by (auto simp: list_all_iff intro: inj_onD [OF doc_paths_inj])
  show "e \<in> {EListJobs, ECreateJob, EGetJob, EDeleteJob, ECancelJob, ERetryJob, EGetQueues, EGetQueueByName, EGetStats}"
    using assms(2) unfolding api_routes_def by (auto simp only: list.set insert_iff prod.inject empty_iff)
qed

text \<open>
  The document lists exactly the operations the router has under the key, all of them with the
  key, in the header the middleware looks at; and the defaults it gives for the page and its size
  are those the handler uses when the parameters are absent.
\<close>

lemma document_matches_routes:
  "(\<lambda>c. (op_method c, op_path c)) ` set doc_paths = {(m, p). \<exists>e. (Some m, doc_base_path @ p, e, True) \<in> set routes} \<and>
   list_all op_secured doc_paths \<and>
   APIKeyAuth key f r = (if Header r doc_key_header = key then f r else ret (writeError 401 ''invalid or missing API key'')) \<and>
   List.map_filter p_default (op_params doc_list_jobs) =
     [Page (list_params (r\<lparr>URLQuery := \<lambda>_. []\<rparr>)), Limit (list_params (r\<lparr>URLQuery := \<lambda>_. []\<rparr>))]"
proof (intro conjI)
  show "(\<lambda>c. (op_method c, op_path c)) ` set doc_paths = {(m, p). \<exists>e. (Some m, doc_base_path @ p, e, True) \<in> set routes}"
    unfolding routes_documented api_routes_keys by (simp add: doc_paths_def insert_commute)
  show "list_all op_secured doc_paths"
    by (simp add: doc_paths_def doc_list_jobs_def doc_create_job_def doc_get_job_def doc_delete_job_def
          doc_cancel_job_def doc_retry_job_def doc_get_queues_def doc_get_queue_def doc_get_stats_def)
  show "APIKeyAuth key f r = (if Header r doc_key_header = key then f r else ret (writeError 401 ''invalid or missing API key''))"
    by (simp add: APIKeyAuth_def doc_key_header_def)
  have "Atoi [] = (0, Some ErrSyntax)" by code_simp
  then show "List.map_filter p_default (op_params doc_list_jobs) =
     [Page (list_params (r\<lparr>URLQuery := \<lambda>_. []\<rparr>)), Limit (list_params (r\<lparr>URLQuery := \<lambda>_. []\<rparr>))]"
    by (simp add: doc_list_jobs_def query_param_def list_params_def map_filter_def)
qed

text \<open>C27.
  The answers are documented.  As long as the statuses in the table are valid ones, and whatever
  calls fail, an operation of the document that is called with the key answers with a code the
  document lists for it and, where there is a body, with a value of the schema listed beside that
  code, the payload of a job apart; only cancelling and retrying have one more answer, 500.
\<close>

theorem answers_documented:
  assumes "storage (h_store h) tbl env up" "schema_ok (tbl (db w))" "\<forall>j\<in>set (table_jobs (tbl (db w))). IsValid (Status j)"
    and "c \<in> set doc_paths" "(Some (op_method c), doc_base_path @ op_path c, e, True) \<in> set routes" "Header r doc_key_header = key"
    and "run_state (serve_route L h key isLeader other (Some (op_method c), doc_base_path @ op_path c, e, True) r) w = (x, w')"
  shows "documented [''payload''] c x \<or> e \<in> {ECancelJob, ERetryJob} \<and> code x = 500"
proof -
  let ?w = "w\<lparr>ticks := Suc (ticks w)\<rparr>"
  obtain v where v: "run_state (endpoint_handler L h isLeader other e r) ?w = (x, v)"
    using assms(6,7) by (auto simp: serve_route_def RequestLogger_def APIKeyAuth_def time_Now_def doc_key_header_def split: prod.splits)
  have w: "schema_ok (tbl (db ?w))" "\<forall>j\<in>set (table_jobs (tbl (db ?w))). IsValid (Status j)" using assms(2,3) by simp_all
  have "(Some (op_method c), op_path c, e) \<in> set api_routes" using assms(5) by (simp add: routes_documented)
  from path_of_endpoint [OF assms(4) this] v show ?thesis unfolding doc_of_def
    using storage.documented_get [OF assms(1) w refl, of L r x v] storage.documented_create [OF assms(1) w(1) refl, of L r x v]
      documented_list [of L h r ?w x v] documented_stats [of h r ?w x v] documented_delete [of L h r ?w x v]
      documented_change [of L h r ?w x v "[''payload'']"]
    by auto
qed

theorem answers_documented_witness:
  "\<exists>x w'. run_state (serve_route canon_lib demo_api [] False (\<lambda>_. HealthHandler)
              (Some GET, ''/api/v1/jobs/{id}'', EGetJob, True) (job_request 1)) api_world = (x, w') \<and>
           documented [''payload''] doc_get_job x"
proof -
  let ?rt = "(Some (op_method doc_get_job), doc_base_path @ op_path doc_get_job, EGetJob, True)"
  obtain x w' where r: "run_state (serve_route canon_lib demo_api [] False (\<lambda>_. HealthHandler) ?rt (job_request 1)) api_world = (x, w')"
    by force
  have "storage (h_store demo_api) m_tbl mem_env mem_up"
    by (simp add: demo_api_def NewHandler_def memst.storage_axioms)
  moreover have "schema_ok (m_tbl (db api_world))" using api_world_up by (simp add: services_up_def)
  moreover have "\<forall>j\<in>set api_jobs. IsValid (Status j)" by (simp add: api_jobs_def IsValid_iff statuses_def)
  moreover have "?rt \<in> set routes" by (simp only: routes_documented) (simp add: api_routes_def)
  ultimately have "documented [''payload''] doc_get_job x"
    using answers_documented [of demo_api m_tbl mem_env mem_up api_world doc_get_job EGetJob "job_request 1" "[]",
        OF _ _ _ _ _ _ r] by (simp add: doc_paths_def)
  with r show ?thesis by (auto simp: doc_base_path_def)
qed

text \<open>The document and the payload: the payload a job has by default is no list of integers.\<close>

lemma payload_undocumented:
  assumes "json_job L job = Some j" "Payload job = Some (JObj ps)"
  shows "\<not> conforms doc_definitions [] job_ref j"
  using assms by (auto simp: json_job_def conforms.simps [of _ _ job_ref] doc_job_def conforms_props_iff
      conforms.simps [of _ _ "SArray SInteger"] split: if_splits)

end
