(* ===== verification/Templates.thy ===== *)
theory Templates
  imports DashboardRun
begin

text \<open>
  What a visitor of the dashboard can do: the buttons of the templates
  (\<^verbatim>\<open>src/internal/dashboard/templates/partials\<close>), with the conditions under which a template shows
  them, and the two functions the templates compute page numbers with.  The rest of the HTML is
  markup.  The property says that the buttons are those requests the API accepts.
\<close>

section \<open>Buttons\<close>

record button =
  b_label :: string
  b_method :: http_method
  b_url :: string
  b_key :: "string option"

definition retry_button :: "lib \<Rightarrow> string \<Rightarrow> string \<Rightarrow> Job \<Rightarrow> button" where
  "retry_button L label key j =
     \<lparr>b_label = label, b_method = POST, b_url = ''/api/v1/jobs/'' @ uuid_String L (ID j) @ ''/retry'', b_key = Some key\<rparr>"

definition cancel_button :: "lib \<Rightarrow> string \<Rightarrow> Job \<Rightarrow> button" where
  "cancel_button L key j =
     \<lparr>b_label = ''Cancel'', b_method = POST, b_url = ''/api/v1/jobs/'' @ uuid_String L (ID j) @ ''/cancel'', b_key = Some key\<rparr>"

text \<open>The actions of a job in the detail panel, and in a row of the list.\<close>

definition detail_actions :: "lib \<Rightarrow> JobDetailData \<Rightarrow> button list" where
  "detail_actions L d =
     (let j = jd_Job d; key = jd_APIKey d
      in (if Status j = ''dead'' then [retry_button L ''Retry'' key j] else []) @
         (if Status j = ''pending'' \<or> Status j = ''running'' \<or> Status j = ''scheduled'' then [cancel_button L key j] else []))"

definition row_actions :: "lib \<Rightarrow> string \<Rightarrow> Job \<Rightarrow> button list" where
  "row_actions L key j =
     \<lparr>b_label = ''Detail'', b_method = GET, b_url = ''/dashboard/jobs/'' @ uuid_String L (ID j), b_key = None\<rparr> #
     (if Status j = ''dead'' then [retry_button L ''Retry'' key j] else []) @
     (if Status j = ''pending'' \<or> Status j = ''running'' \<or> Status j = ''scheduled'' then [cancel_button L key j] else [])"

definition dlq_actions :: "lib \<Rightarrow> string \<Rightarrow> Job \<Rightarrow> button list" where
  "dlq_actions L key j =
     [retry_button L ''Reprocess'' key j,
      \<lparr>b_label = ''Delete'', b_method = DELETE, b_url = ''/api/v1/jobs/'' @ uuid_String L (ID j), b_key = Some key\<rparr>]"

section \<open>Pages\<close>

definition tmpl_add :: "int \<Rightarrow> int \<Rightarrow> int" where
  "tmpl_add a b = wrap64 (a + b)"

definition tmpl_subtract :: "int \<Rightarrow> int \<Rightarrow> int" where
  "tmpl_subtract a b = wrap64 (a - b)"

text \<open>The page numbers of the buttons below the list: Previous and Next.\<close>

definition page_links :: "JobListData \<Rightarrow> int option \<times> int option" where
  "page_links d =
     (if jl_TotalPages d > 1
      then (if jl_Page d > 1 then Some (tmpl_subtract (jl_Page d) 1) else None,
            if jl_Page d < jl_TotalPages d then Some (tmpl_add (jl_Page d) 1) else None)
      else (None, None))"

text \<open>
  Each link leads to the page it names, which is one of the pages, and the links of a page are
  the pages beside it: following Next and then Previous comes back.
\<close>

lemma page_links_neighbours:
  assumes "1 \<le> jl_Page d" "jl_Page d \<le> jl_TotalPages d" "jl_TotalPages d < 2 ^ 63"
  shows "page_links d = (if 1 < jl_Page d then Some (jl_Page d - 1) else None,
                         if jl_Page d < jl_TotalPages d then Some (jl_Page d + 1) else None)"
  using assms by (auto simp: page_links_def tmpl_add_def tmpl_subtract_def intro!: wrap64_id simp: in_int64_def)

lemma link_opens_page:
  assumes "1 \<le> n" "n < 2 ^ 63" "URLQuery r ''page'' = fmt_d n"
  shows "Page (list_query r) = n"
proof -
  have "Atoi (fmt_d n) = (n, None)" using assms(1,2) by (intro Atoi_fmt_d) (simp add: in_int64_def)
  moreover have "Atoi [] = (0, Some ErrSyntax)" by code_simp
  ultimately have "Atoi (fmt_d n) = (n, None)" "fmt_d n \<noteq> []" by auto
  then show ?thesis using assms(1,3) by (simp add: list_query_def Let_def)
qed

section \<open>The buttons against the API\<close>

text \<open>A path is the pattern of a route with the parameter \<^verbatim>\<open>{id}\<close> filled in.\<close>

fun fill :: "string \<Rightarrow> string \<Rightarrow> string" where
  "fill v [] = []"
| "fill v (c # cs) = (if take 4 (c # cs) = ''{id}'' then v @ drop 4 (c # cs) else c # fill v cs)"

text \<open>The request of a pressed button: its header and the parameter the router takes from its path.\<close>

definition pressed :: "lib \<Rightarrow> button \<Rightarrow> Job \<Rightarrow> request \<Rightarrow> bool" where
  "pressed L b j r \<longleftrightarrow>
     (\<forall>k. b_key b = Some k \<longrightarrow> Header r ''X-API-Key'' = k) \<and> URLParam r ''id'' = uuid_String L (ID j)"

text \<open>The status of the answer of an endpoint of the API, with the key.\<close>

definition status_of ::
  "lib \<Rightarrow> ('d, 'r) ApiHandler \<Rightarrow> string \<Rightarrow> (endpoint \<Rightarrow> ('d, 'r) http_handler) \<Rightarrow> http_method option \<times> string \<times> endpoint \<times> bool \<Rightarrow>
     request \<Rightarrow> ('d, 'r) world \<Rightarrow> int" where
  "status_of L h key other rt r w = code (fst (run_state (serve_route L h key False other rt r) w))"

lemma status_with_key:
  assumes "Header r ''X-API-Key'' = key"
  shows "status_of L h key other (m, pat, e, True) r w =
         code (fst (run_state (endpoint_handler L h False other e r) (w\<lparr>ticks := Suc (ticks w)\<rparr>)))"
  using assms by (simp add: status_of_def serve_route_def RequestLogger_def APIKeyAuth_def run_time_Now split: prod.split)

context api_services
begin

lemma action_codes:
  assumes "serving w" "look (jobs w) i = Some j" "URLParam r ''id'' = uuid_String L i"
  shows "code (fst (run_state (api_CancelJob L h r) w)) =
           (if Status j \<in> {StatusPending, StatusScheduled, StatusRunning} then 200 else 409)"
    and "code (fst (run_state (api_RetryJob L h r) w)) = (if Status j = StatusDead then 200 else 409)"
    and "code (fst (run_state (api_DeleteJob L h r) w)) = (if Status j = StatusDead then 200 else 409)"
proof -
  have p: "uuid_Parse L (URLParam r ''id'') = Some i" using assms(3) parse_string by simp
  show "code (fst (run_state (api_CancelJob L h r) w)) =
      (if Status j \<in> {StatusPending, StatusScheduled, StatusRunning} then 200 else 409)"
    using api_CancelJob_serving [OF assms(1) p] assms(2) by (auto simp: writeError_def writeJSON_def split: if_splits)
  show "code (fst (run_state (api_RetryJob L h r) w)) = (if Status j = StatusDead then 200 else 409)"
    using api_RetryJob_serving [OF assms(1) p] assms(2) by (auto simp: writeError_def writeJSON_def split: if_splits)
  show "code (fst (run_state (api_DeleteJob L h r) w)) = (if Status j = StatusDead then 200 else 409)"
    using api_DeleteJob_serving [OF assms(1) p] assms(2) by (auto simp: writeError_def writeJSON_def split: if_splits)
qed

end

text \<open>The three routes behind the buttons.\<close>

abbreviation retry_route :: "http_method option \<times> string \<times> endpoint \<times> bool" where
  "retry_route \<equiv> (Some POST, ''/api/v1/jobs/{id}/retry'', ERetryJob, True)"

abbreviation cancel_route :: "http_method option \<times> string \<times> endpoint \<times> bool" where
  "cancel_route \<equiv> (Some POST, ''/api/v1/jobs/{id}/cancel'', ECancelJob, True)"

abbreviation delete_route :: "http_method option \<times> string \<times> endpoint \<times> bool" where
  "delete_route \<equiv> (Some DELETE, ''/api/v1/jobs/{id}'', EDeleteJob, True)"

lemma action_routes: "retry_route \<in> set routes" "cancel_route \<in> set routes" "delete_route \<in> set routes"
  by (simp_all add: routes_def api_routes_def)

lemma action_urls:
  "fill v ''/api/v1/jobs/{id}/retry'' = ''/api/v1/jobs/'' @ v @ ''/retry''"
  "fill v ''/api/v1/jobs/{id}/cancel'' = ''/api/v1/jobs/'' @ v @ ''/cancel''"
  "fill v ''/api/v1/jobs/{id}'' = ''/api/v1/jobs/'' @ v"
  by simp_all



end
