(* ===== verification/Spec2Isabelle.thy ===== *)
theory Spec2Isabelle
  imports Cluster Delivery Races Refinement Swagger Templates
begin

text \<open>
  GoQueue is a job queue in Go.  Clients submit jobs over a REST API; the jobs are rows of a
  PostgreSQL table, the identifiers of those that are ready are entries of Redis lists, and those
  of a later time are members of a Redis sorted set.  A pool of workers takes identifiers from
  the lists and runs the handler of the job's type.  One of the running instances is elected the
  leader by an advisory lock of PostgreSQL, and only its scheduler moves due jobs to the lists and
  looks for jobs that got stuck.  A dashboard shows the jobs, fed by events over Redis and a
  WebSocket hub.  The sources are under \<^verbatim>\<open>src/\<close>.

  \<^bold>\<open>How the model is built.\<close>
  A call of the program is a function on the state \<open>('d, 'r) world\<close>, written in the state monad
  (\<open>World\<close>): the database \<open>db\<close>, Redis \<open>rds\<close>, the clock with the number of its readings, the
  metrics as the list of the calls made on them, and whether the context is cancelled.  Errors are
  values (\<open>string option\<close> for Go's \<^verbatim>\<open>error\<close>, \<open>'a result\<close> for a value or an error), panics that the
  code can reach are values too.  Integers of 64 bits wrap by \<open>wrap64\<close>; a floating-point number is
  modelled where the code computes with one (back-off, number of pages, durations).

  What is not in the repository is a parameter.  The two servers and their drivers are records of
  functions over an arbitrary state (\<open>pgxpool\<close>, \<open>redis_client\<close>, \<open>pgx\<close>, \<open>drivers\<close>), the text form of
  identifiers is the record \<open>lib\<close>, executing an HTML template is a function.  What the code relies
  on is the contract of a locale, and every locale is interpreted on a server in memory that can
  also be made to fail.  A call to a server may fail before or after its effect; \<open>services_up\<close>
  says of a state that both servers answer, from then on.

  \<^bold>\<open>The theories.\<close>
  \<^item> \<open>Prelude\<close>, \<open>GoStd\<close>, \<open>GoTime\<close>, \<open>World\<close>: triples for the state monad, loops, words of 64 bits,
    \<^verbatim>\<open>strconv\<close>, rounding, \<^verbatim>\<open>time.Parse\<close> for RFC 3339, the state and the text of identifiers.
  \<^item> \<open>Job\<close> (\<^verbatim>\<open>internal/model/job.go\<close>), \<open>Metrics\<close> (\<^verbatim>\<open>internal/metrics\<close>), \<open>Event\<close>
    (\<^verbatim>\<open>internal/dashboard/event.go\<close>): the record of a job and its statuses, the table of metrics, the
    events and the contract \<open>event_bus\<close> of their publication.
  \<^item> \<open>Sql\<close>, \<open>Postgres\<close>: the table of the migration, an interpreter for the SQL the program sends, and
    the contract \<open>postgres\<close> of a connection pool.  \<open>Redis\<close>: lists, sorted sets, the script, and the
    contract \<open>redis\<close>.
  \<^item> \<open>Storage\<close> (\<^verbatim>\<open>internal/storage/postgres.go\<close>): every method with its statement.  \<open>StoreLaws\<close> and
    \<open>StoreQueries\<close>: its laws on the list of the jobs in the table (locales \<open>job_store\<close>, \<open>storage\<close>).
  \<^item> \<open>RedisQueue\<close> (\<^verbatim>\<open>internal/queue/redis.go\<close>): its methods and laws (\<open>task_queue\<close>, \<open>redis_queue\<close>).
  \<^item> \<open>Refinement\<close>: the storage refines a non-deterministic machine over lists of jobs, under any
    failures; the queues refine first-in-first-out lists.
  \<^item> \<open>Worker\<close>, \<open>WorkerPool\<close> (\<^verbatim>\<open>internal/worker/worker.go\<close>): \<open>processJob\<close> on every branch, in the contract
    \<open>worker_env\<close> and then over both servers (\<open>worker_services\<close>); rounds of the workers interleaved
    (\<open>round_step\<close>, \<open>pool_step\<close>), the invariant of a running pool and that \<open>Stop\<close> ends.
  \<^item> \<open>Scheduler\<close>, \<open>SchedulerRun\<close> (\<^verbatim>\<open>internal/scheduler/scheduler.go\<close>): the three ticks with the services
    up and under failures, start and stop as a step relation (\<open>sched_step\<close>).
  \<^item> \<open>Leader\<close>, \<open>Election\<close>, \<open>ElectionRun\<close> (\<^verbatim>\<open>internal/leader/leader.go\<close>): the elector in turns, the
    contract \<open>lock_server\<close>, any number of instances (\<open>election_step\<close>), one leader at a time, the
    books of flags and metrics; the overlap of schedulers and the panic at a shutdown.
  \<^item> \<open>Api\<close>, \<open>ApiRun\<close>, \<open>ApiProperties\<close> (\<^verbatim>\<open>internal/api\<close>): decoding, every handler, the middlewares, the
    table of routes; the effect and the answer of every operation (\<open>api_services\<close>).
  \<^item> \<open>Swagger\<close> (\<^verbatim>\<open>docs/docs.go\<close>): the generated description of the API, its paths, parameters,
    answers and schemas; every answer of the API against it.
  \<^item> \<open>Hub\<close> (\<^verbatim>\<open>internal/dashboard/hub.go\<close>, \<^verbatim>\<open>client.go\<close>): channels, clients and goroutines as steps
    (\<open>hub_step\<close>), the shutdown among them; an invariant unless loop and shutdown overlap, delivery
    in order, and the panic when they do.
  \<^item> \<open>Dashboard\<close>, \<open>DashboardRun\<close> (\<^verbatim>\<open>templates.go\<close>, \<^verbatim>\<open>handler.go\<close>, \<^verbatim>\<open>publisher.go\<close>,
    \<^verbatim>\<open>internal/api/dashboard.go\<close>): what the fragments and pages are made of, the chart against its
    specification, and what a request without the key can do.  \<open>Templates\<close>
    (\<^verbatim>\<open>internal/dashboard/templates/partials\<close>): the buttons of the HTML against the API.
  \<^item> \<open>Config\<close> (\<^verbatim>\<open>internal/config/config.go\<close>): \<^verbatim>\<open>Load\<close> over a model of \<^verbatim>\<open>time.ParseDuration\<close>.
  \<^item> \<open>Application\<close> (\<^verbatim>\<open>cmd/goqueue/main.go\<close>): opening, what is registered and built, the router, the
    collectors of metrics, the shutdown and the closing of the connections.
  \<^item> \<open>System\<close>: the goroutines of \<^verbatim>\<open>main\<close> as one step relation on the two servers (\<open>app_step\<close>, the
    contract \<open>app_services\<close>), and the invariant of the stored data, which holds whatever calls fail
    (\<open>sys_ok\<close>; inside an operation more is known, \<open>knows\<close>).
  \<^item> \<open>Cluster\<close>: any number of instances on the same servers, each electing and working
    (\<open>cluster_step\<close>), in the contract \<open>cluster_services\<close>: the pool's statements leave the lock alone
    (\<open>pool_frame\<close>) and the elector's the table.
  \<^item> \<open>Delivery\<close>: with the servers up, no waiting job loses its entry (\<open>tracked\<close>), and the workers work
    off the queues.
  \<^item> \<open>Interleave\<close>: programs as trees of calls, goroutines over one state (\<open>go_step\<close>), that they come to an
    end, and the rely-guarantee argument for them (\<open>holds\<close>, the locale \<open>shared\<close>).  \<open>Goroutines\<close>: the
    requests, rounds and ticks that change data, call by call, and that run alone they are the
    operations of their components (\<open>calls_alone\<close>).  \<open>Concurrent\<close>: the invariant of the stored data in
    every interleaving of calls, whatever fails.  \<open>Races\<close>: where two goroutines on the same job
    interleave badly.
  This theory has the properties of a single job on its way from the API to a worker.

  \<^bold>\<open>Granularity and fuel.\<close>
  There are two granularities.  In the theories of the components and in \<open>System\<close>, \<open>Cluster\<close> and \<open>Delivery\<close>, a
  request, a round of a worker, a tick of the scheduler, a turn of the elector, of a collector or of
  the subscriber, and a turn of the hub are each one step; between steps anything else may happen,
  in \<open>app_step\<close> whatever else uses the two servers.  The shutdown of the hub is in smaller steps, one
  for picking a client and one for closing its channel.  In \<open>Goroutines\<close>, \<open>Concurrent\<close> and \<open>Races\<close> a
  step is one call: a statement to the database, a command to Redis, a reading of the clock, a metric
  call or the handler of a job.  What only reads (the other requests, the collectors, the dashboard)
  is one step there, too.  The invariant of the data holds at both granularities; that no waiting job
  loses its entry (\<open>no_waiting_job_lost\<close>) holds at the first only, as \<open>tick_undoes_completion\<close> shows.
  Loops over lists are recursion on the
  list.  The endless loops are step relations, without fuel; only
  \<open>worker\<close> has a number of rounds, and no property rests on it.  The loop of \<open>ParseDuration\<close>
  (\<open>dur_loop\<close>) ends because each turn shortens the text.

  \<^bold>\<open>Not modelled.\<close>
  Log output; the HTTP server, TLS and the matching of paths; the upgrade of WebSocket connections
  and the bytes on them; the markup of the HTML templates and the scripts in it; the metrics page;
  the texts of the Swagger document and its copies in JSON and YAML; panics inside handlers; data
  races on variables of the process, except the three that are stated (\<open>leaders_overlap\<close>,
  \<open>stop_can_panic\<close>, \<open>shutdown_can_panic\<close>).

  \<^bold>\<open>What can be added.\<close>
  The number of active workers in an interleaving of calls (the invariant counts it between
  operations only); several instances at the granularity of calls; the time a job spends until it is
  run, under a fair scheduling of the steps.
\<close>

section \<open>From the API to the worker\<close>

text \<open>
  A request is served by one component, the round of a worker by another; what connects them is
  the two servers.  Below, \<open>h\<close> and \<open>p\<close> are an API and a pool over the same servers.
\<close>

lemma upd_job_snoc: "upd_job i k (js @ [j]) = upd_job i k js @ [if ID j = i then k j else j]"
  by (simp add: upd_job_def)

lemma ID_set_status: "ID (set_status st n u j) = ID j"
  by (simp add: set_status_def)

lemma api_cancelled_frame:
  "run_state (api_CreateJob L h r) w = (x, w') \<Longrightarrow> cancelled w' = cancelled w"
  "run_state (api_CancelJob L h r) w = (x, w') \<Longrightarrow> cancelled w' = cancelled w"
  by (auto simp: api_CreateJob_def api_CancelJob_def CreateJob_def GetJob_def UpdateJobStatus_def api_publishEvent_def
        PublishJobEvent_def Push_def Schedule_def run_db_call run_rds_call time_Now_def Let_def
      split: sum.splits option.splits prod.splits if_splits)

text \<open>C9.
  A submitted job is completed.  With both servers up, the queues of the pool empty and a handler
  for the type that returns no error, one good request without a run time and one round of a
  worker later the job is stored as completed, with the queue, type and payload of the request
  and both times set; every other job is as it was, and the queues are empty again.
\<close>

theorem submitted_job_completes:
  assumes "api_services h tbl env up ks pub rup L" "worker_services p tbl env up ks pub rup L"
    and "services_up (\<lambda>d. schema_ok (tbl d)) up ks rup w" "request_job (Body r) = Inr job"
    and "Option.bind (Payload job) (jsonb_in (env (db w))) = Some pl" "text_ok (Queue job)" "text_ok (Type job)"
    and "jobs_ok (table_jobs (tbl (db w)) @ [new_job (env (db w)) pl job])" "RunAt job = None" "\<not> cancelled w"
    and "\<forall>q\<in>set (queues p). waiting (ks (rds w)) q = []" "Queue job \<in> set (queues p)"
    and "Registry_Get (registry p) (Type job) = Some f" "tame f" "\<forall>d v. fst (run_state (f d (Some pl)) v) = None"
  shows "\<exists>x w1 w2 j. run_state (api_CreateJob L h r) w = (writeJSON 201 x, w1) \<and>
           run_state (worker_round L p) w1 = (True, w2) \<and>
           table_jobs (tbl (db w2)) = table_jobs (tbl (db w)) @ [j] \<and>
           Status j = StatusCompleted \<and> Queue j = Queue job \<and> Type j = Type job \<and> Payload j = Some pl \<and>
           StartedAt j \<noteq> None \<and> CompletedAt j \<noteq> None \<and>
           (\<forall>q\<in>set (queues p). waiting (ks (rds w2)) q = [])"
proof -
  let ?j = "new_job (env (db w)) pl job"
  obtain w1 where 1: "run_state (api_CreateJob L h r) w = (writeJSON 201 (json_job L ?j), w1)"
    "services_up (\<lambda>d. schema_ok (tbl d)) up ks rup w1" "table_jobs (tbl (db w1)) = table_jobs (tbl (db w)) @ [?j]"
    "waiting (ks (rds w1)) = (waiting (ks (rds w)))(Queue job := [uuid_String L (ID ?j)])"
    using api_services.api_CreateJob_serving [OF assms(1,3-8)] assms(9,11,12) by auto
  have not_done: "\<not> cancelled w1" using api_cancelled_frame(1) [OF 1(1)] assms(10) by simp
  have first: "take_first (queues p) (waiting (ks (rds w1))) =
      Some (uuid_String L (ID ?j), (waiting (ks (rds w)))(Queue job := []))"
    unfolding 1(4) by (rule take_first_only [OF assms(11,12)])
  have new: "look (table_jobs (tbl (db w1))) (ID ?j) = Some ?j"
    using look_Some_iff [OF assms(8)] unfolding 1(3) by simp
  have "ID ?j \<notin> ID ` set (table_jobs (tbl (db w)))" using assms(8) by (simp add: jobs_ok_def)
  then have "i \<in> set (table_jobs (tbl (db w))) \<Longrightarrow> ID i \<noteq> ID ?j" for i by (metis imageI)
  then have old: "upd_job (ID ?j) k (table_jobs (tbl (db w))) = table_jobs (tbl (db w))" for k
    by (simp add: upd_job_def map_idI)
  have "Registry_Get (registry p) (Type ?j) = Some f" "\<forall>d v. fst (run_state (f d (Payload ?j)) v) = None"
    using assms(13,15) by (simp_all add: new_job_def)
  then obtain w2 n u n' u' where 2: "run_state (worker_round L p) w1 = (True, w2)"
    "waiting (ks (rds w2)) = (waiting (ks (rds w)))(Queue job := [])"
    "services_up (\<lambda>d. schema_ok (tbl d)) up ks rup w2" "sched (ks (rds w2)) = sched (ks (rds w1))"
    "table_jobs (tbl (db w2)) = upd_job (ID ?j) (set_status StatusCompleted n' u')
       (upd_job (ID ?j) (set_status StatusRunning n u) (table_jobs (tbl (db w1))))"
    by (rule round_completes [OF assms(2) 1(2) not_done first new _ assms(14)])
  let ?k = "set_status StatusCompleted n' u' (set_status StatusRunning n u ?j)"
  have "table_jobs (tbl (db w2)) = table_jobs (tbl (db w)) @ [?k]"
    using 2(5) old unfolding 1(3) by (simp add: upd_job_snoc ID_set_status)
  moreover have "Status ?k = StatusCompleted" "Queue ?k = Queue job" "Type ?k = Type job" "Payload ?k = Some pl"
    "StartedAt ?k \<noteq> None" "CompletedAt ?k \<noteq> None"
    by (simp_all add: set_status_def new_job_def go_const)
  moreover have "\<forall>q\<in>set (queues p). waiting (ks (rds w2)) q = []" using 2(2) assms(11) by simp
  ultimately show ?thesis using 1(1) 2(1) by blast
qed

text \<open>The same world with empty queues.\<close>

definition idle_world :: "(pgmem, rmem) world" where
  "idle_world = api_world\<lparr>rds := (rds api_world)\<lparr>r_ks := \<lparr>lists = (\<lambda>_. []), zsets = (\<lambda>_. [])\<rparr>\<rparr>\<rparr>"

lemma idle_world_up: "services_up (\<lambda>d. schema_ok (m_tbl d)) mem_up r_ks rmem_up idle_world"
  using api_world_up
  by (simp add: services_up_def idle_world_def rmem_up_def ks_ok_def sane_clock_def del: api_world_simps)

theorem submitted_job_completes_witness:
  "\<exists>x w1 w2 j. run_state (api_CreateJob canon_lib demo_api create_request) idle_world = (writeJSON 201 x, w1) \<and>
     run_state (worker_round canon_lib demo_pool) w1 = (True, w2) \<and>
     table_jobs (m_tbl (db w2)) = api_jobs @ [j] \<and> Status j = StatusCompleted"
proof -
  have w: "db idle_world = db api_world" "\<not> cancelled idle_world" "waiting (r_ks (rds idle_world)) q = []" for q
    by (simp_all add: idle_world_def waiting_def) (simp add: api_world_def demo_world_def)
  show ?thesis
    using submitted_job_completes [OF mema.api_services_axioms memw.worker_services_axioms idle_world_up create_request_job,
        of "JObj []" ok_handler] api_created_ok w
    by (simp add: ok_handler_def api_env new_job_def created_job_def [symmetric]) blast
qed

text \<open>C34.
  Cancelling does not stop a job that is queued.  The API answers 200 and stores the job as
  cancelled, but the entry stays in the queue and the worker does not look at the status: the
  round that takes the entry runs the handler, and the job ends as completed.
\<close>

theorem cancelled_job_still_runs:
  assumes "api_services h tbl env up ks pub rup L" "worker_services p tbl env up ks pub rup L"
    and "services_up (\<lambda>d. schema_ok (tbl d)) up ks rup w" "uuid_Parse L (URLParam r ''id'') = Some i"
    and "look (table_jobs (tbl (db w))) i = Some j" "Status j = StatusPending" "\<not> cancelled w"
    and "take_first (queues p) (waiting (ks (rds w))) = Some (uuid_String L i, g)"
    and "Registry_Get (registry p) (Type j) = Some f" "tame f" "\<forall>d v. fst (run_state (f d (Payload j)) v) = None"
  shows "\<exists>x w1 w2. run_state (api_CancelJob L h r) w = (writeJSON 200 x, w1) \<and>
           map_option Status (look (table_jobs (tbl (db w1))) i) = Some StatusCancelled \<and>
           run_state (worker_round L p) w1 = (True, w2) \<and>
           map_option Status (look (table_jobs (tbl (db w2))) i) = Some StatusCompleted"
proof -
  obtain w1 n u where 1: "run_state (api_CancelJob L h r) w = (writeJSON 200 (Some (status_only ''cancelled'')), w1)"
    "services_up (\<lambda>d. schema_ok (tbl d)) up ks rup w1" "ks (rds w1) = ks (rds w)"
    "table_jobs (tbl (db w1)) = upd_job i (set_status StatusCancelled n u) (table_jobs (tbl (db w)))"
    using api_services.api_CancelJob_serving [OF assms(1,3,4)] assms(5,6) by auto
  have not_done: "\<not> cancelled w1" using api_cancelled_frame(2) [OF 1(1)] assms(7) by simp
  let ?j = "set_status StatusCancelled n u j"
  have look: "look (table_jobs (tbl (db w1))) i = Some ?j" using assms(5) unfolding 1(4) by simp
  have "Registry_Get (registry p) (Type ?j) = Some f" "\<forall>d v. fst (run_state (f d (Payload ?j)) v) = None"
    using assms(9,11) by (simp_all add: set_status_def)
  then obtain w2 m v m' v' where 2: "run_state (worker_round L p) w1 = (True, w2)" "waiting (ks (rds w2)) = g"
    "services_up (\<lambda>d. schema_ok (tbl d)) up ks rup w2" "sched (ks (rds w2)) = sched (ks (rds w1))"
    "table_jobs (tbl (db w2)) = upd_job i (set_status StatusCompleted m' v')
       (upd_job i (set_status StatusRunning m v) (table_jobs (tbl (db w1))))"
    by (rule round_completes [OF assms(2) 1(2) not_done assms(8) [folded 1(3)] look _ assms(10)])
  have "map_option Status (look (table_jobs (tbl (db w1))) i) = Some StatusCancelled" using look by (simp add: set_status_def)
  moreover have "map_option Status (look (table_jobs (tbl (db w2))) i) = Some StatusCompleted"
    using look unfolding 2(5) by (simp add: set_status_def)
  ultimately show ?thesis using 1(1) 2(1) by blast
qed

theorem cancelled_job_still_runs_witness:
  "\<exists>x w1 w2. run_state (api_CancelJob canon_lib demo_api (job_request 1)) api_world = (writeJSON 200 x, w1) \<and>
     map_option Status (look (table_jobs (m_tbl (db w1))) 1) = Some StatusCancelled \<and>
     run_state (worker_round canon_lib demo_pool) w1 = (True, w2) \<and>
     map_option Status (look (table_jobs (m_tbl (db w2))) 1) = Some StatusCompleted"
proof -
  have "\<not> cancelled api_world" by (simp add: api_world_def demo_world_def)
  then show ?thesis
    using cancelled_job_still_runs [OF mema.api_services_axioms memw.worker_services_axioms api_world_up,
        of "job_request 1" 1 "demo_job 1 ''good'' 0" "(waiting demo_ks)(''default'' := [canon_String 2])" ok_handler]
    by (simp add: ok_handler_def demo_waiting)
qed

end
